theory Spec2Isabelle
  imports Complex_Main "HOL-Library.Product_Lexorder" "HOL-Library.Monad_Syntax"
    "HOL-Library.While_Combinator" "HOL-Library.Word"
begin

section \<open>Python errors\<close>

text \<open>
  The exceptions the modelled functions can raise.  A function that can raise returns
  \<open>py_error + 'a\<close>, with \<open>Inl\<close> for the exception.
\<close>

datatype py_error = ZeroDivisionError | ValueError | IndexError | KeyError

section \<open>Brick model and merge rules (merge.py)\<close>

text \<open>
  \<open>VALID_SIZES\<close> is a Python set of pairs.  The code tests membership in it and iterates
  over it; the list is the set in the order of one iteration.  The constant is the
  module's own default.  A function that reads a module global \<open>VALID_SIZES\<close> takes the
  catalog it reads as a parameter.  There are two such globals: \<open>merge.VALID_SIZES\<close>,
  read by \<open>is_valid_lego_part\<close>, and \<open>solver.VALID_SIZES\<close>, bound by
  \<open>from merge import VALID_SIZES\<close> when solver.py is imported and read by
  \<open>get_best_partition\<close>.
\<close>

type_synonym catalog = "(int \<times> int) list"

definition VALID_SIZES :: catalog where
  "VALID_SIZES = [(1, 1), (1, 2), (1, 4), (2, 2), (2, 4), (2, 1), (4, 1), (4, 2)]"

text \<open>
  The inventory of main.py (\<open>INVENTAIRE_BRIQUES\<close>), which \<open>configurer_inventaire\<close>
  assigns to \<open>merge.VALID_SIZES\<close>.  The assignment rebinds the global of merge.py
  only: \<open>solver.VALID_SIZES\<close> stays the set it was bound to at import.
\<close>

definition INVENTAIRE_BRIQUES :: catalog where
  "INVENTAIRE_BRIQUES =
     [(1, 1), (1, 2), (1, 3), (1, 4), (1, 6), (1, 8),
      (2, 2), (2, 3), (2, 4), (2, 6),
      (2, 1), (3, 1), (4, 1), (6, 1), (8, 1),
      (3, 2), (4, 2), (6, 2)]"

text \<open>
  Class \<open>Brick\<close>.  The fields \<open>x\<close>, \<open>y\<close>, \<open>length\<close>, ... carry the suffix \<open>_b\<close>:
  the plain names are taken by variables and by the list library.
\<close>

record Brick =
  layer_b :: int
  x_b :: int
  y_b :: int
  length_b :: int
  width_b :: int
  color_b :: int
  orientation_b :: string

definition mk_Brick :: "int \<Rightarrow> int \<Rightarrow> int \<Rightarrow> int \<Rightarrow> int \<Rightarrow> int \<Rightarrow> string \<Rightarrow> Brick" where
  "mk_Brick la xx yy len wid col ori =
     \<lparr>layer_b = la, x_b = xx, y_b = yy, length_b = len, width_b = wid,
      color_b = col, orientation_b = ori\<rparr>"

definition bbox :: "Brick \<Rightarrow> int \<times> int \<times> int \<times> int" where
  "bbox b = (x_b b, y_b b, x_b b + length_b b, y_b b + width_b b)"

definition is_valid_lego_part :: "catalog \<Rightarrow> int \<Rightarrow> int \<Rightarrow> bool" where
  "is_valid_lego_part vs len wid \<longleftrightarrow> (len, wid) \<in> set vs"

definition are_neighbors :: "Brick \<Rightarrow> Brick \<Rightarrow> bool" where
  "are_neighbors b1 b2 =
     (if layer_b b1 \<noteq> layer_b b2 then False
      else
        (case bbox b1 of (x1a, y1a, x2a, y2a) \<Rightarrow>
         case bbox b2 of (x1b, y1b, x2b, y2b) \<Rightarrow>
           let vertical_touch =
                 ((x2a = x1b \<or> x2b = x1a) \<and> \<not> (y2a \<le> y1b \<or> y2b \<le> y1a));
               horizontal_touch =
                 ((y2a = y1b \<or> y2b = y1a) \<and> \<not> (x2a \<le> x1b \<or> x2b \<le> x1a))
           in vertical_touch \<or> horizontal_touch))"

definition can_merge :: "Brick \<Rightarrow> Brick \<Rightarrow> bool" where
  "can_merge b1 b2 =
     (if layer_b b1 \<noteq> layer_b b2 \<or> color_b b1 \<noteq> color_b b2
         \<or> orientation_b b1 \<noteq> orientation_b b2 then False
      else if \<not> are_neighbors b1 b2 then False
      else if orientation_b b1 = ''H'' then y_b b1 = y_b b2 \<and> width_b b1 = width_b b2
      else if orientation_b b1 = ''V'' then x_b b1 = x_b b2 \<and> length_b b1 = length_b b2
      else False)"

definition merge_bricks :: "catalog \<Rightarrow> Brick \<Rightarrow> Brick \<Rightarrow> Brick option" where
  "merge_bricks vs b1 b2 =
     (if \<not> can_merge b1 b2 then None
      else if orientation_b b1 = ''H'' then
        (let xx = min (x_b b1) (x_b b2);
             len = length_b b1 + length_b b2
         in if is_valid_lego_part vs len (width_b b1)
            then Some (mk_Brick (layer_b b1) xx (y_b b1) len (width_b b1) (color_b b1) ''H'')
            else None)
      else if orientation_b b1 = ''V'' then
        (let yy = min (y_b b1) (y_b b2);
             wid = width_b b1 + width_b b2
         in if is_valid_lego_part vs (length_b b1) wid
            then Some (mk_Brick (layer_b b1) (x_b b1) yy (length_b b1) wid (color_b b1) ''V'')
            else None)
      else None)"

definition can_merge_side :: "Brick \<Rightarrow> Brick \<Rightarrow> bool" where
  "can_merge_side b1 b2 =
     (if layer_b b1 \<noteq> layer_b b2 \<or> color_b b1 \<noteq> color_b b2
         \<or> orientation_b b1 \<noteq> orientation_b b2 then False
      else if \<not> are_neighbors b1 b2 then False
      else if orientation_b b1 = ''H'' then x_b b1 = x_b b2 \<and> length_b b1 = length_b b2
      else if orientation_b b1 = ''V'' then y_b b1 = y_b b2 \<and> width_b b1 = width_b b2
      else False)"

definition merge_bricks_side :: "catalog \<Rightarrow> Brick \<Rightarrow> Brick \<Rightarrow> Brick option" where
  "merge_bricks_side vs b1 b2 =
     (if \<not> can_merge_side b1 b2 then None
      else if orientation_b b1 = ''H'' then
        (let yy = min (y_b b1) (y_b b2);
             new_width = width_b b1 + width_b b2
         in if is_valid_lego_part vs (length_b b1) new_width
            then Some (mk_Brick (layer_b b1) (x_b b1) yy (length_b b1) new_width (color_b b1) ''H'')
            else None)
      else if orientation_b b1 = ''V'' then
        (let xx = min (x_b b1) (x_b b2);
             new_length = length_b b1 + length_b b2
         in if is_valid_lego_part vs new_length (width_b b1)
            then Some (mk_Brick (layer_b b1) xx (y_b b1) new_length (width_b b1) (color_b b1) ''V'')
            else None)
      else None)"

section \<open>Greedy merge solver (solver.py)\<close>

text \<open>
  \<open>get_best_partition\<close>: the \<open>for\<close> loop that collects the compatible lengths, then
  \<open>sorted(list(set(valid_lengths)), reverse=True)\<close>.
\<close>

fun collect_lengths :: "catalog \<Rightarrow> int \<Rightarrow> int list" where
  "collect_lengths [] width_ref = []"
| "collect_lengths ((l, w) # rest) width_ref =
     (if w = width_ref then [l] else []) @ (if l = width_ref then [w] else [])
     @ collect_lengths rest width_ref"

definition valid_lengths :: "catalog \<Rightarrow> int \<Rightarrow> int list" where
  "valid_lengths vs width_ref = rev (sorted_list_of_set (set (collect_lengths vs width_ref)))"

text \<open>
  The \<open>while remaining > 0\<close> loop.  The inner \<open>for\<close> with its \<open>break\<close> takes the first
  length of the descending list that fits.  A catalog with a length \<open>\<le> 0\<close> can keep the
  loop running for ever, so the loop is a partial function: \<open>None\<close> is "does not return".
\<close>

partial_function (option) partition_loop :: "int list \<Rightarrow> int \<Rightarrow> int list \<Rightarrow> int list option" where
  "partition_loop vls remaining parts =
     (if remaining > 0 then
        (case find (\<lambda>L. L \<le> remaining) vls of
           Some L \<Rightarrow> partition_loop vls (remaining - L) (parts @ [L])
         | None \<Rightarrow> partition_loop vls (remaining - 1) (parts @ [1]))
      else Some parts)"

declare partition_loop.simps [code]

definition get_best_partition :: "catalog \<Rightarrow> int \<Rightarrow> int \<Rightarrow> int list option" where
  "get_best_partition vs total_length width_ref =
     partition_loop (valid_lengths vs width_ref) total_length []"

text \<open>\<open>process_run\<close>: the new bricks tile the run, the position advancing by each segment.\<close>

fun place_H :: "Brick \<Rightarrow> int \<Rightarrow> int \<Rightarrow> int list \<Rightarrow> Brick list" where
  "place_H ref_b width_ref curr_x [] = []"
| "place_H ref_b width_ref curr_x (seg_len # segs) =
     mk_Brick (layer_b ref_b) curr_x (y_b ref_b) seg_len width_ref (color_b ref_b) ''H''
     # place_H ref_b width_ref (curr_x + seg_len) segs"

fun place_V :: "Brick \<Rightarrow> int \<Rightarrow> int \<Rightarrow> int list \<Rightarrow> Brick list" where
  "place_V ref_b width_ref curr_y [] = []"
| "place_V ref_b width_ref curr_y (seg_len # segs) =
     mk_Brick (layer_b ref_b) (x_b ref_b) curr_y width_ref seg_len (color_b ref_b) ''V''
     # place_V ref_b width_ref (curr_y + seg_len) segs"

definition process_run :: "catalog \<Rightarrow> Brick list \<Rightarrow> string \<Rightarrow> Brick list option" where
  "process_run vs run_bricks orientation =
     (case run_bricks of
        [] \<Rightarrow> Some []
      | ref_b # _ \<Rightarrow>
          if orientation = ''H'' then
            (let total_len = sum_list (map length_b run_bricks);
                 width_ref = width_b ref_b
             in do { segments \<leftarrow> get_best_partition vs total_len width_ref;
                     Some (place_H ref_b width_ref (x_b ref_b) segments) })
          else
            (let total_len = sum_list (map width_b run_bricks);
                 width_ref = length_b ref_b
             in do { segments \<leftarrow> get_best_partition vs total_len width_ref;
                     Some (place_V ref_b width_ref (y_b ref_b) segments) }))"

text \<open>
  \<open>optimize_layer_smart\<close>: a stable sort (\<open>list.sort\<close> with a key), then the scan that
  cuts the sorted list into runs.  The loop state is the run being built and the output.
\<close>

definition is_continuous :: "string \<Rightarrow> Brick \<Rightarrow> Brick \<Rightarrow> bool" where
  "is_continuous orientation last_b b =
     (if orientation = ''H'' then
        y_b b = y_b last_b \<and> color_b b = color_b last_b \<and> x_b b = x_b last_b + length_b last_b
      else
        x_b b = x_b last_b \<and> color_b b = color_b last_b \<and> y_b b = y_b last_b + width_b last_b)"

fun runs_loop :: "catalog \<Rightarrow> string \<Rightarrow> Brick list \<Rightarrow> Brick list \<Rightarrow> Brick list \<Rightarrow> Brick list option" where
  "runs_loop vs orientation [] current_run optimized =
     do { r \<leftarrow> process_run vs current_run orientation; Some (optimized @ r) }"
| "runs_loop vs orientation (b # bs) current_run optimized =
     (if is_continuous orientation (last current_run) b
      then runs_loop vs orientation bs (current_run @ [b]) optimized
      else do { r \<leftarrow> process_run vs current_run orientation;
                runs_loop vs orientation bs [b] (optimized @ r) })"

definition optimize_layer_smart :: "catalog \<Rightarrow> Brick list \<Rightarrow> string \<Rightarrow> Brick list option" where
  "optimize_layer_smart vs bricks orientation =
     (let sorted_bricks =
            (if orientation = ''H'' then sort_key (\<lambda>b. (y_b b, x_b b)) bricks
             else sort_key (\<lambda>b. (x_b b, y_b b)) bricks)
      in case sorted_bricks of
           [] \<Rightarrow> Some []
         | b0 # rest \<Rightarrow> runs_loop vs orientation rest [b0] [])"

text \<open>
  \<open>optimize_layer_2d_side\<close>: one pass over the sorted list, merging neighbours in pairs.
  \<open>merge_bricks_side\<close> reads the catalog of merge.py, the parameter \<open>ms\<close>.
\<close>

fun side_loop :: "catalog \<Rightarrow> Brick list \<Rightarrow> Brick list" where
  "side_loop ms [] = []"
| "side_loop ms [current] = [current]"
| "side_loop ms (current # next_b # rest) =
     (case merge_bricks_side ms current next_b of
        Some merged \<Rightarrow> merged # side_loop ms rest
      | None \<Rightarrow> current # side_loop ms (next_b # rest))"

definition optimize_layer_2d_side :: "catalog \<Rightarrow> Brick list \<Rightarrow> string \<Rightarrow> Brick list" where
  "optimize_layer_2d_side ms bricks orientation =
     side_loop ms
       (if orientation = ''H'' then sort_key (\<lambda>b. (x_b b, y_b b)) bricks
        else sort_key (\<lambda>b. (y_b b, x_b b)) bricks)"

text \<open>
  \<open>solve_greedy_stripe\<close>.  \<open>layers\<close> groups the bricks by layer, each group in the order of
  the input; the loop visits the layers in ascending order.  The last statement before
  the return divides by \<open>len(bricks)\<close>.  The first pass reads \<open>solver.VALID_SIZES\<close>
  (the parameter \<open>vs\<close>), the second pass \<open>merge.VALID_SIZES\<close> (the parameter \<open>ms\<close>);
  under main.py the two differ, \<open>vs\<close> is \<open>VALID_SIZES\<close> and \<open>ms\<close> is
  \<open>INVENTAIRE_BRIQUES\<close>.
\<close>

fun layers_loop ::
  "catalog \<Rightarrow> catalog \<Rightarrow> Brick list \<Rightarrow> int list \<Rightarrow> Brick list \<Rightarrow> Brick list option" where
  "layers_loop vs ms bricks [] final_bricks = Some final_bricks"
| "layers_loop vs ms bricks (layer_idx # idxs) final_bricks =
     (let layer_content = filter (\<lambda>b. layer_b b = layer_idx) bricks;
          orient = (if layer_idx mod 2 = 0 then ''H'' else ''V'')
      in do { pass1_bricks \<leftarrow> optimize_layer_smart vs layer_content orient;
              layers_loop vs ms bricks idxs
                (final_bricks @ optimize_layer_2d_side ms pass1_bricks orient) })"

definition solve_greedy_stripe ::
  "catalog \<Rightarrow> catalog \<Rightarrow> Brick list \<Rightarrow> (py_error + Brick list) option" where
  "solve_greedy_stripe vs ms bricks =
     do { final_bricks \<leftarrow>
            layers_loop vs ms bricks (sorted_list_of_set (set (map layer_b bricks))) [];
          if length bricks = 0 then Some (Inl ZeroDivisionError)
          else Some (Inr final_bricks) }"

section \<open>Spatial sampler (donnees_echantillonnees_LIDAR.py)\<close>

text \<open>
  The decoded file (\<open>laz_to_las\<close>) is the list of its points, one record per point for
  the parallel arrays \<open>las.x\<close>, \<open>las.y\<close>, \<open>las.z\<close>, \<open>las.classification\<close>.
  Coordinates are real numbers here: the code only compares them and adds the extent to
  the corner.

  The four attributes are not numpy arrays but views of the laspy library, whose code
  is not part of the repository.  The samplers index them by an array of indices
  (\<open>x[indices_zone]\<close>); that operation is a parameter of the model, \<open>vue_xyz\<close> for the
  coordinate views and \<open>vue_classe\<close> for the view of the classification: \<open>vue a idx\<close>
  is the array of values the view over the values \<open>a\<close> returns for the index array
  \<open>idx\<close>, or the exception it raises.  The other operations on the views (\<open>np.min\<close>,
  \<open>np.max\<close>, the comparisons of the mask) are those of numpy on the values.
\<close>

record las_point =
  x_p :: real
  y_p :: real
  z_p :: real
  classification_p :: nat

text \<open>
  \<open>np.min\<close> and \<open>np.max\<close> raise \<open>ValueError\<close> on an array of size zero.
\<close>

definition np_min :: "real list \<Rightarrow> py_error + real" where
  "np_min xs = (case xs of [] \<Rightarrow> Inl ValueError | v # vs \<Rightarrow> Inr (fold min vs v))"

definition np_max :: "real list \<Rightarrow> py_error + real" where
  "np_max xs = (case xs of [] \<Rightarrow> Inl ValueError | v # vs \<Rightarrow> Inr (fold max vs v))"

text \<open>
  \<open>np.random.choice(a, size=n, replace=False)\<close>: \<open>n\<close> entries of \<open>a\<close> at distinct
  positions, in the order of a random permutation of the positions.  The generator is a
  parameter \<open>rng\<close>: \<open>rng k\<close> is the permutation of \<open>[0..<k]\<close> it draws for a population
  of \<open>k\<close>.  A negative size raises \<open>ValueError\<close>.
\<close>

definition random_choice :: "(nat \<Rightarrow> nat list) \<Rightarrow> nat list \<Rightarrow> int \<Rightarrow> py_error + nat list" where
  "random_choice rng a n =
     (if n < 0 then Inl ValueError
      else Inr (map (\<lambda>i. a ! i) (take (nat n) (rng (length a)))))"

definition valid_rng :: "(nat \<Rightarrow> nat list) \<Rightarrow> nat \<Rightarrow> bool" where
  "valid_rng rng k \<longleftrightarrow> length (rng k) = k \<and> set (rng k) = {..<k}"

text \<open>
  The part the two samplers share from \<open>indices_zone = np.where(masque_zone)[0]\<close> on:
  the cap on the number of points, then the structured array of the selected points.
\<close>

definition np_where :: "('a \<Rightarrow> bool) \<Rightarrow> 'a list \<Rightarrow> nat list" where
  "np_where masque las = filter (\<lambda>i. masque (las ! i)) [0..<length las]"

text \<open>
  Indexing a numpy array by an array of indices: \<open>IndexError\<close> when an index is out of
  range, one value for each index otherwise.
\<close>

definition np_take :: "'a list \<Rightarrow> nat list \<Rightarrow> py_error + 'a list" where
  "np_take a idx =
     (if list_all (\<lambda>i. i < length a) idx then Inr (map (\<lambda>i. a ! i) idx) else Inl IndexError)"

text \<open>
  \<open>LIDAR_numpy_test[field] = values\<close> on an array of length \<open>n\<close>: the values are
  broadcast to the length of the array, which numpy refuses with \<open>ValueError\<close> unless
  there are \<open>n\<close> values or one.
\<close>

definition affecter :: "nat \<Rightarrow> 'a list \<Rightarrow> py_error + 'a list" where
  "affecter n vs =
     (if length vs = n then Inr vs
      else if length vs = 1 then Inr (replicate n (hd vs))
      else Inl ValueError)"

text \<open>
  The cap: \<open>indices_zone\<close> after the statement
  \<open>if len(indices_zone) > nb_points: indices_zone = np.random.choice(...)\<close>.
\<close>

definition indices_retenus :: "(nat \<Rightarrow> nat list) \<Rightarrow> nat list \<Rightarrow> int \<Rightarrow> py_error + nat list" where
  "indices_retenus rng indices_zone nb_points =
     (if int (length indices_zone) > nb_points
      then random_choice rng indices_zone nb_points else Inr indices_zone)"

text \<open>
  \<open>echantillon\<close>: the cap, the four indexings of the views, then the structured array
  \<open>np.zeros(len(indices_zone), dtype=...)\<close> and the four assignments of its fields.  The
  field \<open>classification\<close> is \<open>np.uint8\<close>.
\<close>

definition echantillon ::
  "(real list \<Rightarrow> nat list \<Rightarrow> py_error + real list)
     \<Rightarrow> (nat list \<Rightarrow> nat list \<Rightarrow> py_error + nat list)
     \<Rightarrow> (nat \<Rightarrow> nat list) \<Rightarrow> las_point list \<Rightarrow> nat list \<Rightarrow> int
     \<Rightarrow> py_error + las_point list" where
  "echantillon vue_xyz vue_classe rng las indices_zone nb_points =
     (case indices_retenus rng indices_zone nb_points of
        Inl e \<Rightarrow> Inl e
      | Inr indices \<Rightarrow>
     (case vue_xyz (map x_p las) indices of
        Inl e \<Rightarrow> Inl e
      | Inr x_final \<Rightarrow>
     (case vue_xyz (map y_p las) indices of
        Inl e \<Rightarrow> Inl e
      | Inr y_final \<Rightarrow>
     (case vue_xyz (map z_p las) indices of
        Inl e \<Rightarrow> Inl e
      | Inr z_final \<Rightarrow>
     (case vue_classe (map classification_p las) indices of
        Inl e \<Rightarrow> Inl e
      | Inr classification_final \<Rightarrow>
     (case affecter (length indices) x_final of
        Inl e \<Rightarrow> Inl e
      | Inr xs \<Rightarrow>
     (case affecter (length indices) y_final of
        Inl e \<Rightarrow> Inl e
      | Inr ys \<Rightarrow>
     (case affecter (length indices) z_final of
        Inl e \<Rightarrow> Inl e
      | Inr zs \<Rightarrow>
     (case affecter (length indices) classification_final of
        Inl e \<Rightarrow> Inl e
      | Inr cs \<Rightarrow>
          Inr (map (\<lambda>i. \<lparr>x_p = xs ! i, y_p = ys ! i, z_p = zs ! i,
                            classification_p = cs ! i mod 256\<rparr>)
                 [0..<length indices]))))))))))"

text \<open>
  \<open>LIDAR_carre_aleatoire\<close>.  The corner \<open>(x0, y0)\<close> is drawn by two calls of
  \<open>np.random.uniform\<close> between bounds of the file; the two draws are the parameters
  \<open>draw_x\<close> and \<open>draw_y\<close>, functions of the bounds they are given.
\<close>

definition dans_carre :: "real \<Rightarrow> real \<Rightarrow> real \<Rightarrow> las_point \<Rightarrow> bool" where
  "dans_carre x0 y0 taille_zone p \<longleftrightarrow>
     x_p p \<ge> x0 \<and> x_p p \<le> x0 + taille_zone \<and> y_p p \<ge> y0 \<and> y_p p \<le> y0 + taille_zone"

definition coin_aleatoire ::
  "(real \<Rightarrow> real \<Rightarrow> real) \<Rightarrow> (real \<Rightarrow> real \<Rightarrow> real) \<Rightarrow> las_point list \<Rightarrow> real
     \<Rightarrow> py_error + real \<times> real" where
  "coin_aleatoire draw_x draw_y las taille_zone =
     (case (np_min (map x_p las), np_max (map x_p las),
            np_min (map y_p las), np_max (map y_p las)) of
        (Inr xmin, Inr xmax, Inr ymin, Inr ymax) \<Rightarrow>
          Inr (draw_x xmin (xmax - taille_zone), draw_y ymin (ymax - taille_zone))
      | _ \<Rightarrow> Inl ValueError)"

definition LIDAR_carre_aleatoire ::
  "(real list \<Rightarrow> nat list \<Rightarrow> py_error + real list)
     \<Rightarrow> (nat list \<Rightarrow> nat list \<Rightarrow> py_error + nat list)
     \<Rightarrow> (real \<Rightarrow> real \<Rightarrow> real) \<Rightarrow> (real \<Rightarrow> real \<Rightarrow> real) \<Rightarrow> (nat \<Rightarrow> nat list)
     \<Rightarrow> las_point list \<Rightarrow> int \<Rightarrow> real \<Rightarrow> py_error + las_point list" where
  "LIDAR_carre_aleatoire vue_xyz vue_classe draw_x draw_y rng las nb_points taille_zone =
     (case coin_aleatoire draw_x draw_y las taille_zone of
        Inl e \<Rightarrow> Inl e
      | Inr (x0, y0) \<Rightarrow>
          (let indices_zone = np_where (dans_carre x0 y0 taille_zone) las
           in echantillon vue_xyz vue_classe rng las indices_zone nb_points))"

text \<open>
  \<open>LIDAR_rectangle\<close>.  The global bounds are computed (and never used) before the
  rectangle is read.
\<close>

definition dans_rectangle :: "real \<Rightarrow> real \<Rightarrow> real \<Rightarrow> real \<Rightarrow> las_point \<Rightarrow> bool" where
  "dans_rectangle x_min_coin y_min_coin x_max_coin y_max_coin p \<longleftrightarrow>
     x_p p \<ge> x_min_coin \<and> x_p p \<le> x_max_coin \<and> y_p p \<ge> y_min_coin \<and> y_p p \<le> y_max_coin"

definition LIDAR_rectangle ::
  "(real list \<Rightarrow> nat list \<Rightarrow> py_error + real list)
     \<Rightarrow> (nat list \<Rightarrow> nat list \<Rightarrow> py_error + nat list)
     \<Rightarrow> (nat \<Rightarrow> nat list) \<Rightarrow> las_point list \<Rightarrow> int \<Rightarrow> real \<Rightarrow> real \<Rightarrow> real \<Rightarrow> real
     \<Rightarrow> py_error + las_point list" where
  "LIDAR_rectangle vue_xyz vue_classe rng las nb_points x_min_coin y_min_coin
       longueur_x longueur_y =
     (case (np_min (map x_p las), np_max (map x_p las),
            np_min (map y_p las), np_max (map y_p las)) of
        (Inr xmin, Inr xmax, Inr ymin, Inr ymax) \<Rightarrow>
          (let x_max_coin = x_min_coin + longueur_x;
               y_max_coin = y_min_coin + longueur_y;
               indices_zone =
                 np_where (dans_rectangle x_min_coin y_min_coin x_max_coin y_max_coin) las
           in echantillon vue_xyz vue_classe rng las indices_zone nb_points)
      | _ \<Rightarrow> Inl ValueError)"

text \<open>
  A file of three points, for the examples, and a view whose indexing raises
  \<open>IndexError\<close> on an index array of two elements and is that of numpy on every other.
\<close>

definition vue_sauf_deux :: "'a list \<Rightarrow> nat list \<Rightarrow> py_error + 'a list" where
  "vue_sauf_deux a idx = (if length idx = 2 then Inl IndexError else np_take a idx)"

definition las_exemple :: "las_point list" where
  "las_exemple =
     [\<lparr>x_p = 1, y_p = 1, z_p = 0, classification_p = 2\<rparr>,
      \<lparr>x_p = 2, y_p = 3, z_p = 1, classification_p = 6\<rparr>,
      \<lparr>x_p = 50, y_p = 3, z_p = 1, classification_p = 6\<rparr>]"

section \<open>numpy arrays of three dimensions\<close>

text \<open>
  An array of shape \<open>(n1, n2, n3)\<close> is a list of \<open>n1\<close> lists of \<open>n2\<close> lists of \<open>n3\<close>
  entries: \<open>a[i, j, k]\<close> is \<open>a ! i ! j ! k\<close>.  \<open>tabulate3\<close> builds the array of a given
  shape from its entries, the way a vectorised expression does.
\<close>

type_synonym 'a array3 = "'a list list list"

definition tabulate3 :: "nat \<Rightarrow> nat \<Rightarrow> nat \<Rightarrow> (nat \<Rightarrow> nat \<Rightarrow> nat \<Rightarrow> 'a) \<Rightarrow> 'a array3" where
  "tabulate3 n1 n2 n3 f =
     map (\<lambda>i. map (\<lambda>j. map (\<lambda>k. f i j k) [0..<n3]) [0..<n2]) [0..<n1]"

definition has_shape :: "'a array3 \<Rightarrow> nat \<Rightarrow> nat \<Rightarrow> nat \<Rightarrow> bool" where
  "has_shape a n1 n2 n3 \<longleftrightarrow>
     length a = n1 \<and> (\<forall>p \<in> set a. length p = n2 \<and> (\<forall>r \<in> set p. length r = n3))"

text \<open>
  \<open>np.argmax\<close> of a one-dimensional array: the index of the first occurrence of the
  maximum.  On an empty array numpy raises \<open>ValueError\<close>; the caller below tests for
  that case before it takes the maximum.
\<close>

fun argmax_loop :: "int list \<Rightarrow> nat \<Rightarrow> nat \<Rightarrow> int \<Rightarrow> nat" where
  "argmax_loop [] i best bv = best"
| "argmax_loop (v # vs) i best bv =
     (if v > bv then argmax_loop vs (Suc i) i v else argmax_loop vs (Suc i) best bv)"

definition np_argmax :: "int list \<Rightarrow> nat" where
  "np_argmax row = (case row of [] \<Rightarrow> 0 | v # vs \<Rightarrow> argmax_loop vs 1 0 v)"

section \<open>Voxelizer (LIDAR_couches.py)\<close>

text \<open>
  \<open>LIDAR_couches\<close> from the indexation on.  The grid dimensions \<open>ny\<close>, \<open>nx\<close>, \<open>nz\<close> and
  the indices \<open>ix\<close>, \<open>iy\<close>, \<open>iz\<close> of the points come from floating-point divisions of
  the coordinates; the model takes them as they are before the mask \<open>valid\<close>: one
  record per point, with its three indices and its classification.
\<close>

record voxel_point =
  iy_v :: int
  ix_v :: int
  iz_v :: int
  classe_v :: nat

definition valid :: "int \<Rightarrow> int \<Rightarrow> int \<Rightarrow> voxel_point \<Rightarrow> bool" where
  "valid ny nx nz p \<longleftrightarrow>
     ix_v p \<ge> 0 \<and> ix_v p < nx \<and> iy_v p \<ge> 0 \<and> iy_v p < ny \<and> iz_v p \<ge> 0 \<and> iz_v p < nz"

text \<open>\<open>np.ravel_multi_index((iy, ix, iz), dims=(ny, nx, nz))\<close>, on indices in range.\<close>

definition ravel_multi_index :: "int \<Rightarrow> int \<Rightarrow> int \<Rightarrow> voxel_point \<Rightarrow> nat" where
  "ravel_multi_index ny nx nz p = nat ((iy_v p * nx + ix_v p) * nz + iz_v p)"

text \<open>\<open>class_counts\<close> has dtype \<open>int32\<close>: each tally is kept modulo \<open>2^32\<close>.\<close>

definition wrap_int32 :: "int \<Rightarrow> int" where
  "wrap_int32 n = (n + 2 ^ 31) mod 2 ^ 32 - 2 ^ 31"

text \<open>\<open>np.unique(classification)\<close>: the distinct classifications, ascending.\<close>

definition classes_uniques :: "voxel_point list \<Rightarrow> nat list" where
  "classes_uniques pts = sorted_list_of_set (set (map classe_v pts))"

text \<open>
  \<open>class_counts\<close> before the reshape: one row per flat voxel index, one column per
  distinct class; \<open>np.add.at\<close> adds 1 for each point of the class at its voxel index.
\<close>

definition class_counts_plat :: "int \<Rightarrow> int \<Rightarrow> int \<Rightarrow> voxel_point list \<Rightarrow> int list list" where
  "class_counts_plat ny nx nz pts =
     map (\<lambda>v. map (\<lambda>c. wrap_int32 (int (length
                 (filter (\<lambda>p. ravel_multi_index ny nx nz p = v
                              \<and> classe_v p = classes_uniques pts ! c) pts))))
               [0..<length (classes_uniques pts)])
         [0..<nat (ny * nx * nz)]"

definition class_counts :: "int \<Rightarrow> int \<Rightarrow> int \<Rightarrow> voxel_point list \<Rightarrow> int list array3" where
  "class_counts ny nx nz pts =
     tabulate3 (nat ny) (nat nx) (nat nz)
       (\<lambda>y x z. class_counts_plat ny nx nz pts ! ((y * nat nx + x) * nat nz + z))"

text \<open>
  The rule on class 1: where a voxel has more than one class with a positive tally and
  the tally of class 1 is positive, the tally of class 1 is set to zero.
\<close>

definition ignorer_non_classe :: "nat list \<Rightarrow> int list \<Rightarrow> int list" where
  "ignorer_non_classe uniques row =
     (case filter (\<lambda>i. uniques ! i = 1) [0..<length uniques] of
        [] \<Rightarrow> row
      | idx_non_classe # _ \<Rightarrow>
          if length (filter (\<lambda>t. t > 0) row) > 1 \<and> row ! idx_non_classe > 0
          then row[idx_non_classe := 0] else row)"

text \<open>\<open>class_maj = classes_uniques[idx_max]\<close>, before the density threshold.\<close>

definition classe_majoritaire :: "int \<Rightarrow> int \<Rightarrow> int \<Rightarrow> voxel_point list \<Rightarrow> nat array3" where
  "classe_majoritaire ny nx nz pts =
     map (map (map (\<lambda>row. classes_uniques pts
                              ! np_argmax (ignorer_non_classe (classes_uniques pts) row))))
       (class_counts ny nx nz pts)"

text \<open>
  The function.  \<open>histogramdd\<close> stands for \<open>np.histogramdd(...)[0].astype(int)\<close> on
  the sample of the valid points with \<open>bins = (ny, nx, nz)\<close>: numpy computes its bin
  edges in floating point over the range of the sample, so its array is a parameter.
  It raises \<open>ValueError\<close> when a number of bins is below 1; \<open>np.argmax\<close> raises
  \<open>ValueError\<close> when no class is left to take the maximum over.
\<close>

definition LIDAR_couches ::
  "(voxel_point list \<Rightarrow> int array3) \<Rightarrow> int \<Rightarrow> int \<Rightarrow> int \<Rightarrow> voxel_point list \<Rightarrow> int
     \<Rightarrow> py_error + int array3 \<times> nat array3" where
  "LIDAR_couches histogramdd ny nx nz points densite_min =
     (let pts = filter (valid ny nx nz) points in
      if ny < 1 \<or> nx < 1 \<or> nz < 1 then Inl ValueError
      else
        (let counts = histogramdd pts in
         if classes_uniques pts = [] then Inl ValueError
         else
           (let class_maj = classe_majoritaire ny nx nz pts
            in Inr (map (map (map (\<lambda>c. if c < densite_min then 0 else c))) counts,
                    tabulate3 (nat ny) (nat nx) (nat nz)
                      (\<lambda>y x z. if counts ! y ! x ! z < densite_min then 0
                                else class_maj ! y ! x ! z)))))"

text \<open>
  The words of the specification, for a voxel \<open>(y, x, z)\<close>: the tally of a class is the
  number of the voxel's points of that class; the remaining tally is the tally, but
  zero for class 1 when the voxel holds a point of another class.
\<close>

definition points_du_voxel :: "voxel_point list \<Rightarrow> nat \<Rightarrow> nat \<Rightarrow> nat \<Rightarrow> voxel_point list" where
  "points_du_voxel pts y x z =
     filter (\<lambda>p. iy_v p = int y \<and> ix_v p = int x \<and> iz_v p = int z) pts"

definition tally :: "voxel_point list \<Rightarrow> nat \<Rightarrow> nat \<Rightarrow> nat \<Rightarrow> nat \<Rightarrow> nat" where
  "tally pts y x z c = length (filter (\<lambda>p. classe_v p = c) (points_du_voxel pts y x z))"

definition remaining_tally :: "voxel_point list \<Rightarrow> nat \<Rightarrow> nat \<Rightarrow> nat \<Rightarrow> nat \<Rightarrow> nat" where
  "remaining_tally pts y x z c =
     (if c = 1 \<and> (\<exists>p \<in> set (points_du_voxel pts y x z). classe_v p \<noteq> 1) then 0
      else tally pts y x z c)"

text \<open>A sample of four points on a grid of shape \<open>(1, 2, 1)\<close>, for the examples.\<close>

definition points_exemple :: "voxel_point list" where
  "points_exemple =
     [\<lparr>iy_v = 0, ix_v = 0, iz_v = 0, classe_v = 1\<rparr>,
      \<lparr>iy_v = 0, ix_v = 0, iz_v = 0, classe_v = 1\<rparr>,
      \<lparr>iy_v = 0, ix_v = 0, iz_v = 0, classe_v = 6\<rparr>,
      \<lparr>iy_v = 0, ix_v = 1, iz_v = 0, classe_v = 2\<rparr>]"

definition histogramme_exemple :: "voxel_point list \<Rightarrow> int array3" where
  "histogramme_exemple pts = [[[3], [1]]]"

section \<open>Structural cost estimator (cost_func_change.py)\<close>

text \<open>
  The cost functions compare bricks by identity (\<open>id(b)\<close>, \<open>!=\<close> on objects, sets of
  objects), so a brick object is the pair of its identity and its attributes.  The
  penalties that the code computes in floating point are real numbers here.
\<close>

type_synonym brick_obj = "nat \<times> Brick"

type_synonym grid_map = "int \<times> int \<times> int \<Rightarrow> brick_obj option"

text \<open>\<open>range(a, b)\<close> on integers.\<close>

definition py_range :: "int \<Rightarrow> int \<Rightarrow> int list" where
  "py_range a b = [a..b - 1]"

text \<open>\<open>build_grid_map\<close>: every cell of every brick is mapped to the brick; a later brick
  overwrites an earlier one on a shared cell.\<close>

definition cells :: "brick_obj \<Rightarrow> (int \<times> int \<times> int) list" where
  "cells b =
     concat (map (\<lambda>dx. map (\<lambda>dy. (layer_b (snd b), x_b (snd b) + dx, y_b (snd b) + dy))
                          (py_range 0 (width_b (snd b))))
                 (py_range 0 (length_b (snd b))))"

definition build_grid_map :: "brick_obj list \<Rightarrow> grid_map" where
  "build_grid_map bricks =
     fold (\<lambda>b grid. fold (\<lambda>c g. g(c \<mapsto> b)) (cells b) grid) bricks Map.empty"

text \<open>The cells \<open>(ix, iy)\<close> of the surface of a brick, in the order of the two loops.\<close>

definition surface :: "brick_obj \<Rightarrow> (int \<times> int) list" where
  "surface b =
     (case bbox (snd b) of (x1, y1, x2, y2) \<Rightarrow>
        concat (map (\<lambda>ix. map (\<lambda>iy. (ix, iy)) (py_range y1 y2)) (py_range x1 x2)))"

text \<open>
  \<open>perpendicularity_penalty_fast\<close>.  The state of the loops is the penalty and the set
  \<open>processed_pairs\<close>.
\<close>

definition p1_cell ::
  "grid_map \<Rightarrow> int \<Rightarrow> brick_obj \<Rightarrow> int \<times> int \<Rightarrow> nat \<times> (nat \<times> nat) set \<Rightarrow> nat \<times> (nat \<times> nat) set" where
  "p1_cell grid current_z b c st =
     (case grid (current_z - 1, fst c, snd c) of
        None \<Rightarrow> st
      | Some brick_below \<Rightarrow>
          (let pair_id = (fst b, fst brick_below) in
           if pair_id \<notin> snd st then
             ((if orientation_b (snd b) = orientation_b (snd brick_below)
               then fst st + 1 else fst st),
              insert pair_id (snd st))
           else st))"

definition perpendicularity_penalty_fast :: "brick_obj list \<Rightarrow> grid_map \<Rightarrow> int \<Rightarrow> nat" where
  "perpendicularity_penalty_fast layer_bricks grid current_z =
     fst (fold (\<lambda>b st. fold (p1_cell grid current_z b) (surface b) st) layer_bricks (0, {}))"

text \<open>
  \<open>vertical_boundary_penalty_fast\<close>.  \<open>b_below_in != b_below_out\<close> compares two results
  of \<open>grid.get\<close>: two objects by identity, \<open>None\<close> equal to \<open>None\<close> only.
\<close>

definition differe :: "brick_obj option \<Rightarrow> brick_obj option \<Rightarrow> bool" where
  "differe a b \<longleftrightarrow> map_option fst a \<noteq> map_option fst b"

definition p2_brick :: "grid_map \<Rightarrow> int \<Rightarrow> brick_obj \<Rightarrow> nat" where
  "p2_brick grid current_z b =
     (case bbox (snd b) of (x1, y1, x2, y2) \<Rightarrow>
        if orientation_b (snd b) = ''H'' then
          (if differe (grid (current_z - 1, x1, y1)) (grid (current_z - 1, x1 - 1, y1))
           then 1 else 0)
          + (if differe (grid (current_z - 1, x2 - 1, y1)) (grid (current_z - 1, x2, y1))
             then 1 else 0)
        else if orientation_b (snd b) = ''V'' then
          (if differe (grid (current_z - 1, x1, y1)) (grid (current_z - 1, x1, y1 - 1))
           then 1 else 0)
          + (if differe (grid (current_z - 1, x1, y2 - 1)) (grid (current_z - 1, x1, y2))
             then 1 else 0)
        else 0)"

definition vertical_boundary_penalty_fast :: "brick_obj list \<Rightarrow> grid_map \<Rightarrow> int \<Rightarrow> nat" where
  "vertical_boundary_penalty_fast layer_bricks grid current_z =
     fold (\<lambda>b penalty. penalty + p2_brick grid current_z b) layer_bricks 0"

text \<open>
  \<open>horizontal_alignment_penalty_fast\<close>.  \<open>neighbors\<close> is a set of objects: an object
  enters it once.  The list keeps the objects in the order they are first added.
\<close>

definition add_neighbor :: "brick_obj option \<Rightarrow> brick_obj list \<Rightarrow> brick_obj list" where
  "add_neighbor n neighbors =
     (case n of
        None \<Rightarrow> neighbors
      | Some nb \<Rightarrow> if fst nb \<in> fst ` set neighbors then neighbors else neighbors @ [nb])"

definition neighbors_of_brick :: "grid_map \<Rightarrow> int \<Rightarrow> brick_obj \<Rightarrow> brick_obj list" where
  "neighbors_of_brick grid current_z b =
     (case bbox (snd b) of (x1, y1, x2, y2) \<Rightarrow>
        if orientation_b (snd b) = ''H'' then
          fold (\<lambda>ix ns. add_neighbor (grid (current_z, ix, y2))
                          (add_neighbor (grid (current_z, ix, y1 - 1)) ns))
               (py_range x1 x2) []
        else
          fold (\<lambda>iy ns. add_neighbor (grid (current_z, x2, iy))
                          (add_neighbor (grid (current_z, x1 - 1, iy)) ns))
               (py_range y1 y2) [])"

definition junction :: "int \<Rightarrow> int \<Rightarrow> int \<Rightarrow> real" where
  "junction lo hi edge =
     (if lo < edge \<and> edge < hi
      then \<bar>real_of_int edge - (real_of_int lo + real_of_int hi) / 2\<bar>
             / ((real_of_int hi - real_of_int lo) / 2)
      else 0)"

definition p3_neighbor :: "brick_obj \<Rightarrow> brick_obj \<Rightarrow> real \<Rightarrow> real" where
  "p3_neighbor b n penalty =
     (case bbox (snd b) of (x1, y1, x2, y2) \<Rightarrow>
      case bbox (snd n) of (nx1, ny1, nx2, ny2) \<Rightarrow>
        if orientation_b (snd b) = ''H'' then penalty + junction x1 x2 nx1 + junction x1 x2 nx2
        else if orientation_b (snd b) = ''V'' then penalty + junction y1 y2 ny1 + junction y1 y2 ny2
        else penalty)"

definition horizontal_alignment_penalty_fast :: "brick_obj list \<Rightarrow> grid_map \<Rightarrow> int \<Rightarrow> real" where
  "horizontal_alignment_penalty_fast layer_bricks grid current_z =
     fold (\<lambda>b penalty. fold (p3_neighbor b) (neighbors_of_brick grid current_z b) penalty)
       layer_bricks 0"

text \<open>
  \<open>total_cost_function\<close>.  \<open>layers\<close> groups the bricks by layer; the loop runs over the
  layers in ascending order and adds the cost of each one.
\<close>

definition layer_keys :: "brick_obj list \<Rightarrow> int list" where
  "layer_keys bricks = sorted_list_of_set (set (map (\<lambda>b. layer_b (snd b)) bricks))"

definition layer_cost :: "brick_obj list \<Rightarrow> real \<Rightarrow> real \<Rightarrow> real \<Rightarrow> int \<Rightarrow> real" where
  "layer_cost bricks C1 C2 C3 layer_idx =
     (let grid = build_grid_map bricks;
          current_bricks = filter (\<lambda>b. layer_b (snd b) = layer_idx) bricks;
          P1 = (if layer_idx - 1 \<in> set (layer_keys bricks)
                then perpendicularity_penalty_fast current_bricks grid layer_idx else 0);
          P2 = (if layer_idx - 1 \<in> set (layer_keys bricks)
                then vertical_boundary_penalty_fast current_bricks grid layer_idx else 0);
          P3 = horizontal_alignment_penalty_fast current_bricks grid layer_idx
      in C1 * real P1 + C2 * real P2 + C3 * P3)"

definition total_cost_function :: "brick_obj list \<Rightarrow> real \<Rightarrow> real \<Rightarrow> real \<Rightarrow> real" where
  "total_cost_function bricks C1 C2 C3 =
     (if bricks = [] then 0
      else fold (\<lambda>layer_idx total_cost. total_cost + layer_cost bricks C1 C2 C3 layer_idx)
             (layer_keys bricks) 0)"

text \<open>
  Two layers for the examples: a 1x4 brick on two 1x2 bricks, all Horizontal, and a 1x2
  brick beside the 1x4 one.
\<close>

definition briques_exemple :: "brick_obj list" where
  "briques_exemple =
     [(0, mk_Brick 0 0 0 2 1 7 ''H''), (1, mk_Brick 0 2 0 2 1 7 ''H''),
      (2, mk_Brick 1 0 0 4 1 7 ''H''), (3, mk_Brick 1 1 1 2 1 7 ''H'')]"

section \<open>Voxel graph (LIDAR_traitement.py)\<close>

text \<open>
  A \<open>networkx.Graph\<close>: the nodes in the order of their insertion, each with its
  attribute dictionary, and the edges as they were added (an edge joins its two ends in
  both directions).  The attribute dictionary holds \<open>coord\<close> and \<open>class_maj\<close>, each of
  which can be absent.
\<close>

record attrs =
  coord_n :: "(int \<times> int \<times> int) option"
  class_maj_n :: "int option"

record 'n graph =
  g_nodes :: "('n \<times> attrs) list"
  g_edges :: "('n \<times> 'n) list"

definition node_ids :: "'n graph \<Rightarrow> 'n list" where
  "node_ids G = map fst (g_nodes G)"

text \<open>Reading and writing \<open>a[y, x, z]\<close> with indices that can be out of range.\<close>

definition in_bounds :: "'a array3 \<Rightarrow> nat \<Rightarrow> nat \<Rightarrow> nat \<Rightarrow> bool" where
  "in_bounds a y x z \<longleftrightarrow> y < length a \<and> x < length (a ! y) \<and> z < length (a ! y ! x)"

definition at3 :: "'a array3 \<Rightarrow> nat \<Rightarrow> nat \<Rightarrow> nat \<Rightarrow> py_error + 'a" where
  "at3 a y x z = (if in_bounds a y x z then Inr (a ! y ! x ! z) else Inl IndexError)"

definition update3 :: "'a array3 \<Rightarrow> nat \<Rightarrow> nat \<Rightarrow> nat \<Rightarrow> 'a \<Rightarrow> 'a array3" where
  "update3 a y x z v = a[y := (a ! y)[x := (a ! y ! x)[z := v]]]"

text \<open>
  \<open>np.argwhere(counts > 0)\<close>: the indices of the full voxels, in the order of the array
  (the last index runs fastest).
\<close>

definition argwhere_plein :: "int array3 \<Rightarrow> (nat \<times> nat \<times> nat) list" where
  "argwhere_plein counts =
     concat (map (\<lambda>y. concat (map (\<lambda>x. map (\<lambda>z. (y, x, z))
                                         (filter (\<lambda>z. counts ! y ! x ! z > 0)
                                            [0..<length (counts ! y ! x)]))
                                [0..<length (counts ! y)]))
                 [0..<length counts])"

text \<open>Running a list of computations that can raise: the first exception ends the run.\<close>

fun sequence :: "(py_error + 'a) list \<Rightarrow> py_error + 'a list" where
  "sequence [] = Inr []"
| "sequence (r # rs) =
     (case r of
        Inl e \<Rightarrow> Inl e
      | Inr v \<Rightarrow> (case sequence rs of Inl e \<Rightarrow> Inl e | Inr vs \<Rightarrow> Inr (v # vs)))"

text \<open>
  \<open>voxel_graphe\<close>.  \<open>id_map\<close> is the dictionary from the coordinates to the node
  numbers; the edges join each full voxel to its full neighbours among the six
  \<open>voisins\<close>, in the order of the source.
\<close>

definition voisins :: "(int \<times> int \<times> int) list" where
  "voisins = [(1, 0, 0), (- 1, 0, 0), (0, 1, 0), (0, - 1, 0), (0, 0, 1), (0, 0, - 1)]"

definition coord_int :: "nat \<times> nat \<times> nat \<Rightarrow> int \<times> int \<times> int" where
  "coord_int c = (case c of (y, x, z) \<Rightarrow> (int y, int x, int z))"

definition voisin_pairs ::
  "(int \<times> int \<times> int) list \<Rightarrow> ((int \<times> int \<times> int) \<times> (int \<times> int \<times> int)) list" where
  "voisin_pairs coord_tuples =
     concat (map (\<lambda>c1. case c1 of (y, x, z) \<Rightarrow>
                    concat (map (\<lambda>v. case v of (dy, dx, dz) \<Rightarrow>
                                  if (y + dy, x + dx, z + dz) \<in> set coord_tuples
                                  then [(c1, (y + dy, x + dx, z + dz))] else [])
                                voisins))
                 coord_tuples)"

definition voxel_graphe :: "int array3 \<Rightarrow> int array3 \<Rightarrow> py_error + nat graph" where
  "voxel_graphe counts class_maj =
     (let coords = argwhere_plein counts;
          coord_tuples = map coord_int coords;
          id_map = map_of (rev (zip coord_tuples [0..<length coord_tuples]));
          aretes = map (\<lambda>(a, b). (the (id_map a), the (id_map b))) (voisin_pairs coord_tuples)
      in case sequence (map (\<lambda>(y, x, z). at3 class_maj y x z) coords) of
           Inl e \<Rightarrow> Inl e
         | Inr classes \<Rightarrow>
             Inr \<lparr>g_nodes =
                    map (\<lambda>i. (i, \<lparr>coord_n = (case coords ! i of (y, x, z) \<Rightarrow>
                                              Some (int x, int y, int z)),
                                  class_maj_n = Some (classes ! i)\<rparr>))
                        [0..<length coords],
                  g_edges = aretes\<rparr>)"

text \<open>
  \<open>graphe_voxel\<close>.  The attributes are read with \<open>data['coord']\<close> and
  \<open>data['class_maj']\<close> (\<open>KeyError\<close> when absent); the shape is the maximum of the
  coordinates plus one on each axis (\<open>ValueError\<close> for a graph without nodes, and for a
  negative dimension); a negative index counts from the end of its axis, and an index
  out of range raises \<open>IndexError\<close>.
\<close>

definition node_coord :: "attrs \<Rightarrow> py_error + int \<times> int \<times> int" where
  "node_coord d =
     (case coord_n d of None \<Rightarrow> Inl KeyError | Some (x, y, z) \<Rightarrow> Inr (y, x, z))"

definition node_class :: "attrs \<Rightarrow> py_error + int" where
  "node_class d = (case class_maj_n d of None \<Rightarrow> Inl KeyError | Some c \<Rightarrow> Inr c)"

definition np_index :: "nat \<Rightarrow> int \<Rightarrow> nat option" where
  "np_index n i =
     (if 0 \<le> i \<and> i < int n then Some (nat i)
      else if - int n \<le> i \<and> i < 0 then Some (nat (int n + i))
      else None)"

definition remplir ::
  "(int \<times> int \<times> int) \<times> int \<Rightarrow> int array3 \<times> int array3 \<Rightarrow> py_error + int array3 \<times> int array3" where
  "remplir p st =
     (case p of ((y, x, z), c) \<Rightarrow>
      case st of (counts, class_maj) \<Rightarrow>
        (case np_index (length counts) y of
           None \<Rightarrow> Inl IndexError
         | Some yy \<Rightarrow>
        (case np_index (length (counts ! yy)) x of
           None \<Rightarrow> Inl IndexError
         | Some xx \<Rightarrow>
        (case np_index (length (counts ! yy ! xx)) z of
           None \<Rightarrow> Inl IndexError
         | Some zz \<Rightarrow>
             Inr (update3 counts yy xx zz (counts ! yy ! xx ! zz + 1),
                  if class_maj ! yy ! xx ! zz = 0 \<or> (class_maj ! yy ! xx ! zz = 1 \<and> c \<noteq> 1)
                  then update3 class_maj yy xx zz c else class_maj)))))"

fun remplissage ::
  "((int \<times> int \<times> int) \<times> int) list \<Rightarrow> int array3 \<times> int array3
     \<Rightarrow> py_error + int array3 \<times> int array3" where
  "remplissage [] st = Inr st"
| "remplissage (p # ps) st =
     (case remplir p st of Inl e \<Rightarrow> Inl e | Inr st' \<Rightarrow> remplissage ps st')"

definition max_plus_1 :: "int list \<Rightarrow> int" where
  "max_plus_1 vs = fold max (tl vs) (hd vs) + 1"

definition graphe_voxel :: "'n graph \<Rightarrow> py_error + int array3 \<times> int array3" where
  "graphe_voxel G =
     (case sequence (map (\<lambda>(n, d). node_coord d) (g_nodes G)) of
        Inl e \<Rightarrow> Inl e
      | Inr coords \<Rightarrow>
     (case sequence (map (\<lambda>(n, d). node_class d) (g_nodes G)) of
        Inl e \<Rightarrow> Inl e
      | Inr classes \<Rightarrow>
          if coords = [] then Inl ValueError
          else
            (let ny = max_plus_1 (map fst coords);
                 nx = max_plus_1 (map (\<lambda>c. fst (snd c)) coords);
                 nz = max_plus_1 (map (\<lambda>c. snd (snd c)) coords)
             in if ny < 0 \<or> nx < 0 \<or> nz < 0 then Inl ValueError
                else remplissage (zip coords classes)
                       (tabulate3 (nat ny) (nat nx) (nat nz) (\<lambda>y x z. 0),
                        tabulate3 (nat ny) (nat nx) (nat nz) (\<lambda>y x z. 0)))))"

text \<open>The round trip: the grid of the graph of a grid.\<close>

definition aller_retour :: "int array3 \<Rightarrow> int array3 \<Rightarrow> py_error + int array3 \<times> int array3" where
  "aller_retour counts class_maj =
     (case voxel_graphe counts class_maj of Inl e \<Rightarrow> Inl e | Inr G \<Rightarrow> graphe_voxel G)"

text \<open>
  \<open>nx.connected_components\<close>, networkx's: it walks the nodes in order and yields, for
  each node not seen yet, the set of the nodes that a breadth-first search reaches from
  it.  \<open>adj G v\<close> is the adjacency list of \<open>v\<close>; the search is the worklist search
  \<open>rtrancl_while\<close> of the library, which returns the set of the nodes it has seen when
  its worklist is empty.
\<close>

definition adj :: "'n graph \<Rightarrow> 'n \<Rightarrow> 'n list" where
  "adj G v =
     map snd (filter (\<lambda>(a, b). a = v) (g_edges G))
     @ map fst (filter (\<lambda>(a, b). b = v) (g_edges G))"

definition adjacency :: "'n graph \<Rightarrow> ('n \<times> 'n) set" where
  "adjacency G = {(v, w). w \<in> set (adj G v)}"

definition plain_bfs :: "'n graph \<Rightarrow> 'n \<Rightarrow> 'n set" where
  "plain_bfs G source =
     (case rtrancl_while (\<lambda>v. True) (adj G) source of
        Some (nextlevel, seen) \<Rightarrow> seen
      | None \<Rightarrow> {})"

fun components_loop :: "'n graph \<Rightarrow> 'n list \<Rightarrow> 'n set \<Rightarrow> 'n set list" where
  "components_loop G [] seen = []"
| "components_loop G (v # vs) seen =
     (if v \<in> seen then components_loop G vs seen
      else plain_bfs G v # components_loop G vs (seen \<union> plain_bfs G v))"

definition connected_components :: "'n graph \<Rightarrow> 'n set list" where
  "connected_components G = components_loop G (node_ids G) {}"

text \<open>\<open>G.subgraph(nodes).copy()\<close>: the nodes of the set, with their attributes, and the
  edges between them.\<close>

definition subgraph :: "'n graph \<Rightarrow> 'n set \<Rightarrow> 'n graph" where
  "subgraph G ns =
     \<lparr>g_nodes = filter (\<lambda>(n, d). n \<in> ns) (g_nodes G),
      g_edges = filter (\<lambda>(a, b). a \<in> ns \<and> b \<in> ns) (g_edges G)\<rparr>"

text \<open>\<open>graphe_filtre_sol\<close>.\<close>

definition nodes_sol :: "'n graph \<Rightarrow> int \<Rightarrow> 'n list" where
  "nodes_sol G class_sol =
     map fst (filter (\<lambda>(n, d). class_maj_n d = Some class_sol) (g_nodes G))"

definition nodes_valides :: "'n graph \<Rightarrow> int \<Rightarrow> 'n set" where
  "nodes_valides G class_sol =
     (let composantes = connected_components G;
          composantes_valides =
            filter (\<lambda>c. \<exists>n \<in> c. n \<in> set (nodes_sol G class_sol)) composantes
      in \<Union> (set composantes_valides))"

definition graphe_filtre_sol :: "'n graph \<Rightarrow> int \<Rightarrow> 'n graph" where
  "graphe_filtre_sol G class_sol = subgraph G (nodes_valides G class_sol)"

text \<open>
  A graph for the examples: a ground voxel under a building voxel, and a cluster of
  five voxels joined in a chain, none of them ground.
\<close>

definition graphe_exemple :: "nat graph" where
  "graphe_exemple =
     \<lparr>g_nodes =
        [(0, \<lparr>coord_n = Some (0, 0, 0), class_maj_n = Some 2\<rparr>),
         (1, \<lparr>coord_n = Some (0, 0, 1), class_maj_n = Some 6\<rparr>),
         (2, \<lparr>coord_n = Some (5, 5, 5), class_maj_n = Some 5\<rparr>),
         (3, \<lparr>coord_n = Some (5, 5, 6), class_maj_n = Some 5\<rparr>),
         (4, \<lparr>coord_n = Some (5, 5, 7), class_maj_n = Some 5\<rparr>),
         (5, \<lparr>coord_n = Some (5, 6, 7), class_maj_n = Some 5\<rparr>),
         (6, \<lparr>coord_n = Some (5, 7, 7), class_maj_n = Some 5\<rparr>)],
      g_edges = [(0, 1), (1, 0), (2, 3), (3, 2), (3, 4), (4, 3), (4, 5), (5, 4), (5, 6), (6, 5)]\<rparr>"

subsection \<open>A grid of shape (2, 2, 2) with a full voxel in the last plane of each axis\<close>

definition counts_exemple :: "int array3" where
  "counts_exemple = [[[1, 0], [1, 1]], [[0, 0], [0, 1]]]"

definition class_maj_exemple :: "int array3" where
  "class_maj_exemple = [[[2, 0], [2, 6]], [[0, 0], [0, 6]]]"

section \<open>Ground shell with pillars (LIDAR_traitement.py, ajouter_sol_coque_pillier)\<close>

text \<open>
  The function works on a dense array \<open>grid\<close> of \<open>dtype=np.int8\<close>, indexed by the
  coordinates of the voxels minus their minimum on each axis.  An entry of the grid is
  an \<open>8 word\<close>: the classes of the graph are cast to \<open>int8\<close> when they are written
  (\<open>word_of_int\<close>), and \<open>int(grid[x, y, z])\<close> reads an entry back (\<open>sint\<close>).  The
  ground class \<open>class_sol\<close>, which the function writes into the grid, is taken in
  \<open>int8\<close>; the building class \<open>class_bat\<close> is only compared with the entries.
  Arrays of two dimensions are lists of rows.
\<close>

type_synonym int8 = "8 word"

type_synonym 'a array2 = "'a list list"

definition tabulate2 :: "nat \<Rightarrow> nat \<Rightarrow> (nat \<Rightarrow> nat \<Rightarrow> 'a) \<Rightarrow> 'a array2" where
  "tabulate2 n1 n2 f = map (\<lambda>i. map (\<lambda>j. f i j) [0..<n2]) [0..<n1]"

text \<open>\<open>np.any(m)\<close> for a mask of two dimensions, and \<open>m.any(axis=2)\<close> for one of three.\<close>

definition np_any2 :: "bool array2 \<Rightarrow> bool" where
  "np_any2 m = list_ex (list_ex (\<lambda>b. b)) m"

definition any_axis_2 :: "bool array3 \<Rightarrow> bool array2" where
  "any_axis_2 m = map (map (list_ex (\<lambda>b. b))) m"

text \<open>\<open>xs, ys = np.where(m)\<close>: the indices of the true entries, row by row.\<close>

definition np_where2 :: "nat \<Rightarrow> nat \<Rightarrow> bool array2 \<Rightarrow> (nat \<times> nat) list" where
  "np_where2 n1 n2 m =
     concat (map (\<lambda>x. map (\<lambda>y. (x, y)) (filter (\<lambda>y. m ! x ! y) [0..<n2])) [0..<n1])"

text \<open>
  \<open>np.roll(np.roll(a, dx, axis=0), dy, axis=1)\<close>: the entry at \<open>(x, y)\<close> of the result
  is the entry of \<open>a\<close> at \<open>((x - dx) mod n1, (y - dy) mod n2)\<close>; the array wraps around.
\<close>

definition np_roll2 :: "nat \<Rightarrow> nat \<Rightarrow> 'a array2 \<Rightarrow> int \<Rightarrow> int \<Rightarrow> 'a array2" where
  "np_roll2 n1 n2 a dx dy =
     tabulate2 n1 n2
       (\<lambda>x y. a ! nat ((int x - dx) mod int n1) ! nat ((int y - dy) mod int n2))"

definition voisins8 :: "(int \<times> int) list" where
  "voisins8 = [(-1, -1), (-1, 0), (-1, 1), (0, -1), (0, 1), (1, -1), (1, 0), (1, 1)]"

text \<open>
  The attribute \<open>coord\<close> of a node, as it is stored: \<open>d['coord']\<close> raises \<open>KeyError\<close>
  when the attribute is missing.
\<close>

definition attr_coord :: "attrs \<Rightarrow> py_error + int \<times> int \<times> int" where
  "attr_coord d = (case coord_n d of None \<Rightarrow> Inl KeyError | Some c \<Rightarrow> Inr c)"

text \<open>
  \<open>Grille Dense\<close>.  \<open>coords.min(axis=0)\<close> on a non-empty array of coordinates, the
  shifted coordinates, and the fancy-index assignment
  \<open>grid[coords_shifted[:,0], coords_shifted[:,1], coords_shifted[:,2]] = classes\<close>:
  the entries are written in the order of the nodes, so that the last node at a
  coordinate gives the class.
\<close>

definition min_axis :: "int list \<Rightarrow> int" where
  "min_axis vs = fold min (tl vs) (hd vs)"

definition min_coords :: "(int \<times> int \<times> int) list \<Rightarrow> int \<times> int \<times> int" where
  "min_coords coords =
     (min_axis (map fst coords), min_axis (map (\<lambda>c. fst (snd c)) coords),
      min_axis (map (\<lambda>c. snd (snd c)) coords))"

definition coords_shifted :: "(int \<times> int \<times> int) list \<Rightarrow> (int \<times> int \<times> int) list" where
  "coords_shifted coords =
     (case min_coords coords of (mx, my, mz) \<Rightarrow>
        map (\<lambda>(x, y, z). (x - mx, y - my, z - mz)) coords)"

definition nx_max :: "(int \<times> int \<times> int) list \<Rightarrow> nat" where
  "nx_max coords = nat (max_plus_1 (map fst (coords_shifted coords)))"

definition ny_max :: "(int \<times> int \<times> int) list \<Rightarrow> nat" where
  "ny_max coords = nat (max_plus_1 (map (\<lambda>c. fst (snd c)) (coords_shifted coords)))"

definition nz_max :: "(int \<times> int \<times> int) list \<Rightarrow> nat" where
  "nz_max coords = nat (max_plus_1 (map (\<lambda>c. snd (snd c)) (coords_shifted coords)))"

definition grille_dense :: "(int \<times> int \<times> int) list \<Rightarrow> int list \<Rightarrow> int8 array3" where
  "grille_dense coords classes =
     fold (\<lambda>((x, y, z), c) grid. update3 grid (nat x) (nat y) (nat z) (word_of_int c))
       (zip (coords_shifted coords) classes)
       (tabulate3 (nx_max coords) (ny_max coords) (nz_max coords) (\<lambda>x y z. 0))"

text \<open>
  \<open>Propagation\<close>.  The masks \<open>grid == class_sol\<close> and \<open>grid == class_bat\<close>, and the
  height map: where a column holds ground, \<open>nz_max - 1 - np.argmax(...)\<close> over the
  reversed column is the height of its highest ground voxel; elsewhere 0.
\<close>

definition sol_mask_of :: "int8 array3 \<Rightarrow> int8 \<Rightarrow> bool array3" where
  "sol_mask_of grid class_sol = map (map (map (\<lambda>v. v = class_sol))) grid"

definition bat_mask_of :: "int8 array3 \<Rightarrow> int \<Rightarrow> bool array3" where
  "bat_mask_of grid class_bat = map (map (map (\<lambda>v. sint v = class_bat))) grid"

definition z_height_map_init :: "nat \<Rightarrow> nat \<Rightarrow> nat \<Rightarrow> bool array3 \<Rightarrow> int array2" where
  "z_height_map_init n1 n2 n3 sol_mask =
     tabulate2 n1 n2
       (\<lambda>x y. if any_axis_2 sol_mask ! x ! y
               then int n3 - 1
                    - int (np_argmax (map (\<lambda>b. if b then 1 else 0) (rev (sol_mask ! x ! y))))
               else 0)"

text \<open>
  \<open>sol_fill\<close> and the statement \<open>grid[sol_fill] = np.where(...)\<close>: under the highest
  ground voxel of a column, the empty voxels become ground.
\<close>

definition sol_fill :: "nat \<Rightarrow> nat \<Rightarrow> nat \<Rightarrow> int8 array3 \<Rightarrow> int8 \<Rightarrow> int8 array3" where
  "sol_fill n1 n2 n3 grid class_sol =
     (let sol_mask = sol_mask_of grid class_sol;
          sol_exist = any_axis_2 sol_mask;
          z_height_map = z_height_map_init n1 n2 n3 sol_mask
      in tabulate3 n1 n2 n3
           (\<lambda>x y z. let v = grid ! x ! y ! z
                     in if sol_exist ! x ! y \<and> int z \<le> z_height_map ! x ! y
                        then (if v = 0 \<or> v = class_sol then class_sol else v)
                        else v))"

text \<open>
  \<open>Propagation Ext\<close>.  The state of the \<open>while changed\<close> loop is the grid, the height
  map, the mask of the processed columns and \<open>sol_mask\<close>.  One pass counts, for each
  column, its neighbours (of the eight, on the torus) that hold ground, and takes the
  largest of their heights.
\<close>

record etat =
  e_grid :: "int8 array3"
  e_z_height_map :: "int array2"
  e_processed_mask :: "bool array2"
  e_sol_mask :: "bool array3"

definition sol_xy_of :: "nat \<Rightarrow> nat \<Rightarrow> bool array3 \<Rightarrow> int array2" where
  "sol_xy_of n1 n2 sol_mask =
     tabulate2 n1 n2 (\<lambda>x y. if any_axis_2 sol_mask ! x ! y then 1 else 0)"

definition neighbor_count :: "nat \<Rightarrow> nat \<Rightarrow> int array2 \<Rightarrow> int array2" where
  "neighbor_count n1 n2 sol_xy =
     fold (\<lambda>(dx, dy) cnt.
             tabulate2 n1 n2 (\<lambda>x y. cnt ! x ! y + np_roll2 n1 n2 sol_xy dx dy ! x ! y))
       voisins8 (tabulate2 n1 n2 (\<lambda>x y. 0))"

definition neighbor_max_z :: "nat \<Rightarrow> nat \<Rightarrow> int array2 \<Rightarrow> int array2 \<Rightarrow> int array2" where
  "neighbor_max_z n1 n2 sol_xy z_height_map =
     fold (\<lambda>(dx, dy) mz.
             tabulate2 n1 n2
               (\<lambda>x y. max (mz ! x ! y)
                         (np_roll2 n1 n2 z_height_map dx dy ! x ! y
                          * np_roll2 n1 n2 sol_xy dx dy ! x ! y)))
       voisins8 (tabulate2 n1 n2 (\<lambda>x y. 0))"

definition candidate :: "nat \<Rightarrow> nat \<Rightarrow> int \<Rightarrow> bool array2 \<Rightarrow> etat \<Rightarrow> bool array2" where
  "candidate n1 n2 n_min interior_mask st =
     (let sol_xy = sol_xy_of n1 n2 (e_sol_mask st);
          cnt = neighbor_count n1 n2 sol_xy
      in tabulate2 n1 n2
           (\<lambda>x y. cnt ! x ! y \<ge> n_min \<and> sol_xy ! x ! y = 0 \<and> \<not> interior_mask ! x ! y
                   \<and> \<not> e_processed_mask st ! x ! y))"

text \<open>
  The body of \<open>for x, y, zt in zip(xs, ys, z_targets)\<close>: the column is filled up to
  \<open>zt\<close> where it is empty (\<open>grid[x, y, :zt+1]\<close>), and its height becomes \<open>zt\<close>.
\<close>

definition etendre_colonne ::
  "int8 \<Rightarrow> int array2 \<Rightarrow> nat \<times> nat \<Rightarrow> int8 array3 \<times> int array2 \<Rightarrow> int8 array3 \<times> int array2" where
  "etendre_colonne class_sol z_targets p gz =
     (case p of (x, y) \<Rightarrow>
      case gz of (grid, z_height_map) \<Rightarrow>
        (let zt = z_targets ! x ! y
         in if zt < 0 then (grid, z_height_map)
            else (grid[x := (grid ! x)[y :=
                    map (\<lambda>z. if int z \<le> zt \<and> grid ! x ! y ! z = 0 then class_sol
                              else grid ! x ! y ! z)
                      [0..<length (grid ! x ! y)]]],
                  z_height_map[x := (z_height_map ! x)[y := zt]])))"

definition passe_ext :: "nat \<Rightarrow> nat \<Rightarrow> int \<Rightarrow> int8 \<Rightarrow> bool array2 \<Rightarrow> etat \<Rightarrow> etat" where
  "passe_ext n1 n2 n_min class_sol interior_mask st =
     (let cand = candidate n1 n2 n_min interior_mask st;
          z_targets = neighbor_max_z n1 n2 (sol_xy_of n1 n2 (e_sol_mask st)) (e_z_height_map st);
          gz = fold (etendre_colonne class_sol z_targets) (np_where2 n1 n2 cand)
                 (e_grid st, e_z_height_map st)
      in \<lparr>e_grid = fst gz, e_z_height_map = snd gz,
          e_processed_mask =
            tabulate2 n1 n2 (\<lambda>x y. e_processed_mask st ! x ! y \<or> cand ! x ! y),
          e_sol_mask = sol_mask_of (fst gz) class_sol\<rparr>)"

function propagation_ext :: "nat \<Rightarrow> nat \<Rightarrow> int \<Rightarrow> int8 \<Rightarrow> bool array2 \<Rightarrow> etat \<Rightarrow> etat" where
  "propagation_ext n1 n2 n_min class_sol interior_mask st =
     (if np_any2 (candidate n1 n2 n_min interior_mask st)
      then propagation_ext n1 n2 n_min class_sol interior_mask
             (passe_ext n1 n2 n_min class_sol interior_mask st)
      else st)"
  by pat_completeness auto

termination
proof (relation "measure (\<lambda>(n1, n2, n_min, class_sol, interior_mask, st).
          card {(x, y). x < n1 \<and> y < n2 \<and> \<not> e_processed_mask st ! x ! y})")
  show "wf (measure (\<lambda>(n1, n2, n_min, class_sol, interior_mask, st).
          card {(x, y). x < n1 \<and> y < n2 \<and> \<not> e_processed_mask st ! x ! y}))"
    by simp
next
  fix n1 n2 :: nat and n_min :: int and class_sol :: int8
    and interior_mask :: "bool array2" and st :: etat
  assume any: "np_any2 (candidate n1 n2 n_min interior_mask st)"
  let ?c = "candidate n1 n2 n_min interior_mask st"
  let ?st' = "passe_ext n1 n2 n_min class_sol interior_mask st"
  let ?A = "{(x, y). x < n1 \<and> y < n2 \<and> \<not> e_processed_mask st ! x ! y}"
  let ?B = "{(x, y). x < n1 \<and> y < n2 \<and> \<not> e_processed_mask ?st' ! x ! y}"
  have nth2: "tabulate2 n1 n2 f ! x ! y = f x y" if "x < n1" and "y < n2"
    for f :: "nat \<Rightarrow> nat \<Rightarrow> bool" and x y
    using that by (simp add: tabulate2_def)
  have any2: "\<exists>x<n1. \<exists>y<n2. f x y" if "np_any2 (tabulate2 n1 n2 f)"
    for f :: "nat \<Rightarrow> nat \<Rightarrow> bool"
    using that by (fastforce simp: np_any2_def tabulate2_def list_ex_iff)
  from any obtain x0 y0 where r0: "x0 < n1" "y0 < n2" and c0: "?c ! x0 ! y0"
    unfolding candidate_def Let_def by (blast dest: any2 intro: nth2 [THEN iffD2])
  from c0 r0 have np: "\<not> e_processed_mask st ! x0 ! y0"
    by (simp add: candidate_def Let_def nth2)
  have proc: "e_processed_mask ?st' ! x ! y = (e_processed_mask st ! x ! y \<or> ?c ! x ! y)"
    if "x < n1" and "y < n2" for x y
    using that by (simp add: passe_ext_def Let_def nth2)
  have sub: "?B \<subseteq> ?A"
    by (auto simp: proc)
  have "(x0, y0) \<in> ?A" and "(x0, y0) \<notin> ?B"
    using r0 np c0 by (auto simp: proc)
  with sub have "?B \<subset> ?A"
    by blast
  moreover have "finite ?A"
    by (rule finite_subset [of _ "{..<n1} \<times> {..<n2}"]) auto
  ultimately have "card ?B < card ?A"
    by (rule psubset_card_mono [rotated])
  then show "((n1, n2, n_min, class_sol, interior_mask, ?st'),
              (n1, n2, n_min, class_sol, interior_mask, st))
        \<in> measure (\<lambda>(n1, n2, n_min, class_sol, interior_mask, st).
            card {(x, y). x < n1 \<and> y < n2 \<and> \<not> e_processed_mask st ! x ! y})"
    by simp
qed

text \<open>
  \<open>Propagation Sous Batiments\<close>.  The state of the \<open>while changed_int\<close> loop is the
  height map: a column under a building whose height is 0 takes the largest height of
  its eight neighbours, when that is positive.
\<close>

definition h_max_neighbor :: "nat \<Rightarrow> nat \<Rightarrow> int array2 \<Rightarrow> int array2" where
  "h_max_neighbor n1 n2 h_current =
     fold (\<lambda>(dx, dy) hm.
             tabulate2 n1 n2 (\<lambda>x y. max (hm ! x ! y) (np_roll2 n1 n2 h_current dx dy ! x ! y)))
       voisins8 (tabulate2 n1 n2 (\<lambda>x y. 0))"

definition update_mask :: "nat \<Rightarrow> nat \<Rightarrow> bool array2 \<Rightarrow> int array2 \<Rightarrow> bool array2" where
  "update_mask n1 n2 interior_processing z_height_map =
     (let hm = h_max_neighbor n1 n2 z_height_map
      in tabulate2 n1 n2
           (\<lambda>x y. interior_processing ! x ! y \<and> z_height_map ! x ! y = 0 \<and> hm ! x ! y > 0))"

definition passe_int :: "nat \<Rightarrow> nat \<Rightarrow> bool array2 \<Rightarrow> int array2 \<Rightarrow> int array2" where
  "passe_int n1 n2 interior_processing z_height_map =
     (let hm = h_max_neighbor n1 n2 z_height_map;
          um = update_mask n1 n2 interior_processing z_height_map
      in tabulate2 n1 n2 (\<lambda>x y. if um ! x ! y then hm ! x ! y else z_height_map ! x ! y))"

function propagation_int :: "nat \<Rightarrow> nat \<Rightarrow> bool array2 \<Rightarrow> int array2 \<Rightarrow> int array2" where
  "propagation_int n1 n2 interior_processing z_height_map =
     (if np_any2 (update_mask n1 n2 interior_processing z_height_map)
      then propagation_int n1 n2 interior_processing
             (passe_int n1 n2 interior_processing z_height_map)
      else z_height_map)"
  by pat_completeness auto

termination
proof (relation "measure (\<lambda>(n1, n2, interior_processing, z_height_map).
          card {(x, y). x < n1 \<and> y < n2 \<and> interior_processing ! x ! y
                        \<and> z_height_map ! x ! y = 0})")
  show "wf (measure (\<lambda>(n1, n2, interior_processing, z_height_map).
          card {(x, y). x < n1 \<and> y < n2 \<and> interior_processing ! x ! y
                        \<and> z_height_map ! x ! y = 0}))"
    by simp
next
  fix n1 n2 :: nat and interior_processing :: "bool array2" and z_height_map :: "int array2"
  assume any: "np_any2 (update_mask n1 n2 interior_processing z_height_map)"
  let ?um = "update_mask n1 n2 interior_processing z_height_map"
  let ?hm = "h_max_neighbor n1 n2 z_height_map"
  let ?zh' = "passe_int n1 n2 interior_processing z_height_map"
  let ?A = "{(x, y). x < n1 \<and> y < n2 \<and> interior_processing ! x ! y
                     \<and> z_height_map ! x ! y = 0}"
  let ?B = "{(x, y). x < n1 \<and> y < n2 \<and> interior_processing ! x ! y \<and> ?zh' ! x ! y = 0}"
  have nth2: "tabulate2 n1 n2 f ! x ! y = f x y" if "x < n1" and "y < n2"
    for f :: "nat \<Rightarrow> nat \<Rightarrow> 'a" and x y
    using that by (simp add: tabulate2_def)
  have any2: "\<exists>x<n1. \<exists>y<n2. f x y" if "np_any2 (tabulate2 n1 n2 f)"
    for f :: "nat \<Rightarrow> nat \<Rightarrow> bool"
    using that by (fastforce simp: np_any2_def tabulate2_def list_ex_iff)
  have um: "?um ! x ! y
      = (interior_processing ! x ! y \<and> z_height_map ! x ! y = 0 \<and> ?hm ! x ! y > 0)"
    if "x < n1" and "y < n2" for x y
    using that by (simp add: update_mask_def Let_def nth2)
  from any obtain x0 y0 where r0: "x0 < n1" "y0 < n2" and u0: "?um ! x0 ! y0"
    unfolding update_mask_def Let_def by (blast dest: any2 intro: nth2 [THEN iffD2])
  have zh: "?zh' ! x ! y = (if ?um ! x ! y then ?hm ! x ! y else z_height_map ! x ! y)"
    if "x < n1" and "y < n2" for x y
    using that by (simp add: passe_int_def Let_def nth2)
  have sub: "?B \<subseteq> ?A"
    by (auto simp: zh um split: if_splits)
  have "(x0, y0) \<in> ?A" and "(x0, y0) \<notin> ?B"
    using r0 u0 by (auto simp: zh um)
  with sub have "?B \<subset> ?A"
    by blast
  moreover have "finite ?A"
    by (rule finite_subset [of _ "{..<n1} \<times> {..<n2}"]) auto
  ultimately have "card ?B < card ?A"
    by (rule psubset_card_mono [rotated])
  then show "((n1, n2, interior_processing, ?zh'), (n1, n2, interior_processing, z_height_map))
        \<in> measure (\<lambda>(n1, n2, interior_processing, z_height_map).
            card {(x, y). x < n1 \<and> y < n2 \<and> interior_processing ! x ! y
                          \<and> z_height_map ! x ! y = 0})"
    by simp
qed

text \<open>
  The columns under a building with a positive height: up to that height, the voxels
  that are empty or ground become ground (\<open>col_slice\<close> is a view of the grid).
\<close>

definition remplir_sous_bat :: "int8 \<Rightarrow> int array2 \<Rightarrow> nat \<times> nat \<Rightarrow> int8 array3 \<Rightarrow> int8 array3" where
  "remplir_sous_bat class_sol z_height_map p grid =
     (case p of (x, y) \<Rightarrow>
        (let zt = z_height_map ! x ! y
         in if zt > 0
            then grid[x := (grid ! x)[y :=
                   map (\<lambda>z. let v = grid ! x ! y ! z
                             in if int z \<le> zt \<and> (v = 0 \<or> v = class_sol) then class_sol else v)
                     [0..<length (grid ! x ! y)]]]
            else grid))"

text \<open>
  The grid as the block \<open>COQUE AVEC PILIERS\<close> finds it: the dense grid of the graph
  after the three propagation steps.
\<close>

definition grille_propagee ::
  "(int \<times> int \<times> int) list \<Rightarrow> int list \<Rightarrow> int8 \<Rightarrow> int \<Rightarrow> int \<Rightarrow> int8 array3" where
  "grille_propagee coords classes class_sol class_bat n_min =
     (let n1 = nx_max coords; n2 = ny_max coords; n3 = nz_max coords;
          grid0 = grille_dense coords classes;
          bat_mask = bat_mask_of grid0 class_bat;
          z_height_map = z_height_map_init n1 n2 n3 (sol_mask_of grid0 class_sol);
          grid1 = sol_fill n1 n2 n3 grid0 class_sol;
          interior_mask = any_axis_2 bat_mask;
          st = propagation_ext n1 n2 n_min class_sol interior_mask
                 \<lparr>e_grid = grid1, e_z_height_map = z_height_map,
                  e_processed_mask = tabulate2 n1 n2 (\<lambda>x y. False),
                  e_sol_mask = sol_mask_of grid1 class_sol\<rparr>;
          z_height_map2 = propagation_int n1 n2 interior_mask (e_z_height_map st)
      in fold (remplir_sous_bat class_sol z_height_map2) (np_where2 n1 n2 interior_mask)
           (e_grid st))"

text \<open>
  The block \<open>COQUE AVEC PILIERS\<close>.  \<open>is_internal\<close> after the six statements
  \<open>is_internal[...] &= sol_final_mask[...]\<close>: each one conjoins, where the neighbour
  along one axis and direction exists, the mask of that neighbour.  The six slices are,
  in the order of the source, \<open>x + 1\<close>, \<open>x - 1\<close>, \<open>y + 1\<close>, \<open>y - 1\<close>, \<open>z + 1\<close>,
  \<open>z - 1\<close>.
\<close>

definition sol_final_mask :: "int8 array3 \<Rightarrow> int8 \<Rightarrow> bool array3" where
  "sol_final_mask grid class_sol = map (map (map (\<lambda>v. v = class_sol))) grid"

definition is_internal_voisins :: "nat \<Rightarrow> nat \<Rightarrow> nat \<Rightarrow> bool array3 \<Rightarrow> bool array3" where
  "is_internal_voisins n1 n2 n3 sol =
     tabulate3 n1 n2 n3
       (\<lambda>x y z. sol ! x ! y ! z
          \<and> (if x + 1 < n1 then sol ! (x + 1) ! y ! z else True)
          \<and> (if 1 \<le> x then sol ! (x - 1) ! y ! z else True)
          \<and> (if y + 1 < n2 then sol ! x ! (y + 1) ! z else True)
          \<and> (if 1 \<le> y then sol ! x ! (y - 1) ! z else True)
          \<and> (if z + 1 < n3 then sol ! x ! y ! (z + 1) else True)
          \<and> (if 1 \<le> z then sol ! x ! y ! (z - 1) else True))"

text \<open>
  The six statements \<open>is_internal[0, :, :] = False\<close>, \<open>is_internal[-1, :, :] = False\<close>,
  ...: the first and the last index of each axis.
\<close>

definition is_internal_bords :: "nat \<Rightarrow> nat \<Rightarrow> nat \<Rightarrow> bool array3 \<Rightarrow> bool array3" where
  "is_internal_bords n1 n2 n3 m =
     tabulate3 n1 n2 n3
       (\<lambda>x y z. if x = 0 \<or> x = n1 - 1 \<or> y = 0 \<or> y = n2 - 1 \<or> z = 0 \<or> z = n3 - 1
                 then False else m ! x ! y ! z)"

text \<open>
  The protection of the pillars: \<open>is_internal[pillar_mask_2d, :] = False\<close>, under the
  test \<open>pillar_step > 0\<close>.  \<open>x_indices\<close> and \<open>y_indices\<close> are the indices of the dense
  grid, \<open>np.arange(nx_max)\<close> and \<open>np.arange(ny_max)\<close>.
\<close>

definition pillar_mask_2d :: "int \<Rightarrow> int \<Rightarrow> nat \<Rightarrow> nat \<Rightarrow> bool" where
  "pillar_mask_2d pillar_step pillar_width x y \<longleftrightarrow>
     int x mod pillar_step < pillar_width \<and> int y mod pillar_step < pillar_width"

definition is_internal_piliers ::
  "nat \<Rightarrow> nat \<Rightarrow> nat \<Rightarrow> int \<Rightarrow> int \<Rightarrow> bool array3 \<Rightarrow> bool array3" where
  "is_internal_piliers n1 n2 n3 pillar_step pillar_width m =
     (if pillar_step > 0 then
        tabulate3 n1 n2 n3
          (\<lambda>x y z. if pillar_mask_2d pillar_step pillar_width x y then False
                    else m ! x ! y ! z)
      else m)"

text \<open>The mask of the interior, then \<open>grid[is_internal] = 0\<close>.\<close>

definition is_internal :: "nat \<Rightarrow> nat \<Rightarrow> nat \<Rightarrow> int8 array3 \<Rightarrow> int8 \<Rightarrow> int \<Rightarrow> int \<Rightarrow> bool array3" where
  "is_internal n1 n2 n3 grid class_sol pillar_step pillar_width =
     is_internal_piliers n1 n2 n3 pillar_step pillar_width
       (is_internal_bords n1 n2 n3
          (is_internal_voisins n1 n2 n3 (sol_final_mask grid class_sol)))"

definition coque_avec_piliers ::
  "nat \<Rightarrow> nat \<Rightarrow> nat \<Rightarrow> int8 array3 \<Rightarrow> int8 \<Rightarrow> int \<Rightarrow> int \<Rightarrow> int8 array3" where
  "coque_avec_piliers n1 n2 n3 grid class_sol pillar_step pillar_width =
     tabulate3 n1 n2 n3
       (\<lambda>x y z. if is_internal n1 n2 n3 grid class_sol pillar_step pillar_width ! x ! y ! z
                 then 0 else grid ! x ! y ! z)"

text \<open>
  \<open>Reconstruction\<close>.  \<open>np.argwhere(grid != 0)\<close> lists the indices of the voxels left,
  in the order of the array; node \<open>i\<close> of the new graph is the \<open>i\<close>-th of them, with
  the minimum coordinates added back.  The new graph has no edge.
\<close>

definition voxels_finaux :: "int8 array3 \<Rightarrow> (nat \<times> nat \<times> nat) list" where
  "voxels_finaux grid =
     concat (map (\<lambda>x. concat (map (\<lambda>y. map (\<lambda>z. (x, y, z))
         (filter (\<lambda>z. grid ! x ! y ! z \<noteq> 0) [0..<length (grid ! x ! y)]))
       [0..<length (grid ! x)])) [0..<length grid])"

definition reconstruction :: "int8 array3 \<Rightarrow> int \<times> int \<times> int \<Rightarrow> nat graph" where
  "reconstruction grid mc =
     (case mc of (mx, my, mz) \<Rightarrow>
        (let vf = voxels_finaux grid
         in \<lparr>g_nodes =
               map (\<lambda>i. case vf ! i of (x, y, z) \<Rightarrow>
                          (i, \<lparr>coord_n = Some (int x + mx, int y + my, int z + mz),
                               class_maj_n = Some (sint (grid ! x ! y ! z))\<rparr>))
                 [0..<length vf],
             g_edges = []\<rparr>))"

text \<open>
  \<open>ajouter_sol_coque_pillier\<close>.  The two comprehensions read \<open>coord\<close> of every node,
  then \<open>class_maj\<close> of every node; a graph without node is returned as it is.
\<close>

definition ajouter_sol_coque_pillier ::
  "nat graph \<Rightarrow> int8 \<Rightarrow> int \<Rightarrow> int \<Rightarrow> int \<Rightarrow> int \<Rightarrow> py_error + nat graph" where
  "ajouter_sol_coque_pillier G class_sol class_bat n_min pillar_step pillar_width =
     (case sequence (map (\<lambda>(n, d). attr_coord d) (g_nodes G)) of
        Inl e \<Rightarrow> Inl e
      | Inr coords \<Rightarrow>
     (case sequence (map (\<lambda>(n, d). node_class d) (g_nodes G)) of
        Inl e \<Rightarrow> Inl e
      | Inr classes \<Rightarrow>
          if coords = [] then Inr G
          else
            Inr (reconstruction
                   (coque_avec_piliers (nx_max coords) (ny_max coords) (nz_max coords)
                      (grille_propagee coords classes class_sol class_bat n_min)
                      class_sol pillar_step pillar_width)
                   (min_coords coords))))"

text \<open>
  A solid block of ground (class 2), three voxels high, on the columns \<open>(x, y)\<close> with
  \<open>lo \<le> x < lo + n\<close> and \<open>lo \<le> y < lo + n\<close>.
\<close>

definition coords_bloc :: "int \<Rightarrow> nat \<Rightarrow> (int \<times> int \<times> int) list" where
  "coords_bloc lo n =
     concat (map (\<lambda>x. concat (map (\<lambda>y. map (\<lambda>z. (lo + int x, lo + int y, int z)) [0..<3])
       [0..<n])) [0..<n])"

definition graphe_bloc :: "int \<Rightarrow> nat \<Rightarrow> nat graph" where
  "graphe_bloc lo n =
     \<lparr>g_nodes = map (\<lambda>i. (i, \<lparr>coord_n = Some (coords_bloc lo n ! i), class_maj_n = Some 2\<rparr>))
                  [0..<length (coords_bloc lo n)],
      g_edges = []\<rparr>"

text \<open>The coordinates of the nodes of a graph.\<close>

definition coords_of :: "nat graph \<Rightarrow> (int \<times> int \<times> int) option list" where
  "coords_of G = map (\<lambda>(n, d). coord_n d) (g_nodes G)"

section \<open>Properties of the solver and of the merge rules\<close>

lemma valid_lengths_width_1:
  assumes "set (collect_lengths vs 1) = {1, 2, 3, 4, 6, 8}"
  shows "valid_lengths vs 1 = [8, 6, 4, 3, 2, 1]"
proof -
  have "{1, 2, 3, 4, 6, 8} = set [1, 2, 3, 4, 6, 8 :: int]"
    by simp
  then have "sorted_list_of_set {1, 2, 3, 4, 6, 8 :: int} = [1, 2, 3, 4, 6, 8]"
    by (simp only: sorted_list_of_set_sort_remdups) simp
  then show ?thesis
    by (simp add: valid_lengths_def assms)
qed

lemma inventaire_lengths_width_1:
  "set (collect_lengths INVENTAIRE_BRIQUES 1) = {1, 2, 3, 4, 6, 8}"
  by (auto simp: INVENTAIRE_BRIQUES_def)

text \<open>
  C1, as the code has it.  Against every catalog whose lengths compatible with width 1
  are \<open>{1, 2, 3, 4, 6, 8}\<close>, \<open>get_best_partition 7 1\<close> returns \<open>[6, 1]\<close>: the
  descending list is \<open>[8, 6, 4, 3, 2, 1]\<close>, the largest length that fits 7 is 6, and
  the largest that fits the remaining 1 is 1.
\<close>

theorem get_best_partition_7_1:
  assumes "set (collect_lengths vs 1) = {1, 2, 3, 4, 6, 8}"
  shows "get_best_partition vs 7 1 = Some [6, 1]"
  by (simp add: get_best_partition_def valid_lengths_width_1 [OF assms] partition_loop.simps)

theorem get_best_partition_7_1_witness:
  "set (collect_lengths INVENTAIRE_BRIQUES 1) = {1, 2, 3, 4, 6, 8}
   \<and> get_best_partition INVENTAIRE_BRIQUES 7 1 = Some [6, 1]"
  using inventaire_lengths_width_1 get_best_partition_7_1 [OF inventaire_lengths_width_1]
  by simp

text \<open>
  C1 as stated fails: the inventory of main.py has exactly the lengths
  \<open>{1, 2, 3, 4, 6, 8}\<close> for width 1, and the partition of 7 is not \<open>[4, 3]\<close>.
\<close>

theorem get_best_partition_7_1_counterexample:
  "set (collect_lengths INVENTAIRE_BRIQUES 1) = {1, 2, 3, 4, 6, 8}
   \<and> get_best_partition INVENTAIRE_BRIQUES 7 1 \<noteq> Some [4, 3]"
proof -
  have "get_best_partition INVENTAIRE_BRIQUES 7 1 = Some [6, 1]"
    by (simp add: get_best_partition_def partition_loop.simps
        valid_lengths_width_1 [OF inventaire_lengths_width_1])
  with inventaire_lengths_width_1 show ?thesis
    by simp
qed

text \<open>
  Under main.py \<open>get_best_partition\<close> still reads the default catalog of merge.py,
  whose lengths for width 1 are 1, 2 and 4: there the partition of 7 is \<open>[4, 2, 1]\<close>.
\<close>

lemma get_best_partition_7_1_default:
  "get_best_partition VALID_SIZES 7 1 = Some [4, 2, 1]"
proof -
  have "set (collect_lengths VALID_SIZES 1) = set [1, 2, 4]"
    by (auto simp: VALID_SIZES_def)
  then have "valid_lengths VALID_SIZES 1 = [4, 2, 1]"
    unfolding valid_lengths_def by (simp only: sorted_list_of_set_sort_remdups) simp
  then show ?thesis
    by (simp add: get_best_partition_def partition_loop.simps)
qed

text \<open>
  C5.  \<open>merge_bricks\<close> returns a brick exactly when the two bricks have the same layer,
  color and orientation and are neighbors, and either the orientation is \<open>H\<close>, \<open>y\<close> and
  \<open>width\<close> agree and (summed length, width) is in the active catalog, or the orientation
  is \<open>V\<close>, \<open>x\<close> and \<open>length\<close> agree and (length, summed width) is in the catalog.  The
  brick returned has the summed length (resp. width).  In every other case the result
  is \<open>None\<close>.
\<close>

theorem merge_bricks_Some_iff:
  "merge_bricks vs b1 b2 = Some b \<longleftrightarrow>
     layer_b b1 = layer_b b2 \<and> color_b b1 = color_b b2
     \<and> orientation_b b1 = orientation_b b2 \<and> are_neighbors b1 b2 \<and>
     ((orientation_b b1 = ''H'' \<and> y_b b1 = y_b b2 \<and> width_b b1 = width_b b2
       \<and> (length_b b1 + length_b b2, width_b b1) \<in> set vs
       \<and> b = mk_Brick (layer_b b1) (min (x_b b1) (x_b b2)) (y_b b1)
               (length_b b1 + length_b b2) (width_b b1) (color_b b1) ''H'')
      \<or> (orientation_b b1 = ''V'' \<and> x_b b1 = x_b b2 \<and> length_b b1 = length_b b2
       \<and> (length_b b1, width_b b1 + width_b b2) \<in> set vs
       \<and> b = mk_Brick (layer_b b1) (x_b b1) (min (y_b b1) (y_b b2)) (length_b b1)
               (width_b b1 + width_b b2) (color_b b1) ''V''))"
  by (auto simp: merge_bricks_def can_merge_def is_valid_lego_part_def Let_def)

text \<open>
  Two adjacent 1x1 Horizontal bricks merge into a 1x2 brick under the default catalog.
\<close>

theorem merge_bricks_Some_iff_witness:
  "merge_bricks VALID_SIZES (mk_Brick 0 0 0 1 1 7 ''H'') (mk_Brick 0 1 0 1 1 7 ''H'')
     = Some (mk_Brick 0 0 0 2 1 7 ''H'')"
  unfolding merge_bricks_Some_iff
  by (simp add: mk_Brick_def are_neighbors_def bbox_def VALID_SIZES_def)

text \<open>
  C10.  On the empty brick list \<open>solve_greedy_stripe\<close> returns nothing: the reduction
  percentage divides by \<open>len(bricks)\<close>, and the call ends in \<open>ZeroDivisionError\<close>,
  whatever the two catalogs.
\<close>

theorem solve_greedy_stripe_empty:
  "solve_greedy_stripe vs ms [] = Some (Inl ZeroDivisionError)"
  by (simp add: solve_greedy_stripe_def)

section \<open>Properties of the spatial sampler\<close>

lemma np_min_Cons: "np_min (v # vs) = Inr (fold min vs v)"
  by (simp add: np_min_def)

lemma np_max_Cons: "np_max (v # vs) = Inr (fold max vs v)"
  by (simp add: np_max_def)

lemma length_np_where: "length (np_where P las) = length (filter P las)"
proof -
  have "filter P (map (\<lambda>i. las ! i) [0..<length las])
        = map (\<lambda>i. las ! i) (filter (\<lambda>i. P (las ! i)) [0..<length las])"
    by (simp add: filter_map comp_def)
  then have "length (filter P (map (\<lambda>i. las ! i) [0..<length las])) = length (np_where P las)"
    by (simp add: np_where_def)
  then show ?thesis
    by (simp add: map_nth)
qed

text \<open>The index array after the cap is returned, and has the length of the claim.\<close>

lemma indices_retenus_Inr:
  assumes "0 \<le> nb_points" and "valid_rng rng (length indices_zone)"
  shows "\<exists>indices. indices_retenus rng indices_zone nb_points = Inr indices
         \<and> length indices = (if int (length indices_zone) \<le> nb_points
                              then length indices_zone else nat nb_points)"
  using assms by (auto simp: indices_retenus_def random_choice_def valid_rng_def)

text \<open>
  \<open>echantillon\<close> on the index array \<open>indices\<close>: an array returned has the length of
  \<open>indices\<close>; one is returned when each of the four indexings gives one value for each
  index; and the call ends in an exception when one of them does.
\<close>

lemma echantillon_length:
  assumes "indices_retenus rng indices_zone nb_points = Inr indices"
    and "echantillon vue_xyz vue_classe rng las indices_zone nb_points = Inr r"
  shows "length r = length indices"
  using assms by (auto simp: echantillon_def split: sum.splits)

lemma echantillon_returns:
  assumes "indices_retenus rng indices_zone nb_points = Inr indices"
    and "vue_xyz (map x_p las) indices = Inr xs" and "length xs = length indices"
    and "vue_xyz (map y_p las) indices = Inr ys" and "length ys = length indices"
    and "vue_xyz (map z_p las) indices = Inr zs" and "length zs = length indices"
    and "vue_classe (map classification_p las) indices = Inr cs" and "length cs = length indices"
  shows "\<exists>r. echantillon vue_xyz vue_classe rng las indices_zone nb_points = Inr r"
  using assms by (simp add: echantillon_def affecter_def)

lemma echantillon_raises:
  assumes "indices_retenus rng indices_zone nb_points = Inr indices"
    and "vue_xyz (map x_p las) indices = Inl e \<or> vue_xyz (map y_p las) indices = Inl e
         \<or> vue_xyz (map z_p las) indices = Inl e
         \<or> vue_classe (map classification_p las) indices = Inl e"
  shows "\<exists>e'. echantillon vue_xyz vue_classe rng las indices_zone nb_points = Inl e'"
  using assms by (auto simp: echantillon_def split: sum.splits)

lemma echantillon_spec:
  assumes "0 \<le> nb_points" and "valid_rng rng (length (np_where P las))"
  shows "\<exists>indices. indices_retenus rng (np_where P las) nb_points = Inr indices
       \<and> length indices = (if int (length (filter P las)) \<le> nb_points
                            then length (filter P las) else nat nb_points)
       \<and> int (length indices) \<le> nb_points
       \<and> (\<forall>r. echantillon vue_xyz vue_classe rng las (np_where P las) nb_points = Inr r
              \<longrightarrow> length r = length indices)
       \<and> ((\<exists>xs ys zs cs.
              vue_xyz (map x_p las) indices = Inr xs \<and> length xs = length indices
            \<and> vue_xyz (map y_p las) indices = Inr ys \<and> length ys = length indices
            \<and> vue_xyz (map z_p las) indices = Inr zs \<and> length zs = length indices
            \<and> vue_classe (map classification_p las) indices = Inr cs
            \<and> length cs = length indices)
           \<longrightarrow> (\<exists>r. echantillon vue_xyz vue_classe rng las (np_where P las) nb_points = Inr r))
       \<and> ((\<exists>e. vue_xyz (map x_p las) indices = Inl e \<or> vue_xyz (map y_p las) indices = Inl e
                \<or> vue_xyz (map z_p las) indices = Inl e
                \<or> vue_classe (map classification_p las) indices = Inl e)
           \<longrightarrow> (\<exists>e. echantillon vue_xyz vue_classe rng las (np_where P las) nb_points = Inl e))"
proof -
  from indices_retenus_Inr [OF assms] obtain indices where
    i: "indices_retenus rng (np_where P las) nb_points = Inr indices"
    and l: "length indices = (if int (length (np_where P las)) \<le> nb_points
                              then length (np_where P las) else nat nb_points)"
    by blast
  from l have l': "length indices = (if int (length (filter P las)) \<le> nb_points
                            then length (filter P las) else nat nb_points)"
    by (simp add: length_np_where split: if_splits)
  from l assms(1) have le: "int (length indices) \<le> nb_points"
    by (simp split: if_splits)
  show ?thesis
  proof (intro exI [of _ indices] conjI allI impI)
    show "indices_retenus rng (np_where P las) nb_points = Inr indices"
      by (rule i)
    show "length indices = (if int (length (filter P las)) \<le> nb_points
                            then length (filter P las) else nat nb_points)"
      by (rule l')
    show "int (length indices) \<le> nb_points"
      by (rule le)
  next
    fix r assume "echantillon vue_xyz vue_classe rng las (np_where P las) nb_points = Inr r"
    with i show "length r = length indices"
      by (rule echantillon_length)
  next
    assume "\<exists>xs ys zs cs.
              vue_xyz (map x_p las) indices = Inr xs \<and> length xs = length indices
            \<and> vue_xyz (map y_p las) indices = Inr ys \<and> length ys = length indices
            \<and> vue_xyz (map z_p las) indices = Inr zs \<and> length zs = length indices
            \<and> vue_classe (map classification_p las) indices = Inr cs
            \<and> length cs = length indices"
    then show "\<exists>r. echantillon vue_xyz vue_classe rng las (np_where P las) nb_points = Inr r"
      using echantillon_returns [OF i] by blast
  next
    assume "\<exists>e. vue_xyz (map x_p las) indices = Inl e \<or> vue_xyz (map y_p las) indices = Inl e
                \<or> vue_xyz (map z_p las) indices = Inl e
                \<or> vue_classe (map classification_p las) indices = Inl e"
    then show "\<exists>e. echantillon vue_xyz vue_classe rng las (np_where P las) nb_points = Inl e"
      using echantillon_raises [OF i] by blast
  qed
qed

lemma LIDAR_carre_aleatoire_echantillon:
  assumes "coin_aleatoire draw_x draw_y las taille_zone = Inr (x0, y0)"
  shows "LIDAR_carre_aleatoire vue_xyz vue_classe draw_x draw_y rng las nb_points taille_zone
         = echantillon vue_xyz vue_classe rng las (np_where (dans_carre x0 y0 taille_zone) las)
             nb_points"
  by (simp add: LIDAR_carre_aleatoire_def assms)

lemma LIDAR_rectangle_echantillon:
  assumes "las \<noteq> []"
  shows "LIDAR_rectangle vue_xyz vue_classe rng las nb_points x_min_coin y_min_coin
           longueur_x longueur_y
         = echantillon vue_xyz vue_classe rng las
             (np_where (dans_rectangle x_min_coin y_min_coin (x_min_coin + longueur_x)
                (y_min_coin + longueur_y)) las) nb_points"
  using assms by (cases las) (simp_all add: LIDAR_rectangle_def np_min_Cons np_max_Cons Let_def)

lemma coin_aleatoire_nonempty:
  "las \<noteq> [] \<Longrightarrow> \<exists>x0 y0. coin_aleatoire draw_x draw_y las taille_zone = Inr (x0, y0)"
  by (cases las) (simp_all add: coin_aleatoire_def np_min_Cons np_max_Cons)

lemma valid_rng_upt: "valid_rng (\<lambda>k. [0..<k]) k"
  by (auto simp: valid_rng_def)

text \<open>
  C9, as the code has it.  Take a file with at least one point, a cap \<open>nb_points \<ge> 0\<close>
  and a generator that draws permutations.  For each sampler the index array after
  the cap, \<open>indices\<close>, is computed; its length is the number of points in the region
  (the square at the corner drawn, or the rectangle given) when that number is at most
  \<open>nb_points\<close>, and \<open>nb_points\<close> otherwise, so it never exceeds \<open>nb_points\<close> and it is
  0 when no point of the file falls in the region.  An array that the sampler returns
  has that length, whatever the indexing of the views does.  The sampler returns an
  array when each of the four views, indexed by \<open>indices\<close>, gives one value for each
  index; it ends in an exception when one of the four indexings raises one.
\<close>

theorem sampler_length:
  assumes "las \<noteq> []" and "0 \<le> nb_points" and "\<forall>k. valid_rng rng k"
  shows "(\<exists>x0 y0 indices. coin_aleatoire draw_x draw_y las taille_zone = Inr (x0, y0)
       \<and> indices_retenus rng (np_where (dans_carre x0 y0 taille_zone) las) nb_points
           = Inr indices
       \<and> length indices =
           (if int (length (filter (dans_carre x0 y0 taille_zone) las)) \<le> nb_points
            then length (filter (dans_carre x0 y0 taille_zone) las) else nat nb_points)
       \<and> int (length indices) \<le> nb_points
       \<and> (\<forall>r. LIDAR_carre_aleatoire vue_xyz vue_classe draw_x draw_y rng las nb_points
                 taille_zone = Inr r
              \<longrightarrow> length r = length indices)
       \<and> ((\<exists>xs ys zs cs.
              vue_xyz (map x_p las) indices = Inr xs \<and> length xs = length indices
            \<and> vue_xyz (map y_p las) indices = Inr ys \<and> length ys = length indices
            \<and> vue_xyz (map z_p las) indices = Inr zs \<and> length zs = length indices
            \<and> vue_classe (map classification_p las) indices = Inr cs
            \<and> length cs = length indices)
           \<longrightarrow> (\<exists>r. LIDAR_carre_aleatoire vue_xyz vue_classe draw_x draw_y rng las nb_points
                       taille_zone = Inr r))
       \<and> ((\<exists>e. vue_xyz (map x_p las) indices = Inl e \<or> vue_xyz (map y_p las) indices = Inl e
                \<or> vue_xyz (map z_p las) indices = Inl e
                \<or> vue_classe (map classification_p las) indices = Inl e)
           \<longrightarrow> (\<exists>e. LIDAR_carre_aleatoire vue_xyz vue_classe draw_x draw_y rng las nb_points
                       taille_zone = Inl e)))
     \<and> (\<exists>indices.
         indices_retenus rng (np_where (dans_rectangle x_min_coin y_min_coin
             (x_min_coin + longueur_x) (y_min_coin + longueur_y)) las) nb_points = Inr indices
       \<and> length indices =
           (if int (length (filter (dans_rectangle x_min_coin y_min_coin
                      (x_min_coin + longueur_x) (y_min_coin + longueur_y)) las)) \<le> nb_points
            then length (filter (dans_rectangle x_min_coin y_min_coin
                      (x_min_coin + longueur_x) (y_min_coin + longueur_y)) las)
            else nat nb_points)
       \<and> int (length indices) \<le> nb_points
       \<and> (\<forall>r. LIDAR_rectangle vue_xyz vue_classe rng las nb_points x_min_coin y_min_coin
                 longueur_x longueur_y = Inr r
              \<longrightarrow> length r = length indices)
       \<and> ((\<exists>xs ys zs cs.
              vue_xyz (map x_p las) indices = Inr xs \<and> length xs = length indices
            \<and> vue_xyz (map y_p las) indices = Inr ys \<and> length ys = length indices
            \<and> vue_xyz (map z_p las) indices = Inr zs \<and> length zs = length indices
            \<and> vue_classe (map classification_p las) indices = Inr cs
            \<and> length cs = length indices)
           \<longrightarrow> (\<exists>r. LIDAR_rectangle vue_xyz vue_classe rng las nb_points x_min_coin
                       y_min_coin longueur_x longueur_y = Inr r))
       \<and> ((\<exists>e. vue_xyz (map x_p las) indices = Inl e \<or> vue_xyz (map y_p las) indices = Inl e
                \<or> vue_xyz (map z_p las) indices = Inl e
                \<or> vue_classe (map classification_p las) indices = Inl e)
           \<longrightarrow> (\<exists>e. LIDAR_rectangle vue_xyz vue_classe rng las nb_points x_min_coin
                       y_min_coin longueur_x longueur_y = Inl e)))"
proof (rule conjI)
  obtain x0 y0 where c: "coin_aleatoire draw_x draw_y las taille_zone = Inr (x0, y0)"
    using coin_aleatoire_nonempty [OF assms(1)] by blast
  have v: "valid_rng rng (length (np_where (dans_carre x0 y0 taille_zone) las))"
    using assms(3) by simp
  show "\<exists>x0 y0 indices. coin_aleatoire draw_x draw_y las taille_zone = Inr (x0, y0)
       \<and> indices_retenus rng (np_where (dans_carre x0 y0 taille_zone) las) nb_points
           = Inr indices
       \<and> length indices =
           (if int (length (filter (dans_carre x0 y0 taille_zone) las)) \<le> nb_points
            then length (filter (dans_carre x0 y0 taille_zone) las) else nat nb_points)
       \<and> int (length indices) \<le> nb_points
       \<and> (\<forall>r. LIDAR_carre_aleatoire vue_xyz vue_classe draw_x draw_y rng las nb_points
                 taille_zone = Inr r
              \<longrightarrow> length r = length indices)
       \<and> ((\<exists>xs ys zs cs.
              vue_xyz (map x_p las) indices = Inr xs \<and> length xs = length indices
            \<and> vue_xyz (map y_p las) indices = Inr ys \<and> length ys = length indices
            \<and> vue_xyz (map z_p las) indices = Inr zs \<and> length zs = length indices
            \<and> vue_classe (map classification_p las) indices = Inr cs
            \<and> length cs = length indices)
           \<longrightarrow> (\<exists>r. LIDAR_carre_aleatoire vue_xyz vue_classe draw_x draw_y rng las nb_points
                       taille_zone = Inr r))
       \<and> ((\<exists>e. vue_xyz (map x_p las) indices = Inl e \<or> vue_xyz (map y_p las) indices = Inl e
                \<or> vue_xyz (map z_p las) indices = Inl e
                \<or> vue_classe (map classification_p las) indices = Inl e)
           \<longrightarrow> (\<exists>e. LIDAR_carre_aleatoire vue_xyz vue_classe draw_x draw_y rng las nb_points
                       taille_zone = Inl e))"
    unfolding LIDAR_carre_aleatoire_echantillon [OF c]
    using c echantillon_spec [OF assms(2) v, of vue_xyz vue_classe] by blast
next
  let ?R = "dans_rectangle x_min_coin y_min_coin (x_min_coin + longueur_x)
              (y_min_coin + longueur_y)"
  have v: "valid_rng rng (length (np_where ?R las))"
    using assms(3) by simp
  show "\<exists>indices. indices_retenus rng (np_where ?R las) nb_points = Inr indices
       \<and> length indices =
           (if int (length (filter ?R las)) \<le> nb_points
            then length (filter ?R las)
            else nat nb_points)
       \<and> int (length indices) \<le> nb_points
       \<and> (\<forall>r. LIDAR_rectangle vue_xyz vue_classe rng las nb_points x_min_coin y_min_coin
                 longueur_x longueur_y = Inr r
              \<longrightarrow> length r = length indices)
       \<and> ((\<exists>xs ys zs cs.
              vue_xyz (map x_p las) indices = Inr xs \<and> length xs = length indices
            \<and> vue_xyz (map y_p las) indices = Inr ys \<and> length ys = length indices
            \<and> vue_xyz (map z_p las) indices = Inr zs \<and> length zs = length indices
            \<and> vue_classe (map classification_p las) indices = Inr cs
            \<and> length cs = length indices)
           \<longrightarrow> (\<exists>r. LIDAR_rectangle vue_xyz vue_classe rng las nb_points x_min_coin
                       y_min_coin longueur_x longueur_y = Inr r))
       \<and> ((\<exists>e. vue_xyz (map x_p las) indices = Inl e \<or> vue_xyz (map y_p las) indices = Inl e
                \<or> vue_xyz (map z_p las) indices = Inl e
                \<or> vue_classe (map classification_p las) indices = Inl e)
           \<longrightarrow> (\<exists>e. LIDAR_rectangle vue_xyz vue_classe rng las nb_points x_min_coin
                       y_min_coin longueur_x longueur_y = Inl e))"
    unfolding LIDAR_rectangle_echantillon [OF assms(1)]
    using echantillon_spec [OF assms(2) v, of vue_xyz vue_classe] by blast
qed

text \<open>
  A file of three points, two of them in the rectangle \<open>[0, 10] \<times> [0, 10]\<close>, a cap of
  one point, and views that index as numpy arrays do: both samplers return one point.
\<close>

theorem sampler_length_witness:
  "las_exemple \<noteq> [] \<and> (0 :: int) \<le> 1 \<and> (\<forall>k. valid_rng (\<lambda>k. [0..<k]) k)
   \<and> coin_aleatoire (\<lambda>a b. a) (\<lambda>a b. a) las_exemple 10 = Inr (1, 1)
   \<and> length (filter (dans_carre 1 1 10) las_exemple) = 2
   \<and> length (filter (dans_rectangle 0 0 (0 + 10) (0 + 10)) las_exemple) = 2
   \<and> indices_retenus (\<lambda>k. [0..<k]) (np_where (dans_carre 1 1 10) las_exemple) 1 = Inr [0]
   \<and> indices_retenus (\<lambda>k. [0..<k])
        (np_where (dans_rectangle 0 0 (0 + 10) (0 + 10)) las_exemple) 1 = Inr [0]
   \<and> np_take (map x_p las_exemple) [0] = Inr [1]
   \<and> np_take (map y_p las_exemple) [0] = Inr [1]
   \<and> np_take (map z_p las_exemple) [0] = Inr [0]
   \<and> np_take (map classification_p las_exemple) [0] = Inr [2]
   \<and> (\<exists>r. LIDAR_carre_aleatoire np_take np_take (\<lambda>a b. a) (\<lambda>a b. a) (\<lambda>k. [0..<k])
             las_exemple 1 10 = Inr r
          \<and> length r = 1)
   \<and> (\<exists>r. LIDAR_rectangle np_take np_take (\<lambda>k. [0..<k]) las_exemple 1 0 0 10 10 = Inr r
          \<and> length r = 1)"
proof -
  have h1: "las_exemple \<noteq> []"
    by (simp add: las_exemple_def)
  have h2: "(0 :: int) \<le> 1"
    by simp
  have h3: "\<forall>k. valid_rng (\<lambda>k. [0..<k]) k"
    by (simp add: valid_rng_upt)
  have c: "coin_aleatoire (\<lambda>a b. a) (\<lambda>a b. a) las_exemple 10 = Inr (1, 1)"
    by (simp add: coin_aleatoire_def las_exemple_def np_min_def np_max_def)
  have k1: "length (filter (dans_carre 1 1 10) las_exemple) = 2"
    by (simp add: las_exemple_def dans_carre_def)
  have k2: "length (filter (dans_rectangle 0 0 (0 + 10) (0 + 10)) las_exemple) = 2"
    by (simp add: las_exemple_def dans_rectangle_def)
  have i1: "indices_retenus (\<lambda>k. [0..<k]) (np_where (dans_carre 1 1 10) las_exemple) 1 = Inr [0]"
    by (simp add: indices_retenus_def random_choice_def np_where_def las_exemple_def
        dans_carre_def upt_rec)
  have i2: "indices_retenus (\<lambda>k. [0..<k])
        (np_where (dans_rectangle 0 0 (0 + 10) (0 + 10)) las_exemple) 1 = Inr [0]"
    by (simp add: indices_retenus_def random_choice_def np_where_def las_exemple_def
        dans_rectangle_def upt_rec)
  have v: "np_take (map x_p las_exemple) [0] = Inr [1]"
    "np_take (map y_p las_exemple) [0] = Inr [1]"
    "np_take (map z_p las_exemple) [0] = Inr [0]"
    "np_take (map classification_p las_exemple) [0] = Inr [2]"
    by (simp_all add: np_take_def las_exemple_def)
  from sampler_length [OF h1 h2 h3, of "\<lambda>a b. a" "\<lambda>a b. a" 10 np_take np_take 0 0 10 10]
    c i1 i2 v
  have "(\<exists>r. LIDAR_carre_aleatoire np_take np_take (\<lambda>a b. a) (\<lambda>a b. a) (\<lambda>k. [0..<k])
             las_exemple 1 10 = Inr r
          \<and> length r = 1)
     \<and> (\<exists>r. LIDAR_rectangle np_take np_take (\<lambda>k. [0..<k]) las_exemple 1 0 0 10 10 = Inr r
          \<and> length r = 1)"
    by auto
  with h1 h2 h3 c k1 k2 i1 i2 v show ?thesis
    by blast
qed

text \<open>
  C9 as stated fails on a file without points: no point falls in the region, and both
  samplers end in \<open>ValueError\<close> (the minimum of an empty array) instead of returning an
  array of length 0.  It also fails for a negative cap: the draw of a negative number
  of points ends in \<open>ValueError\<close>.
\<close>

theorem sampler_length_counterexample:
  "LIDAR_rectangle np_take np_take (\<lambda>k. [0..<k]) [] 5 0 0 10 10 = Inl ValueError
   \<and> LIDAR_carre_aleatoire np_take np_take (\<lambda>a b. a) (\<lambda>a b. a) (\<lambda>k. [0..<k]) [] 5 10
       = Inl ValueError
   \<and> LIDAR_rectangle np_take np_take (\<lambda>k. [0..<k]) las_exemple (- 1) 0 0 10 10
       = Inl ValueError"
  by (simp add: LIDAR_rectangle_def LIDAR_carre_aleatoire_def coin_aleatoire_def
      np_min_def np_max_def las_exemple_def echantillon_def random_choice_def
      np_where_def dans_rectangle_def indices_retenus_def)

text \<open>
  On a file with points, a region without any point gives the array of length 0.
\<close>

lemma sampler_empty_region:
  "LIDAR_rectangle np_take np_take (\<lambda>k. [0..<k]) las_exemple 5 100 100 1 1 = Inr []"
  by (simp add: LIDAR_rectangle_def np_min_def np_max_def las_exemple_def echantillon_def
      np_where_def dans_rectangle_def np_take_def affecter_def indices_retenus_def)

text \<open>
  The samplers propagate the exception of the views: the two points of the rectangle
  are returned when the views index as numpy arrays do, and the call ends in
  \<open>IndexError\<close> with a view that refuses an index array of two elements.
\<close>

lemma sampler_vue_error:
  "length (filter (dans_rectangle 0 0 (0 + 10) (0 + 10)) las_exemple) = 2
   \<and> LIDAR_rectangle vue_sauf_deux vue_sauf_deux (\<lambda>k. [0..<k]) las_exemple 5 0 0 10 10
       = Inl IndexError
   \<and> LIDAR_rectangle np_take np_take (\<lambda>k. [0..<k]) las_exemple 5 0 0 10 10
       = Inr [\<lparr>x_p = 1, y_p = 1, z_p = 0, classification_p = 2\<rparr>,
              \<lparr>x_p = 2, y_p = 3, z_p = 1, classification_p = 6\<rparr>]"
  by (simp add: LIDAR_rectangle_def np_min_def np_max_def las_exemple_def echantillon_def
      np_where_def dans_rectangle_def np_take_def affecter_def vue_sauf_deux_def upt_rec
      indices_retenus_def)

section \<open>Properties of the arrays\<close>

lemma nth_tabulate3:
  "i < n1 \<Longrightarrow> j < n2 \<Longrightarrow> k < n3 \<Longrightarrow> tabulate3 n1 n2 n3 f ! i ! j ! k = f i j k"
  by (simp add: tabulate3_def)

lemma has_shape_tabulate3: "has_shape (tabulate3 n1 n2 n3 f) n1 n2 n3"
  by (auto simp: has_shape_def tabulate3_def)

lemma has_shape_nth:
  assumes "has_shape a n1 n2 n3" and "i < n1"
  shows "length (a ! i) = n2" and "j < n2 \<Longrightarrow> length (a ! i ! j) = n3"
proof -
  from assms have mem: "a ! i \<in> set a"
    by (simp add: has_shape_def)
  with assms(1) show len: "length (a ! i) = n2"
    by (simp add: has_shape_def)
  assume "j < n2"
  with len have "a ! i ! j \<in> set (a ! i)"
    by simp
  with assms(1) mem show "length (a ! i ! j) = n3"
    by (simp add: has_shape_def)
qed

lemma nth_map3:
  assumes "has_shape a n1 n2 n3" and "i < n1" and "j < n2" and "k < n3"
  shows "map (map (map g)) a ! i ! j ! k = g (a ! i ! j ! k)"
proof -
  from assms have "i < length a"
    by (simp add: has_shape_def)
  moreover from assms have "j < length (a ! i)"
    by (simp add: has_shape_nth(1))
  moreover from assms have "k < length (a ! i ! j)"
    by (simp add: has_shape_nth(2))
  ultimately show ?thesis
    by simp
qed

lemma argmax_loop_spec:
  assumes "best < length pre" and "pre ! best = bv"
    and "\<forall>j<length pre. pre ! j \<le> bv" and "\<forall>j<best. pre ! j < bv"
  shows "argmax_loop vs (length pre) best bv < length (pre @ vs)
       \<and> (\<forall>j<length (pre @ vs). (pre @ vs) ! j \<le> (pre @ vs) ! argmax_loop vs (length pre) best bv)
       \<and> (\<forall>j<argmax_loop vs (length pre) best bv.
             (pre @ vs) ! j < (pre @ vs) ! argmax_loop vs (length pre) best bv)"
  using assms
proof (induction vs arbitrary: pre best bv)
  case Nil
  then show ?case by simp
next
  case (Cons v vs)
  show ?case
  proof (cases "v > bv")
    case True
    have "argmax_loop vs (length (pre @ [v])) (length pre) v < length ((pre @ [v]) @ vs)
       \<and> (\<forall>j<length ((pre @ [v]) @ vs). ((pre @ [v]) @ vs) ! j \<le> ((pre @ [v]) @ vs) ! argmax_loop vs (length (pre @ [v])) (length pre) v)
       \<and> (\<forall>j<argmax_loop vs (length (pre @ [v])) (length pre) v.
             ((pre @ [v]) @ vs) ! j < ((pre @ [v]) @ vs) ! argmax_loop vs (length (pre @ [v])) (length pre) v)"
    proof (rule Cons.IH)
      show "length pre < length (pre @ [v])" by simp
      show "(pre @ [v]) ! length pre = v" by simp
      show "\<forall>j<length (pre @ [v]). (pre @ [v]) ! j \<le> v"
        using Cons.prems(3) True by (auto simp: nth_append less_Suc_eq)
      show "\<forall>j<length pre. (pre @ [v]) ! j < v"
        using Cons.prems(3) True by (auto simp: nth_append)
    qed
    with True show ?thesis by simp
  next
    case False
    have "argmax_loop vs (length (pre @ [v])) best bv < length ((pre @ [v]) @ vs)
       \<and> (\<forall>j<length ((pre @ [v]) @ vs). ((pre @ [v]) @ vs) ! j \<le> ((pre @ [v]) @ vs) ! argmax_loop vs (length (pre @ [v])) best bv)
       \<and> (\<forall>j<argmax_loop vs (length (pre @ [v])) best bv.
             ((pre @ [v]) @ vs) ! j < ((pre @ [v]) @ vs) ! argmax_loop vs (length (pre @ [v])) best bv)"
    proof (rule Cons.IH)
      show "best < length (pre @ [v])" using Cons.prems(1) by simp
      show "(pre @ [v]) ! best = bv" using Cons.prems(1,2) by (simp add: nth_append)
      show "\<forall>j<length (pre @ [v]). (pre @ [v]) ! j \<le> bv"
        using Cons.prems(3) False by (auto simp: nth_append less_Suc_eq)
      show "\<forall>j<best. (pre @ [v]) ! j < bv"
        using Cons.prems(1,4) by (auto simp: nth_append)
    qed
    with False show ?thesis by simp
  qed
qed

lemma np_argmax_spec:
  assumes "row \<noteq> []"
  shows "np_argmax row < length row"
    and "\<forall>j<length row. row ! j \<le> row ! np_argmax row"
    and "\<forall>j<np_argmax row. row ! j < row ! np_argmax row"
proof -
  obtain v vs where row: "row = v # vs"
    using assms by (cases row) auto
  have "argmax_loop vs (length [v]) 0 v < length ([v] @ vs)
       \<and> (\<forall>j<length ([v] @ vs). ([v] @ vs) ! j \<le> ([v] @ vs) ! argmax_loop vs (length [v]) 0 v)
       \<and> (\<forall>j<argmax_loop vs (length [v]) 0 v.
             ([v] @ vs) ! j < ([v] @ vs) ! argmax_loop vs (length [v]) 0 v)"
    by (rule argmax_loop_spec) simp_all
  then show "np_argmax row < length row"
    and "\<forall>j<length row. row ! j \<le> row ! np_argmax row"
    and "\<forall>j<np_argmax row. row ! j < row ! np_argmax row"
    by (simp_all add: np_argmax_def row)
qed

lemma ravel_bound:
  fixes y x z n1 n2 n3 :: nat
  assumes "y < n1" and "x < n2" and "z < n3"
  shows "(y * n2 + x) * n3 + z < n1 * n2 * n3"
proof -
  have "y * n2 + x < n1 * n2"
  proof -
    have "y * n2 + x < y * n2 + n2" using assms(2) by simp
    also have "\<dots> = (Suc y) * n2" by simp
    also have "\<dots> \<le> n1 * n2" using assms(1) by (intro mult_le_mono1) simp
    finally show ?thesis .
  qed
  then have "Suc (y * n2 + x) \<le> n1 * n2" by simp
  then have "Suc (y * n2 + x) * n3 \<le> n1 * n2 * n3" by (rule mult_le_mono1)
  moreover have "(y * n2 + x) * n3 + z < Suc (y * n2 + x) * n3" using assms(3) by simp
  ultimately show ?thesis by linarith
qed

lemma ravel_inj:
  fixes a b c a' b' c' n2 n3 :: int
  assumes "0 \<le> b" "b < n2" "0 \<le> c" "c < n3" "0 \<le> b'" "b' < n2" "0 \<le> c'" "c' < n3"
    and eq: "(a * n2 + b) * n3 + c = (a' * n2 + b') * n3 + c'"
  shows "a = a' \<and> b = b' \<and> c = c'"
proof -
  have "c = ((a * n2 + b) * n3 + c) mod n3"
    using assms(3,4) by simp
  also have "\<dots> = ((a' * n2 + b') * n3 + c') mod n3"
    by (simp only: eq)
  also have "\<dots> = c'"
    using assms(7,8) by simp
  finally have c: "c = c'" .
  have "a * n2 + b = ((a * n2 + b) * n3 + c) div n3"
    using assms(3,4) by simp
  also have "\<dots> = ((a' * n2 + b') * n3 + c') div n3"
    by (simp only: eq)
  also have "\<dots> = a' * n2 + b'"
    using assms(7,8) by simp
  finally have e: "a * n2 + b = a' * n2 + b'" .
  have "b = (a * n2 + b) mod n2"
    using assms(1,2) by simp
  also have "\<dots> = (a' * n2 + b') mod n2"
    by (simp only: e)
  also have "\<dots> = b'"
    using assms(5,6) by simp
  finally have b: "b = b'" .
  have "a = (a * n2 + b) div n2"
    using assms(1,2) by simp
  also have "\<dots> = (a' * n2 + b') div n2"
    by (simp only: e)
  also have "\<dots> = a'"
    using assms(5,6) by simp
  finally have "a = a'" .
  with b c show ?thesis
    by simp
qed

lemma wrap_int32_id: "0 \<le> n \<Longrightarrow> n < 2 ^ 31 \<Longrightarrow> wrap_int32 n = n"
  by (simp add: wrap_int32_def)

section \<open>Properties of the voxelizer\<close>

lemma ravel_eq_iff:
  assumes "valid ny nx nz p" and "y < nat ny" and "x < nat nx" and "z < nat nz"
  shows "ravel_multi_index ny nx nz p = (y * nat nx + x) * nat nz + z
     \<longleftrightarrow> iy_v p = int y \<and> ix_v p = int x \<and> iz_v p = int z"
proof -
  from assms have b: "0 \<le> ix_v p" "ix_v p < nx" "0 \<le> iz_v p" "iz_v p < nz" "0 \<le> iy_v p"
    by (simp_all add: valid_def)
  from assms have b': "0 \<le> int x" "int x < nx" "0 \<le> int z" "int z < nz"
    by simp_all
  have nn: "0 \<le> (iy_v p * nx + ix_v p) * nz + iz_v p"
    using b by simp
  have "int ((y * nat nx + x) * nat nz + z) = (int y * nx + int x) * nz + int z"
    using b' by simp
  then have "ravel_multi_index ny nx nz p = (y * nat nx + x) * nat nz + z
     \<longleftrightarrow> (iy_v p * nx + ix_v p) * nz + iz_v p = (int y * nx + int x) * nz + int z"
    using nn unfolding ravel_multi_index_def by linarith
  also have "\<dots> \<longleftrightarrow> iy_v p = int y \<and> ix_v p = int x \<and> iz_v p = int z"
  proof
    assume "(iy_v p * nx + ix_v p) * nz + iz_v p = (int y * nx + int x) * nz + int z"
    with b(1,2,3,4) b' show "iy_v p = int y \<and> ix_v p = int x \<and> iz_v p = int z"
      by (rule ravel_inj)
  next
    assume "iy_v p = int y \<and> ix_v p = int x \<and> iz_v p = int z"
    then show "(iy_v p * nx + ix_v p) * nz + iz_v p = (int y * nx + int x) * nz + int z"
      by simp
  qed
  finally show ?thesis .
qed

lemma length_class_counts_row:
  assumes "y < nat ny" and "x < nat nx" and "z < nat nz"
  shows "length (class_counts ny nx nz pts ! y ! x ! z) = length (classes_uniques pts)"
proof -
  have "(y * nat nx + x) * nat nz + z < nat ny * nat nx * nat nz"
    using assms by (rule ravel_bound)
  also have "\<dots> = nat (ny * nx * nz)"
    using assms by (simp add: nat_mult_distrib)
  finally show ?thesis
    using assms by (simp add: class_counts_def nth_tabulate3 class_counts_plat_def)
qed

lemma class_counts_nth:
  assumes "\<forall>p \<in> set pts. valid ny nx nz p"
    and "y < nat ny" and "x < nat nx" and "z < nat nz"
    and "c < length (classes_uniques pts)"
  shows "class_counts ny nx nz pts ! y ! x ! z ! c
         = wrap_int32 (int (tally pts y x z (classes_uniques pts ! c)))"
proof -
  have "(y * nat nx + x) * nat nz + z < nat ny * nat nx * nat nz"
    using assms(2,3,4) by (rule ravel_bound)
  also have "\<dots> = nat (ny * nx * nz)"
    using assms by (simp add: nat_mult_distrib)
  finally have v: "(y * nat nx + x) * nat nz + z < nat (ny * nx * nz)" .
  have "filter (\<lambda>p. ravel_multi_index ny nx nz p = (y * nat nx + x) * nat nz + z
                    \<and> classe_v p = classes_uniques pts ! c) pts
      = filter (\<lambda>p. (iy_v p = int y \<and> ix_v p = int x \<and> iz_v p = int z)
                    \<and> classe_v p = classes_uniques pts ! c) pts"
    using assms(1,2,3,4) by (intro filter_cong) (auto simp: ravel_eq_iff)
  then have "length (filter (\<lambda>p. ravel_multi_index ny nx nz p = (y * nat nx + x) * nat nz + z
                    \<and> classe_v p = classes_uniques pts ! c) pts)
      = tally pts y x z (classes_uniques pts ! c)"
    by (simp add: tally_def points_du_voxel_def)
  with v assms(2,3,4,5) show ?thesis
    by (simp add: class_counts_def nth_tabulate3 class_counts_plat_def)
qed

lemma tally_le_length: "tally pts y x z c \<le> length pts"
proof -
  have "tally pts y x z c \<le> length (points_du_voxel pts y x z)"
    unfolding tally_def by (rule length_filter_le)
  also have "\<dots> \<le> length pts"
    unfolding points_du_voxel_def by (rule length_filter_le)
  finally show ?thesis .
qed

lemma class_counts_row:
  assumes "\<forall>p \<in> set pts. valid ny nx nz p" and "length pts < 2 ^ 31"
    and "y < nat ny" and "x < nat nx" and "z < nat nz"
  shows "class_counts ny nx nz pts ! y ! x ! z
         = map (\<lambda>i. int (tally pts y x z (classes_uniques pts ! i)))
             [0..<length (classes_uniques pts)]"
proof (rule nth_equalityI)
  show "length (class_counts ny nx nz pts ! y ! x ! z)
        = length (map (\<lambda>i. int (tally pts y x z (classes_uniques pts ! i)))
             [0..<length (classes_uniques pts)])"
    using assms(3,4,5) by (simp add: length_class_counts_row)
next
  fix i
  assume "i < length (class_counts ny nx nz pts ! y ! x ! z)"
  then have i: "i < length (classes_uniques pts)"
    using assms(3,4,5) by (simp add: length_class_counts_row)
  have "tally pts y x z (classes_uniques pts ! i) < 2 ^ 31"
    using tally_le_length [of pts y x z "classes_uniques pts ! i"] assms(2) by simp
  then have "int (tally pts y x z (classes_uniques pts ! i)) < int (2 ^ 31)"
    by (simp only: of_nat_less_iff)
  then have "int (tally pts y x z (classes_uniques pts ! i)) < 2 ^ 31"
    by simp
  then have "wrap_int32 (int (tally pts y x z (classes_uniques pts ! i)))
             = int (tally pts y x z (classes_uniques pts ! i))"
    by (simp add: wrap_int32_id)
  with i show "class_counts ny nx nz pts ! y ! x ! z ! i
        = map (\<lambda>i. int (tally pts y x z (classes_uniques pts ! i)))
             [0..<length (classes_uniques pts)] ! i"
    using assms by (simp add: class_counts_nth)
qed

lemma filter_le_1:
  "\<forall>j<length xs. j \<noteq> k \<longrightarrow> \<not> P (xs ! j) \<Longrightarrow> length (filter P xs) \<le> 1"
proof (induction xs arbitrary: k)
  case Nil
  then show ?case by simp
next
  case (Cons a xs)
  have step: "\<not> P (xs ! j)" if "j < length xs" and "Suc j \<noteq> k" for j
  proof -
    from that have "Suc j < length (a # xs)" by simp
    with Cons.prems that(2) have "\<not> P ((a # xs) ! Suc j)" by blast
    then show ?thesis by simp
  qed
  show ?case
  proof (cases k)
    case 0
    then have "\<not> P (xs ! j)" if "j < length xs" for j
      using step [OF that] by simp
    then have "filter P xs = []"
      by (auto simp: filter_empty_conv in_set_conv_nth)
    then show ?thesis by simp
  next
    case (Suc k')
    have "0 < length (a # xs)" by simp
    with Cons.prems Suc have "\<not> P ((a # xs) ! 0)" by blast
    then have "\<not> P a" by simp
    moreover have "\<forall>j<length xs. j \<noteq> k' \<longrightarrow> \<not> P (xs ! j)"
      using step Suc by simp
    then have "length (filter P xs) \<le> 1"
      by (rule Cons.IH)
    ultimately show ?thesis by simp
  qed
qed

lemma filter_ge_2:
  assumes "i < j" and "j < length xs" and "P (xs ! i)" and "P (xs ! j)"
  shows "length (filter P xs) > 1"
proof -
  have xs: "xs = take j xs @ xs ! j # drop (Suc j) xs"
    using assms(2) by (rule id_take_nth_drop)
  have "xs ! i \<in> set (take j xs)"
    using assms(1,2) by (auto simp: in_set_conv_nth intro!: exI [of _ i])
  with assms(3) have "filter P (take j xs) \<noteq> []"
    by (auto simp: filter_empty_conv)
  then have "length (filter P (take j xs)) \<ge> 1"
    by (cases "filter P (take j xs)") auto
  moreover have "filter P xs = filter P (take j xs) @ xs ! j # filter P (drop (Suc j) xs)"
    using assms(4) by (subst xs) simp
  then have "length (filter P xs)
    = length (filter P (take j xs) @ xs ! j # filter P (drop (Suc j) xs))"
    by (rule arg_cong)
  then have "length (filter P xs)
    = length (filter P (take j xs)) + 1 + length (filter P (drop (Suc j) xs))"
    by simp
  ultimately show ?thesis by linarith
qed

lemma filter_ge_2':
  assumes "i \<noteq> j" and "i < length xs" and "j < length xs" and "P (xs ! i)" and "P (xs ! j)"
  shows "length (filter P xs) > 1"
proof (cases "i < j")
  case True
  then show ?thesis
    using assms(3,4,5) by (rule filter_ge_2)
next
  case False
  with assms(1) have "j < i" by simp
  then show ?thesis
    using assms(2,5,4) by (rule filter_ge_2)
qed

lemma sorted_classes_uniques: "sorted (classes_uniques pts)"
  by (simp add: classes_uniques_def)

lemma distinct_classes_uniques: "distinct (classes_uniques pts)"
  by (simp add: classes_uniques_def)

lemma set_classes_uniques: "set (classes_uniques pts) = classe_v ` set pts"
  by (simp add: classes_uniques_def)

lemma tally_pos_iff:
  "0 < tally pts y x z c \<longleftrightarrow> (\<exists>p \<in> set (points_du_voxel pts y x z). classe_v p = c)"
  by (auto simp: tally_def filter_empty_conv)

lemma tally_pos_in_uniques: "0 < tally pts y x z c \<Longrightarrow> c \<in> set (classes_uniques pts)"
  by (auto simp: tally_pos_iff set_classes_uniques points_du_voxel_def)

lemma remaining_tally_alt:
  "remaining_tally pts y x z c =
     (if c = 1 \<and> (\<exists>c'. c' \<noteq> 1 \<and> 0 < tally pts y x z c') then 0 else tally pts y x z c)"
  by (auto simp: remaining_tally_def tally_pos_iff)

lemma ignorer_non_classe_nth:
  fixes uniques :: "nat list" and T :: "nat \<Rightarrow> nat"
  defines "row \<equiv> map (\<lambda>i. int (T (uniques ! i))) [0..<length uniques]"
  assumes d: "distinct uniques"
    and pos_in: "\<And>c. 0 < T c \<Longrightarrow> c \<in> set uniques"
    and i: "i < length uniques"
  shows "ignorer_non_classe uniques row ! i
         = int (if uniques ! i = 1 \<and> (\<exists>c. c \<noteq> 1 \<and> 0 < T c) then 0 else T (uniques ! i))"
proof (cases "filter (\<lambda>i. uniques ! i = 1) [0..<length uniques]")
  case Nil
  then have "uniques ! i \<noteq> 1"
    using i by (auto simp: filter_empty_conv)
  moreover from Nil have "ignorer_non_classe uniques row = row"
    by (simp add: ignorer_non_classe_def)
  ultimately show ?thesis
    using i by (simp add: row_def)
next
  case (Cons idx rest)
  then have "idx \<in> set (filter (\<lambda>i. uniques ! i = 1) [0..<length uniques])"
    by simp
  then have idx: "idx < length uniques" "uniques ! idx = 1"
    by simp_all
  have len: "length row = length uniques"
    by (simp add: row_def)
  have row_nth: "row ! j = int (T (uniques ! j))" if "j < length uniques" for j
    using that by (simp add: row_def)
  have other: "uniques ! j \<noteq> 1" if "j < length uniques" and "j \<noteq> idx" for j
  proof
    assume "uniques ! j = 1"
    with idx(2) have "uniques ! j = uniques ! idx"
      by simp
    with d that(1) idx(1) have "j = idx"
      by (simp only: nth_eq_iff_index_eq)
    with that(2) show False
      by simp
  qed
  let ?M = "length (filter (\<lambda>t. t > 0) row) > 1 \<and> row ! idx > 0"
  have res: "ignorer_non_classe uniques row = (if ?M then row[idx := 0] else row)"
    using Cons by (simp add: ignorer_non_classe_def)
  show ?thesis
  proof (cases "i = idx")
    case False
    from i False have "uniques ! i \<noteq> 1"
      by (rule other)
    with False i show ?thesis
      by (simp add: res row_nth)
  next
    case True
    show ?thesis
    proof (cases ?M)
      case M: True
      have "\<exists>j<length row. j \<noteq> idx \<and> 0 < row ! j"
      proof (rule ccontr)
        assume "\<not> (\<exists>j<length row. j \<noteq> idx \<and> 0 < row ! j)"
        then have "\<forall>j<length row. j \<noteq> idx \<longrightarrow> \<not> 0 < row ! j"
          by blast
        then have "length (filter (\<lambda>t. 0 < t) row) \<le> 1"
          by (rule filter_le_1)
        with M show False
          by simp
      qed
      then obtain j where j: "j < length uniques" "j \<noteq> idx" "0 < row ! j"
        using len by auto
      from j(1,2) have "uniques ! j \<noteq> 1"
        by (rule other)
      moreover from j have "0 < T (uniques ! j)"
        by (simp add: row_nth)
      ultimately have "\<exists>c. c \<noteq> 1 \<and> 0 < T c"
        by blast
      with M True idx show ?thesis
        by (simp add: res len)
    next
      case notM: False
      have "T 1 = 0" if ex: "\<exists>c. c \<noteq> 1 \<and> 0 < T c"
      proof (rule ccontr)
        assume "T 1 \<noteq> 0"
        then have p1: "0 < row ! idx"
          using idx by (simp add: row_nth)
        from ex obtain c where c: "c \<noteq> 1" "0 < T c"
          by blast
        then have "c \<in> set uniques"
          by (simp add: pos_in)
        then obtain j where j: "j < length uniques" "uniques ! j = c"
          by (auto simp: in_set_conv_nth)
        with c idx have "j \<noteq> idx"
          by auto
        moreover from j c have "0 < row ! j"
          by (simp add: row_nth)
        ultimately have "length (filter (\<lambda>t. 0 < t) row) > 1"
          using j(1) idx(1) p1 len filter_ge_2' [of j idx row "\<lambda>t. 0 < t"] by simp
        with p1 notM show False
          by simp
      qed
      with notM True idx show ?thesis
        by (auto simp add: res row_nth)
    qed
  qed
qed

lemma length_ignorer_non_classe: "length (ignorer_non_classe uniques row) = length row"
  by (simp add: ignorer_non_classe_def split: list.split)

lemma classe_majoritaire_nth:
  assumes "y < nat ny" and "x < nat nx" and "z < nat nz"
  shows "classe_majoritaire ny nx nz pts ! y ! x ! z
         = classes_uniques pts
             ! np_argmax (ignorer_non_classe (classes_uniques pts) (class_counts ny nx nz pts ! y ! x ! z))"
proof -
  have "has_shape (class_counts ny nx nz pts) (nat ny) (nat nx) (nat nz)"
    unfolding class_counts_def by (rule has_shape_tabulate3)
  then show ?thesis
    unfolding classe_majoritaire_def using assms by (rule nth_map3)
qed

lemma classe_majoritaire_spec:
  assumes v: "\<forall>p \<in> set pts. valid ny nx nz p" and small: "length pts < 2 ^ 31"
    and r: "y < nat ny" "x < nat nx" "z < nat nz"
    and ne: "classes_uniques pts \<noteq> []"
  defines "sel \<equiv> classe_majoritaire ny nx nz pts ! y ! x ! z"
  shows "sel \<in> set (classes_uniques pts)"
    and "\<forall>c \<in> set (classes_uniques pts).
           remaining_tally pts y x z c \<le> remaining_tally pts y x z sel"
    and "\<forall>c \<in> set (classes_uniques pts).
           remaining_tally pts y x z c = remaining_tally pts y x z sel \<longrightarrow> sel \<le> c"
proof -
  let ?u = "classes_uniques pts"
  let ?row = "map (\<lambda>i. int (tally pts y x z (?u ! i))) [0..<length ?u]"
  let ?row' = "ignorer_non_classe ?u ?row"
  let ?a = "np_argmax ?row'"
  have row: "class_counts ny nx nz pts ! y ! x ! z = ?row"
    using v small r by (rule class_counts_row)
  have sel: "sel = ?u ! ?a"
    unfolding sel_def using r by (simp add: classe_majoritaire_nth row)
  have len: "length ?row' = length ?u"
    by (simp add: length_ignorer_non_classe)
  have nth: "?row' ! i = int (remaining_tally pts y x z (?u ! i))" if "i < length ?u" for i
    using ignorer_non_classe_nth [of ?u "tally pts y x z" i, OF distinct_classes_uniques
        tally_pos_in_uniques that]
    by (simp add: remaining_tally_alt)
  from ne len have ne': "?row' \<noteq> []"
    by auto
  have a: "?a < length ?u"
    using np_argmax_spec(1) [OF ne'] len by simp
  have le: "?row' ! j \<le> ?row' ! ?a" if "j < length ?u" for j
    using np_argmax_spec(2) [OF ne'] len that by simp
  have lt: "?row' ! j < ?row' ! ?a" if "j < ?a" for j
    using np_argmax_spec(3) [OF ne'] that by simp
  show "sel \<in> set ?u"
    using a sel by simp
  show "\<forall>c \<in> set ?u. remaining_tally pts y x z c \<le> remaining_tally pts y x z sel"
  proof
    fix c assume "c \<in> set ?u"
    then obtain j where j: "j < length ?u" "?u ! j = c"
      by (auto simp: in_set_conv_nth)
    from le [OF j(1)] have "int (remaining_tally pts y x z (?u ! j))
        \<le> int (remaining_tally pts y x z (?u ! ?a))"
      using nth [OF j(1)] nth [OF a] by simp
    with j sel show "remaining_tally pts y x z c \<le> remaining_tally pts y x z sel"
      by simp
  qed
  show "\<forall>c \<in> set ?u. remaining_tally pts y x z c = remaining_tally pts y x z sel \<longrightarrow> sel \<le> c"
  proof (intro ballI impI)
    fix c assume "c \<in> set ?u"
      and eq: "remaining_tally pts y x z c = remaining_tally pts y x z sel"
    then obtain j where j: "j < length ?u" "?u ! j = c"
      by (auto simp: in_set_conv_nth)
    have "\<not> j < ?a"
    proof
      assume "j < ?a"
      from lt [OF this] have "int (remaining_tally pts y x z (?u ! j))
        < int (remaining_tally pts y x z (?u ! ?a))"
        using nth [OF j(1)] nth [OF a] by simp
      with j sel eq show False
        by simp
    qed
    then have "?a \<le> j"
      by simp
    then have "?u ! ?a \<le> ?u ! j"
      using sorted_classes_uniques j(1) by (simp add: sorted_nth_mono)
    with j sel show "sel \<le> c"
      by simp
  qed
qed

lemma points_du_voxel_valid:
  assumes "y < nat ny" and "x < nat nx" and "z < nat nz"
  shows "points_du_voxel (filter (valid ny nx nz) points) y x z = points_du_voxel points y x z"
proof -
  have "(valid ny nx nz p \<and> iy_v p = int y \<and> ix_v p = int x \<and> iz_v p = int z)
      = (iy_v p = int y \<and> ix_v p = int x \<and> iz_v p = int z)" for p
    using assms by (auto simp: valid_def)
  then show ?thesis
    by (simp add: points_du_voxel_def)
qed

lemma remaining_tally_valid:
  assumes "y < nat ny" and "x < nat nx" and "z < nat nz"
  shows "remaining_tally (filter (valid ny nx nz) points) y x z c = remaining_tally points y x z c"
  unfolding remaining_tally_def tally_def points_du_voxel_valid [OF assms] ..

lemma LIDAR_couches_Inr:
  assumes "1 \<le> ny" and "1 \<le> nx" and "1 \<le> nz"
    and "classes_uniques (filter (valid ny nx nz) points) \<noteq> []"
  shows "LIDAR_couches histogramdd ny nx nz points densite_min =
    Inr (map (map (map (\<lambda>c. if c < densite_min then 0 else c)))
           (histogramdd (filter (valid ny nx nz) points)),
         tabulate3 (nat ny) (nat nx) (nat nz)
           (\<lambda>y x z. if histogramdd (filter (valid ny nx nz) points) ! y ! x ! z < densite_min
                     then 0
                     else classe_majoritaire ny nx nz (filter (valid ny nx nz) points) ! y ! x ! z))"
  using assms by (simp add: LIDAR_couches_def Let_def)

lemma classes_uniques_nonempty: "p \<in> set pts \<Longrightarrow> classes_uniques pts \<noteq> []"
proof -
  assume "p \<in> set pts"
  then have "classe_v p \<in> set (classes_uniques pts)"
    by (simp add: set_classes_uniques)
  then show ?thesis
    by auto
qed

text \<open>
  C3.  Take a voxel \<open>(y, x, z)\<close> of the grid that holds a point of class 1 and a point
  of another class (fewer than \<open>2^31\<close> points in the sample, so that no \<open>int32\<close> tally
  wraps).  The voxelizer returns, and the class it selects for the voxel before the
  density threshold is not 1: it is a class with the highest remaining tally (the
  tally of class 1 counted as zero), the lowest one among those.  The class returned
  for the voxel is that class, or 0 where the density threshold resets the voxel; it
  is never 1.
\<close>

theorem unclassified_suppressed:
  assumes small: "length (filter (valid ny nx nz) points) < 2 ^ 31"
    and r: "y < nat ny" "x < nat nx" "z < nat nz"
    and p1: "p1 \<in> set (points_du_voxel points y x z)" "classe_v p1 = 1"
    and p2: "p2 \<in> set (points_du_voxel points y x z)" "classe_v p2 \<noteq> 1"
  shows "\<exists>counts class_maj sel.
           LIDAR_couches histogramdd ny nx nz points densite_min = Inr (counts, class_maj)
         \<and> sel = classe_majoritaire ny nx nz (filter (valid ny nx nz) points) ! y ! x ! z
         \<and> sel \<noteq> 1
         \<and> (\<forall>c. remaining_tally points y x z c \<le> remaining_tally points y x z sel)
         \<and> (\<forall>c. remaining_tally points y x z c = remaining_tally points y x z sel
                  \<longrightarrow> sel \<le> c)
         \<and> class_maj ! y ! x ! z
             = (if histogramdd (filter (valid ny nx nz) points) ! y ! x ! z < densite_min
                then 0 else sel)
         \<and> class_maj ! y ! x ! z \<noteq> 1"
proof -
  let ?pts = "filter (valid ny nx nz) points"
  let ?u = "classes_uniques ?pts"
  let ?sel = "classe_majoritaire ny nx nz ?pts ! y ! x ! z"
  let ?R = "remaining_tally points y x z"
  have v: "\<forall>p \<in> set ?pts. valid ny nx nz p"
    by simp
  have pv: "points_du_voxel ?pts y x z = points_du_voxel points y x z"
    using r by (rule points_du_voxel_valid)
  from p1(1) have "p1 \<in> set ?pts"
    unfolding pv [symmetric] by (simp add: points_du_voxel_def)
  then have ne: "?u \<noteq> []"
    by (rule classes_uniques_nonempty)
  have R: "remaining_tally ?pts y x z c = ?R c" for c
    using r by (rule remaining_tally_valid)
  have sel_in: "?sel \<in> set ?u"
    using classe_majoritaire_spec(1) [OF v small r ne] .
  have sel_max: "?R c \<le> ?R ?sel" if "c \<in> set ?u" for c
    using classe_majoritaire_spec(2) [OF v small r ne] that by (simp add: R)
  have sel_min: "?sel \<le> c" if "c \<in> set ?u" and "?R c = ?R ?sel" for c
    using classe_majoritaire_spec(3) [OF v small r ne] that by (simp add: R)
  have in_u: "c \<in> set ?u" if "0 < ?R c" for c
  proof -
    from that have "0 < tally points y x z c"
      by (simp add: remaining_tally_def split: if_splits)
    then have "0 < tally ?pts y x z c"
      by (simp add: tally_def pv)
    then show ?thesis
      by (rule tally_pos_in_uniques)
  qed
  have R1: "?R 1 = 0"
    using p2 by (auto simp: remaining_tally_def)
  have "0 < tally points y x z (classe_v p2)"
    using p2(1) by (auto simp: tally_pos_iff)
  with p2(2) have R2: "0 < ?R (classe_v p2)"
    by (simp add: remaining_tally_def)
  from sel_max [OF in_u [OF R2]] R2 have pos: "0 < ?R ?sel"
    by simp
  with R1 have sel1: "?sel \<noteq> 1"
    by auto
  have all_max: "?R c \<le> ?R ?sel" for c
  proof (cases "0 < ?R c")
    case True
    then show ?thesis
      using sel_max in_u by simp
  next
    case False
    then show ?thesis
      by simp
  qed
  have all_min: "?sel \<le> c" if "?R c = ?R ?sel" for c
  proof -
    from that pos have "0 < ?R c"
      by simp
    then have "c \<in> set ?u"
      by (rule in_u)
    then show ?thesis
      using that by (rule sel_min)
  qed
  from r have dims: "1 \<le> ny" "1 \<le> nx" "1 \<le> nz"
    by simp_all
  let ?cm = "tabulate3 (nat ny) (nat nx) (nat nz)
           (\<lambda>y x z. if histogramdd ?pts ! y ! x ! z < densite_min then 0
                     else classe_majoritaire ny nx nz ?pts ! y ! x ! z)"
  have cm: "?cm ! y ! x ! z = (if histogramdd ?pts ! y ! x ! z < densite_min then 0 else ?sel)"
    using r by (simp add: nth_tabulate3)
  with sel1 have cm1: "?cm ! y ! x ! z \<noteq> 1"
    by simp
  show ?thesis
    using LIDAR_couches_Inr [OF dims ne, of histogramdd densite_min] sel1 all_max all_min cm cm1
    by blast
qed

text \<open>
  A voxel with two points of class 1 and one of class 6: the class returned is not 1.
\<close>

theorem unclassified_suppressed_witness:
  "length (filter (valid 1 2 1) points_exemple) < 2 ^ 31
   \<and> (0 :: nat) < nat 1 \<and> (0 :: nat) < nat 2
   \<and> \<lparr>iy_v = 0, ix_v = 0, iz_v = 0, classe_v = 1\<rparr> \<in> set (points_du_voxel points_exemple 0 0 0)
   \<and> \<lparr>iy_v = 0, ix_v = 0, iz_v = 0, classe_v = 6\<rparr> \<in> set (points_du_voxel points_exemple 0 0 0)
   \<and> (\<exists>counts class_maj.
         LIDAR_couches histogramme_exemple 1 2 1 points_exemple 1 = Inr (counts, class_maj)
         \<and> class_maj ! 0 ! 0 ! 0 \<noteq> 1)"
proof -
  let ?p1 = "\<lparr>iy_v = 0, ix_v = 0, iz_v = 0, classe_v = 1\<rparr>"
  let ?p2 = "\<lparr>iy_v = 0, ix_v = 0, iz_v = 0, classe_v = 6\<rparr>"
  have h1: "length (filter (valid 1 2 1) points_exemple) < 2 ^ 31"
    by (simp add: points_exemple_def valid_def)
  have h2: "(0 :: nat) < nat 1" and h3: "(0 :: nat) < nat 2"
    by simp_all
  have h4: "?p1 \<in> set (points_du_voxel points_exemple 0 0 0)"
    by (simp add: points_exemple_def points_du_voxel_def)
  have h5: "classe_v ?p1 = 1"
    by simp
  have h6: "?p2 \<in> set (points_du_voxel points_exemple 0 0 0)"
    by (simp add: points_exemple_def points_du_voxel_def)
  have h7: "classe_v ?p2 \<noteq> 1"
    by simp
  from unclassified_suppressed [OF h1 h2 h3 h2 h4 h5 h6 h7, of histogramme_exemple 1]
  have "\<exists>counts class_maj.
         LIDAR_couches histogramme_exemple 1 2 1 points_exemple 1 = Inr (counts, class_maj)
         \<and> class_maj ! 0 ! 0 ! 0 \<noteq> 1"
    by blast
  with h1 h2 h3 h4 h6 show ?thesis
    by blast
qed

text \<open>
  C4.  For a density threshold of at least 1 and a sample with a point inside the grid,
  the voxelizer returns, and in the grid it returns every voxel whose count of points
  (the histogram's) is below the threshold has count 0 and class 0; so does every
  voxel whose returned count is below the threshold.
\<close>

theorem density_threshold:
  assumes dm: "1 \<le> densite_min"
    and sh: "has_shape (histogramdd (filter (valid ny nx nz) points)) (nat ny) (nat nx) (nat nz)"
    and p: "p \<in> set points" "valid ny nx nz p"
    and r: "y < nat ny" "x < nat nx" "z < nat nz"
  shows "\<exists>counts class_maj.
           LIDAR_couches histogramdd ny nx nz points densite_min = Inr (counts, class_maj)
         \<and> (histogramdd (filter (valid ny nx nz) points) ! y ! x ! z < densite_min
              \<longrightarrow> counts ! y ! x ! z = 0 \<and> class_maj ! y ! x ! z = 0)
         \<and> (counts ! y ! x ! z < densite_min
              \<longrightarrow> counts ! y ! x ! z = 0 \<and> class_maj ! y ! x ! z = 0)"
proof -
  let ?pts = "filter (valid ny nx nz) points"
  let ?h = "histogramdd ?pts"
  let ?c = "map (map (map (\<lambda>c. if c < densite_min then 0 else c))) ?h"
  let ?cm = "tabulate3 (nat ny) (nat nx) (nat nz)
           (\<lambda>y x z. if ?h ! y ! x ! z < densite_min then 0
                     else classe_majoritaire ny nx nz ?pts ! y ! x ! z)"
  from p have "p \<in> set ?pts"
    by simp
  then have ne: "classes_uniques ?pts \<noteq> []"
    by (rule classes_uniques_nonempty)
  from r have dims: "1 \<le> ny" "1 \<le> nx" "1 \<le> nz"
    by simp_all
  have c: "?c ! y ! x ! z = (if ?h ! y ! x ! z < densite_min then 0 else ?h ! y ! x ! z)"
    using sh r by (rule nth_map3)
  have cm: "?cm ! y ! x ! z = (if ?h ! y ! x ! z < densite_min then 0
                               else classe_majoritaire ny nx nz ?pts ! y ! x ! z)"
    using r by (simp add: nth_tabulate3)
  have "(?h ! y ! x ! z < densite_min \<longrightarrow> ?c ! y ! x ! z = 0 \<and> ?cm ! y ! x ! z = 0)
      \<and> (?c ! y ! x ! z < densite_min \<longrightarrow> ?c ! y ! x ! z = 0 \<and> ?cm ! y ! x ! z = 0)"
    unfolding c cm using dm by auto
  with LIDAR_couches_Inr [OF dims ne, of histogramdd densite_min] show ?thesis
    by blast
qed

text \<open>
  With a threshold of 2, the voxel \<open>(0, 1, 0)\<close> of the example, which holds one point,
  ends with count 0 and class 0.
\<close>

theorem density_threshold_witness:
  "(1 :: int) \<le> 2
   \<and> has_shape (histogramme_exemple (filter (valid 1 2 1) points_exemple)) (nat 1) (nat 2) (nat 1)
   \<and> \<lparr>iy_v = 0, ix_v = 1, iz_v = 0, classe_v = 2\<rparr> \<in> set points_exemple
   \<and> valid 1 2 1 \<lparr>iy_v = 0, ix_v = 1, iz_v = 0, classe_v = 2\<rparr>
   \<and> (0 :: nat) < nat 1 \<and> (1 :: nat) < nat 2
   \<and> (\<exists>counts class_maj.
         LIDAR_couches histogramme_exemple 1 2 1 points_exemple 2 = Inr (counts, class_maj)
         \<and> counts ! 0 ! 1 ! 0 = 0 \<and> class_maj ! 0 ! 1 ! 0 = 0)"
proof -
  let ?p = "\<lparr>iy_v = 0, ix_v = 1, iz_v = 0, classe_v = 2\<rparr>"
  have h1: "(1 :: int) \<le> 2"
    by simp
  have h2: "has_shape (histogramme_exemple (filter (valid 1 2 1) points_exemple))
              (nat 1) (nat 2) (nat 1)"
    by (simp add: histogramme_exemple_def has_shape_def)
  have h3: "?p \<in> set points_exemple"
    by (simp add: points_exemple_def)
  have h4: "valid 1 2 1 ?p"
    by (simp add: valid_def)
  have h5: "(0 :: nat) < nat 1" and h6: "(1 :: nat) < nat 2"
    by simp_all
  have lt: "histogramme_exemple (filter (valid 1 2 1) points_exemple) ! 0 ! 1 ! 0 < 2"
    by (simp add: histogramme_exemple_def)
  from density_threshold [where histogramdd = histogramme_exemple and points = points_exemple
      and ny = 1 and nx = 2 and nz = 1 and densite_min = 2, OF h1 h2 h3 h4 h5 h6 h5] lt
  have "\<exists>counts class_maj.
         LIDAR_couches histogramme_exemple 1 2 1 points_exemple 2 = Inr (counts, class_maj)
         \<and> counts ! 0 ! 1 ! 0 = 0 \<and> class_maj ! 0 ! 1 ! 0 = 0"
    by blast
  with h1 h2 h3 h4 h5 h6 show ?thesis
    by blast
qed

section \<open>Properties of the cost estimator\<close>

lemma junction_nonneg: "0 \<le> junction lo hi edge"
  by (simp add: junction_def)

lemma p3_neighbor_nonneg: "0 \<le> penalty \<Longrightarrow> 0 \<le> p3_neighbor b n penalty"
  by (auto simp: p3_neighbor_def junction_nonneg split: prod.splits intro!: add_nonneg_nonneg)

lemma fold_nonneg:
  assumes "\<And>x acc. 0 \<le> acc \<Longrightarrow> 0 \<le> f x acc" and "0 \<le> (a :: real)"
  shows "0 \<le> fold f xs a"
  using assms(2) by (induction xs arbitrary: a) (simp_all add: assms(1))

lemma p3_nonneg: "0 \<le> horizontal_alignment_penalty_fast layer_bricks grid current_z"
  unfolding horizontal_alignment_penalty_fast_def
  by (intro fold_nonneg p3_neighbor_nonneg) simp_all

lemma fold_add_sum_list:
  "fold (\<lambda>x (t :: real). t + f x) xs a = a + sum_list (map f xs)"
  by (induction xs arbitrary: a) simp_all

lemma layer_cost_nonneg: "0 \<le> layer_cost bricks 1 1 1 layer_idx"
  by (simp add: layer_cost_def Let_def p3_nonneg add_nonneg_nonneg)

text \<open>
  C8.  \<open>total_cost_function\<close> returns 0 for the empty brick list; with the weights
  \<open>C1 = C2 = C3 = 1\<close> its result is never negative; and for all weights the result is
  the sum over the layers, in ascending order, of \<open>C1 * P1 + C2 * P2\<close>, counted only
  when the layer immediately below holds a brick, plus \<open>C3 * P3\<close>.
\<close>

theorem total_cost:
  "total_cost_function [] C1 C2 C3 = 0
   \<and> 0 \<le> total_cost_function bricks 1 1 1
   \<and> total_cost_function bricks C1 C2 C3
       = (\<Sum>layer_idx \<leftarrow> layer_keys bricks.
            (if layer_idx - 1 \<in> set (layer_keys bricks)
             then C1 * real (perpendicularity_penalty_fast
                               (filter (\<lambda>b. layer_b (snd b) = layer_idx) bricks)
                               (build_grid_map bricks) layer_idx)
                  + C2 * real (vertical_boundary_penalty_fast
                                 (filter (\<lambda>b. layer_b (snd b) = layer_idx) bricks)
                                 (build_grid_map bricks) layer_idx)
             else 0)
            + C3 * horizontal_alignment_penalty_fast
                     (filter (\<lambda>b. layer_b (snd b) = layer_idx) bricks)
                     (build_grid_map bricks) layer_idx)"
proof (intro conjI)
  show "total_cost_function [] C1 C2 C3 = 0"
    by (simp add: total_cost_function_def)
  have sum: "total_cost_function bs D1 D2 D3
      = sum_list (map (layer_cost bs D1 D2 D3) (layer_keys bs))" for bs D1 D2 D3
    by (simp add: total_cost_function_def fold_add_sum_list layer_keys_def)
  show "0 \<le> total_cost_function bricks 1 1 1"
    unfolding sum by (intro sum_list_nonneg) (auto simp: layer_cost_nonneg)
  have lc: "layer_cost bricks C1 C2 C3 =
     (\<lambda>layer_idx.
            (if layer_idx - 1 \<in> set (layer_keys bricks)
             then C1 * real (perpendicularity_penalty_fast
                               (filter (\<lambda>b. layer_b (snd b) = layer_idx) bricks)
                               (build_grid_map bricks) layer_idx)
                  + C2 * real (vertical_boundary_penalty_fast
                                 (filter (\<lambda>b. layer_b (snd b) = layer_idx) bricks)
                                 (build_grid_map bricks) layer_idx)
             else 0)
            + C3 * horizontal_alignment_penalty_fast
                     (filter (\<lambda>b. layer_b (snd b) = layer_idx) bricks)
                     (build_grid_map bricks) layer_idx)"
    by (rule ext) (simp add: layer_cost_def Let_def)
  show "total_cost_function bricks C1 C2 C3
       = (\<Sum>layer_idx \<leftarrow> layer_keys bricks.
            (if layer_idx - 1 \<in> set (layer_keys bricks)
             then C1 * real (perpendicularity_penalty_fast
                               (filter (\<lambda>b. layer_b (snd b) = layer_idx) bricks)
                               (build_grid_map bricks) layer_idx)
                  + C2 * real (vertical_boundary_penalty_fast
                                 (filter (\<lambda>b. layer_b (snd b) = layer_idx) bricks)
                                 (build_grid_map bricks) layer_idx)
             else 0)
            + C3 * horizontal_alignment_penalty_fast
                     (filter (\<lambda>b. layer_b (snd b) = layer_idx) bricks)
                     (build_grid_map bricks) layer_idx)"
    by (simp only: sum lc)
qed

text \<open>
  A 1x4 brick laid on two 1x2 bricks of the same orientation, with a 1x2 brick beside
  it: \<open>P1 = 2\<close>, \<open>P2 = 2\<close> and \<open>P3 = 1\<close> on the upper layer, nothing on the lower one.
\<close>

theorem total_cost_witness:
  "total_cost_function [] 1 1 1 = 0
   \<and> 0 \<le> total_cost_function briques_exemple 1 1 1
   \<and> total_cost_function briques_exemple 1 1 1 = 5"
proof -
  have "total_cost_function briques_exemple 1 1 1 = 5"
    by code_simp
  with total_cost [of 1 1 1 briques_exemple] show ?thesis
    by simp
qed

section \<open>Properties of the ground filter\<close>

lemma adjacency_eq: "adjacency G = set (g_edges G) \<union> (set (g_edges G))\<inverse>"
  by (force simp: adjacency_def adj_def)

lemma finite_adjacency: "finite (adjacency G)"
  by (simp add: adjacency_eq)

lemma sym_adjacency: "sym (adjacency G)"
  by (auto simp: adjacency_eq sym_def)

lemma finite_reach: "finite ((adjacency G)\<^sup>* `` {v})"
proof -
  have "(adjacency G)\<^sup>* `` {v} \<subseteq> insert v (Range (adjacency G))"
    by (auto elim: rtranclE)
  moreover have "finite (insert v (Range (adjacency G)))"
    by (simp add: finite_Range [OF finite_adjacency])
  ultimately show ?thesis
    by (rule finite_subset)
qed

lemma plain_bfs_eq: "plain_bfs G v = (adjacency G)\<^sup>* `` {v}"
proof -
  have fin: "finite ({(x, y). y \<in> set (adj G x)}\<^sup>* `` {v})"
    using finite_reach [of G v] by (simp add: adjacency_def)
  then obtain r where r: "rtrancl_while (\<lambda>v. True) (adj G) v = Some r"
    using rtrancl_while_finite_Some [of "adj G" v "\<lambda>v. True"] by blast
  obtain ws Z where wz: "r = (ws, Z)"
    by (cases r)
  from rtrancl_while_Some [of "\<lambda>v. True" "adj G" v ws Z] r wz
  have "Z = {(x, y). y \<in> set (adj G x)}\<^sup>* `` {v}"
    by (auto split: if_splits)
  with r wz show ?thesis
    by (simp add: plain_bfs_def adjacency_def)
qed

lemma plain_bfs_self: "v \<in> plain_bfs G v"
  by (simp add: plain_bfs_eq)

lemma plain_bfs_closed:
  assumes "a \<in> plain_bfs G v" and "(a, b) \<in> adjacency G"
  shows "b \<in> plain_bfs G v"
  using assms by (auto simp: plain_bfs_eq intro: rtrancl_into_rtrancl)

lemma plain_bfs_sym: "a \<in> plain_bfs G v \<Longrightarrow> v \<in> plain_bfs G a"
proof -
  assume "a \<in> plain_bfs G v"
  then have "(v, a) \<in> (adjacency G)\<^sup>*"
    by (simp add: plain_bfs_eq)
  then have "(a, v) \<in> (adjacency G)\<^sup>*"
    using sym_adjacency [of G] by (simp add: sym_rtrancl symD)
  then show ?thesis
    by (simp add: plain_bfs_eq)
qed

lemma plain_bfs_trans:
  assumes "a \<in> plain_bfs G v" and "b \<in> plain_bfs G a"
  shows "b \<in> plain_bfs G v"
  using assms by (auto simp: plain_bfs_eq)

lemma plain_bfs_same:
  assumes "n \<in> plain_bfs G v" and "n \<in> plain_bfs G u"
  shows "plain_bfs G v = plain_bfs G u"
proof -
  from assms have vu: "u \<in> plain_bfs G v"
    by (blast intro: plain_bfs_trans plain_bfs_sym)
  then have uv: "v \<in> plain_bfs G u"
    by (rule plain_bfs_sym)
  show ?thesis
  proof
    show "plain_bfs G v \<subseteq> plain_bfs G u"
      using uv by (blast intro: plain_bfs_trans)
    show "plain_bfs G u \<subseteq> plain_bfs G v"
      using vu by (blast intro: plain_bfs_trans)
  qed
qed

lemma components_loop_subset:
  "c \<in> set (components_loop G vs seen) \<Longrightarrow> \<exists>v \<in> set vs. c = plain_bfs G v"
  by (induction vs arbitrary: seen) (auto split: if_splits)

lemma connected_components_bfs:
  "c \<in> set (connected_components G) \<Longrightarrow> \<exists>v \<in> set (node_ids G). c = plain_bfs G v"
  unfolding connected_components_def by (rule components_loop_subset)

lemma adjacency_subgraph:
  "adjacency (subgraph G S) = {(a, b). (a, b) \<in> adjacency G \<and> a \<in> S \<and> b \<in> S}"
  by (auto simp: adjacency_eq subgraph_def)

lemma node_ids_subgraph: "set (node_ids (subgraph G S)) = set (node_ids G) \<inter> S"
  by (auto simp: node_ids_def subgraph_def)

lemma nodes_sol_subgraph:
  "set (nodes_sol (subgraph G S) class_sol) = set (nodes_sol G class_sol) \<inter> S"
  by (auto simp: nodes_sol_def subgraph_def)

lemma reach_in_closed_subgraph:
  assumes closed: "\<And>a b. a \<in> S \<Longrightarrow> (a, b) \<in> adjacency G \<Longrightarrow> b \<in> S"
    and "(v, w) \<in> (adjacency G)\<^sup>*" and "v \<in> S"
  shows "(v, w) \<in> (adjacency (subgraph G S))\<^sup>* \<and> w \<in> S"
  using assms(2)
proof (induction rule: rtrancl_induct)
  case base
  show ?case using assms(3) by simp
next
  case (step y z)
  then have "y \<in> S" and "(v, y) \<in> (adjacency (subgraph G S))\<^sup>*"
    by simp_all
  moreover from \<open>y \<in> S\<close> step.hyps(2) have "z \<in> S"
    by (rule closed)
  moreover from \<open>y \<in> S\<close> \<open>z \<in> S\<close> step.hyps(2) have "(y, z) \<in> adjacency (subgraph G S)"
    by (simp add: adjacency_subgraph)
  ultimately show ?case
    by (auto intro: rtrancl_into_rtrancl)
qed

lemma graphe_filtre_sol_alt:
  "graphe_filtre_sol G class_sol = subgraph G (nodes_valides G class_sol)"
  by (simp add: graphe_filtre_sol_def)

lemma nodes_valides_D:
  assumes "n \<in> nodes_valides G class_sol"
  shows "\<exists>u s. n \<in> plain_bfs G u \<and> s \<in> plain_bfs G u \<and> s \<in> set (nodes_sol G class_sol)
            \<and> plain_bfs G u \<subseteq> nodes_valides G class_sol"
proof -
  from assms obtain c where c: "c \<in> set (connected_components G)"
    "\<exists>s \<in> c. s \<in> set (nodes_sol G class_sol)" "n \<in> c"
    by (auto simp: nodes_valides_def Let_def)
  then have "c \<subseteq> nodes_valides G class_sol"
    by (auto simp: nodes_valides_def Let_def)
  moreover from c(1) obtain u where "c = plain_bfs G u"
    using connected_components_bfs by blast
  ultimately show ?thesis
    using c(2,3) by blast
qed

lemma nodes_valides_closed:
  assumes "a \<in> nodes_valides G class_sol" and "(a, b) \<in> adjacency G"
  shows "b \<in> nodes_valides G class_sol"
proof -
  from nodes_valides_D [OF assms(1)] obtain u where
    "a \<in> plain_bfs G u" and sub: "plain_bfs G u \<subseteq> nodes_valides G class_sol"
    by blast
  then have "b \<in> plain_bfs G u"
    using assms(2) by (blast intro: plain_bfs_closed)
  with sub show ?thesis
    by blast
qed

text \<open>
  C7.  Every connected component of the graph that \<open>graphe_filtre_sol\<close> returns holds
  a node of the ground class, and every connected component of the input graph without
  a node of the ground class has no node left in the graph returned.
\<close>

theorem ground_filter:
  "(\<forall>c \<in> set (connected_components (graphe_filtre_sol G class_sol)).
      \<exists>n \<in> c. n \<in> set (nodes_sol (graphe_filtre_sol G class_sol) class_sol))
   \<and> (\<forall>c \<in> set (connected_components G).
        (\<forall>n \<in> c. n \<notin> set (nodes_sol G class_sol))
        \<longrightarrow> c \<inter> set (node_ids (graphe_filtre_sol G class_sol)) = {})"
proof (intro conjI ballI impI)
  let ?S = "nodes_valides G class_sol"
  let ?R = "graphe_filtre_sol G class_sol"
  fix c
  assume "c \<in> set (connected_components ?R)"
  then obtain v where v: "v \<in> set (node_ids ?R)" and c: "c = plain_bfs ?R v"
    using connected_components_bfs by blast
  from v have vS: "v \<in> ?S"
    by (simp add: graphe_filtre_sol_alt node_ids_subgraph)
  from nodes_valides_D [OF vS] obtain u s where
    u: "v \<in> plain_bfs G u" "s \<in> plain_bfs G u" and s: "s \<in> set (nodes_sol G class_sol)"
    and sub: "plain_bfs G u \<subseteq> ?S"
    by blast
  from u have "s \<in> plain_bfs G v"
    by (blast intro: plain_bfs_trans plain_bfs_sym)
  then have "(v, s) \<in> (adjacency G)\<^sup>*"
    by (simp add: plain_bfs_eq)
  with nodes_valides_closed [of _ G class_sol] vS
  have "(v, s) \<in> (adjacency (subgraph G ?S))\<^sup>* \<and> s \<in> ?S"
    by (intro reach_in_closed_subgraph) auto
  then have "s \<in> c" and "s \<in> set (nodes_sol ?R class_sol)"
    using s by (simp_all add: c plain_bfs_eq graphe_filtre_sol_alt nodes_sol_subgraph)
  then show "\<exists>n \<in> c. n \<in> set (nodes_sol ?R class_sol)"
    by blast
next
  let ?S = "nodes_valides G class_sol"
  fix c
  assume c: "c \<in> set (connected_components G)"
    and nosol: "\<forall>n \<in> c. n \<notin> set (nodes_sol G class_sol)"
  from c obtain v where cv: "c = plain_bfs G v"
    using connected_components_bfs by blast
  have "c \<inter> ?S = {}"
  proof (rule ccontr)
    assume "c \<inter> ?S \<noteq> {}"
    then obtain n where n: "n \<in> c" "n \<in> ?S"
      by blast
    from nodes_valides_D [OF n(2)] obtain u s where
      "n \<in> plain_bfs G u" "s \<in> plain_bfs G u" "s \<in> set (nodes_sol G class_sol)"
      by blast
    moreover from this(1) n(1) have "plain_bfs G v = plain_bfs G u"
      unfolding cv by (intro plain_bfs_same)
    ultimately show False
      using nosol cv by blast
  qed
  then show "c \<inter> set (node_ids (graphe_filtre_sol G class_sol)) = {}"
    by (auto simp: graphe_filtre_sol_alt node_ids_subgraph)
qed

text \<open>
  A ground voxel under a building voxel, and a floating cluster of five voxels: the
  filter keeps the first component and removes the five voxels of the cluster.
\<close>

theorem ground_filter_witness:
  "connected_components (graphe_filtre_sol graphe_exemple 2) = [{0, 1}]
   \<and> (\<exists>n \<in> {0, 1}. n \<in> set (nodes_sol (graphe_filtre_sol graphe_exemple 2) 2))
   \<and> {2, 3, 4, 5, 6} \<in> set (connected_components graphe_exemple)
   \<and> {2, 3, 4, 5, 6} \<inter> set (node_ids (graphe_filtre_sol graphe_exemple 2)) = {}
   \<and> node_ids (graphe_filtre_sol graphe_exemple 2) = [0, 1]"
proof -
  have r: "connected_components (graphe_filtre_sol graphe_exemple 2) = [{0, 1}]"
    by code_simp
  have c: "connected_components graphe_exemple = [{0, 1}, {2, 3, 4, 5, 6}]"
    by code_simp
  have s: "nodes_sol graphe_exemple 2 = [0]"
    by code_simp
  have ids: "node_ids (graphe_filtre_sol graphe_exemple 2) = [0, 1]"
    by code_simp
  from ground_filter [of graphe_exemple 2]
  have "(\<exists>n \<in> {0, 1}. n \<in> set (nodes_sol (graphe_filtre_sol graphe_exemple 2) 2))
    \<and> {2, 3, 4, 5, 6} \<inter> set (node_ids (graphe_filtre_sol graphe_exemple 2)) = {}"
    unfolding r c s by simp
  with r c ids show ?thesis
    by simp
qed

section \<open>Properties of the conversion of a grid to a graph and back\<close>

lemma has_shape_iff:
  "has_shape a n1 n2 n3 \<longleftrightarrow>
     length a = n1 \<and> (\<forall>i<n1. length (a ! i) = n2 \<and> (\<forall>j<n2. length (a ! i ! j) = n3))"
proof
  assume h: "has_shape a n1 n2 n3"
  show "length a = n1 \<and> (\<forall>i<n1. length (a ! i) = n2 \<and> (\<forall>j<n2. length (a ! i ! j) = n3))"
  proof (intro conjI allI impI)
    show "length a = n1"
      using h by (simp add: has_shape_def)
  next
    fix i assume i: "i < n1"
    with h have mem: "a ! i \<in> set a"
      by (simp add: has_shape_def)
    with h show len: "length (a ! i) = n2"
      by (simp add: has_shape_def)
    fix j assume "j < n2"
    with len have "a ! i ! j \<in> set (a ! i)"
      by simp
    with h mem show "length (a ! i ! j) = n3"
      by (simp add: has_shape_def)
  qed
next
  assume r: "length a = n1 \<and> (\<forall>i<n1. length (a ! i) = n2 \<and> (\<forall>j<n2. length (a ! i ! j) = n3))"
  show "has_shape a n1 n2 n3"
    unfolding has_shape_def
  proof (intro conjI ballI)
    show "length a = n1"
      using r by simp
  next
    fix p assume "p \<in> set a"
    then obtain i where i: "i < n1" "p = a ! i"
      using r by (auto simp: in_set_conv_nth)
    with r show "length p = n2"
      by simp
    fix q assume "q \<in> set p"
    then obtain j where "j < n2" "q = p ! j"
      using r i by (auto simp: in_set_conv_nth)
    with r i show "length q = n3"
      by simp
  qed
qed

lemma has_shape_update3:
  assumes "has_shape a n1 n2 n3" and "y < n1" and "x < n2" and "z < n3"
  shows "has_shape (update3 a y x z v) n1 n2 n3"
proof -
  from assms(1) have a: "length a = n1" "\<And>i. i < n1 \<Longrightarrow> length (a ! i) = n2"
    "\<And>i j. i < n1 \<Longrightarrow> j < n2 \<Longrightarrow> length (a ! i ! j) = n3"
    by (simp_all add: has_shape_iff)
  have "length (update3 a y x z v) = n1"
    by (simp add: update3_def a)
  moreover have "length (update3 a y x z v ! i) = n2" if "i < n1" for i
    using that assms(2) by (cases "i = y") (simp_all add: update3_def a)
  moreover have "length (update3 a y x z v ! i ! j) = n3" if "i < n1" and "j < n2" for i j
  proof (cases "i = y")
    case True
    then show ?thesis
      using that assms(2,3) by (cases "j = x") (simp_all add: update3_def a)
  next
    case False
    then show ?thesis
      using that by (simp add: update3_def a)
  qed
  ultimately show ?thesis
    by (simp add: has_shape_iff)
qed

lemma nth_update3:
  assumes "has_shape a n1 n2 n3" and "y < n1" and "x < n2" and "z < n3"
    and "i < n1" and "j < n2" and "k < n3"
  shows "update3 a y x z v ! i ! j ! k = (if i = y \<and> j = x \<and> k = z then v else a ! i ! j ! k)"
proof -
  from assms have a: "length a = n1" "\<And>i. i < n1 \<Longrightarrow> length (a ! i) = n2"
    "\<And>i j. i < n1 \<Longrightarrow> j < n2 \<Longrightarrow> length (a ! i ! j) = n3"
    by (simp_all add: has_shape_iff)
  show ?thesis
    unfolding update3_def using assms(2-) by (simp add: a nth_list_update)
qed

lemma array3_eqI:
  assumes "has_shape a n1 n2 n3" and "has_shape b n1 n2 n3"
    and "\<And>i j k. i < n1 \<Longrightarrow> j < n2 \<Longrightarrow> k < n3 \<Longrightarrow> a ! i ! j ! k = b ! i ! j ! k"
  shows "a = b"
proof -
  from assms(1) have a: "length a = n1" "\<And>i. i < n1 \<Longrightarrow> length (a ! i) = n2"
    "\<And>i j. i < n1 \<Longrightarrow> j < n2 \<Longrightarrow> length (a ! i ! j) = n3"
    by (simp_all add: has_shape_iff)
  from assms(2) have b: "length b = n1" "\<And>i. i < n1 \<Longrightarrow> length (b ! i) = n2"
    "\<And>i j. i < n1 \<Longrightarrow> j < n2 \<Longrightarrow> length (b ! i ! j) = n3"
    by (simp_all add: has_shape_iff)
  show ?thesis
  proof (rule nth_equalityI)
    show "length a = length b"
      by (simp add: a b)
  next
    fix i assume "i < length a"
    then have i: "i < n1"
      by (simp add: a)
    show "a ! i = b ! i"
    proof (rule nth_equalityI)
      show "length (a ! i) = length (b ! i)"
        using i by (simp add: a b)
    next
      fix j assume "j < length (a ! i)"
      then have j: "j < n2"
        using i by (simp add: a)
      show "a ! i ! j = b ! i ! j"
      proof (rule nth_equalityI)
        show "length (a ! i ! j) = length (b ! i ! j)"
          using i j by (simp add: a b)
      next
        fix k assume "k < length (a ! i ! j)"
        then have "k < n3"
          using i j by (simp add: a)
        with i j show "a ! i ! j ! k = b ! i ! j ! k"
          by (rule assms(3))
      qed
    qed
  qed
qed

lemma distinct_concat_map_upt:
  assumes "\<And>i. i < n \<Longrightarrow> distinct (f i)"
    and "\<And>i j. i < n \<Longrightarrow> j < n \<Longrightarrow> i \<noteq> j \<Longrightarrow> set (f i) \<inter> set (f j) = {}"
  shows "distinct (concat (map f [0..<n]))"
  using assms
proof (induction n)
  case 0
  then show ?case by simp
next
  case (Suc n)
  have "distinct (concat (map f [0..<n]))"
    by (rule Suc.IH) (simp_all add: Suc.prems)
  moreover have "distinct (f n)"
    by (simp add: Suc.prems(1))
  moreover have disj: "set (f i) \<inter> set (f n) = {}" if "i < n" for i
    using that by (intro Suc.prems(2)) simp_all
  have "set (concat (map f [0..<n])) \<inter> set (f n) = {}"
  proof (rule ccontr)
    assume "set (concat (map f [0..<n])) \<inter> set (f n) \<noteq> {}"
    then obtain x where "x \<in> set (concat (map f [0..<n]))" and xn: "x \<in> set (f n)"
      by blast
    then obtain i where "i < n" and "x \<in> set (f i)"
      by auto
    with disj [of i] xn show False
      by blast
  qed
  ultimately show ?case
    by simp
qed

lemma in_concat_map_upt: "i < n \<Longrightarrow> c \<in> set (f i) \<Longrightarrow> c \<in> set (concat (map f [0..<n]))"
  by auto

lemma set_argwhere_plein:
  assumes "has_shape counts ny nx nz"
  shows "set (argwhere_plein counts)
         = {(y, x, z). y < ny \<and> x < nx \<and> z < nz \<and> counts ! y ! x ! z > 0}"
proof -
  from assms have a: "length counts = ny" "\<And>i. i < ny \<Longrightarrow> length (counts ! i) = nx"
    "\<And>i j. i < ny \<Longrightarrow> j < nx \<Longrightarrow> length (counts ! i ! j) = nz"
    by (simp_all add: has_shape_iff)
  show ?thesis
  proof (intro set_eqI iffI)
    fix c assume "c \<in> set (argwhere_plein counts)"
    then show "c \<in> {(y, x, z). y < ny \<and> x < nx \<and> z < nz \<and> counts ! y ! x ! z > 0}"
      unfolding argwhere_plein_def by (auto simp: a)
  next
    fix c assume "c \<in> {(y, x, z). y < ny \<and> x < nx \<and> z < nz \<and> counts ! y ! x ! z > 0}"
    then obtain y x z where c: "c = (y, x, z)" "y < ny" "x < nx" "z < nz"
      "counts ! y ! x ! z > 0"
      by auto
    have "(y, x, z) \<in> set (map (\<lambda>z. (y, x, z))
            (filter (\<lambda>z. counts ! y ! x ! z > 0) [0..<length (counts ! y ! x)]))"
      using c by (simp add: a)
    with c(3) have "(y, x, z) \<in> set (concat (map (\<lambda>x. map (\<lambda>z. (y, x, z))
            (filter (\<lambda>z. counts ! y ! x ! z > 0) [0..<length (counts ! y ! x)]))
            [0..<nx]))"
      by (rule in_concat_map_upt)
    then have "(y, x, z) \<in> set (concat (map (\<lambda>x. map (\<lambda>z. (y, x, z))
            (filter (\<lambda>z. counts ! y ! x ! z > 0) [0..<length (counts ! y ! x)]))
            [0..<length (counts ! y)]))"
      using c(2) by (simp only: a)
    with c(2) have "(y, x, z) \<in> set (concat (map (\<lambda>y. concat (map (\<lambda>x. map (\<lambda>z. (y, x, z))
            (filter (\<lambda>z. counts ! y ! x ! z > 0) [0..<length (counts ! y ! x)]))
            [0..<length (counts ! y)])) [0..<ny]))"
      by (rule in_concat_map_upt)
    then show "c \<in> set (argwhere_plein counts)"
      unfolding argwhere_plein_def c(1) by (simp only: a)
  qed
qed

lemma distinct_argwhere_plein: "distinct (argwhere_plein counts)"
  unfolding argwhere_plein_def
proof (rule distinct_concat_map_upt)
  fix y
  show "distinct (concat (map (\<lambda>x. map (\<lambda>z. (y, x, z))
          (filter (\<lambda>z. 0 < counts ! y ! x ! z) [0..<length (counts ! y ! x)]))
          [0..<length (counts ! y)]))"
    by (rule distinct_concat_map_upt) (auto simp: distinct_map inj_on_def)
next
  fix i j :: nat
  assume "i \<noteq> j"
  then show "set (concat (map (\<lambda>x. map (\<lambda>z. (i, x, z))
          (filter (\<lambda>z. 0 < counts ! i ! x ! z) [0..<length (counts ! i ! x)]))
          [0..<length (counts ! i)]))
     \<inter> set (concat (map (\<lambda>x. map (\<lambda>z. (j, x, z))
          (filter (\<lambda>z. 0 < counts ! j ! x ! z) [0..<length (counts ! j ! x)]))
          [0..<length (counts ! j)])) = {}"
    by auto
qed

lemma sequence_map_Inr:
  "(\<And>x. x \<in> set xs \<Longrightarrow> g x = Inr (h x)) \<Longrightarrow> sequence (map g xs) = Inr (map h xs)"
  by (induction xs) simp_all

lemma map_nth_upt: "map (\<lambda>i. f (xs ! i)) [0..<length xs] = map f xs"
proof -
  have "map f (map (\<lambda>i. xs ! i) [0..<length xs]) = map f xs"
    by (simp only: map_nth)
  then show ?thesis
    by (simp add: comp_def)
qed

lemma fold_max_Max: "fold max vs (v :: int) = Max (set (v # vs))"
  by (simp only: Max.set_eq_fold)

lemma max_plus_1_eq:
  assumes "\<forall>v \<in> set vs. v < n" and "n - 1 \<in> set vs"
  shows "max_plus_1 vs = n"
proof -
  from assms(2) obtain v vs' where vs: "vs = v # vs'"
    by (cases vs) auto
  have "Max (set vs) = n - 1"
    using assms by (intro Max_eqI) auto
  then show ?thesis
    by (simp add: max_plus_1_def vs fold_max_Max)
qed

lemma np_index_nat: "i < n \<Longrightarrow> np_index n (int i) = Some i"
  by (simp add: np_index_def)

lemma remplir_in_range:
  assumes "has_shape C ny nx nz" and "has_shape M ny nx nz"
    and "y < ny" and "x < nx" and "z < nz" and "M ! y ! x ! z = 0"
  shows "remplir ((int y, int x, int z), v) (C, M)
         = Inr (update3 C y x z (C ! y ! x ! z + 1), update3 M y x z v)"
proof -
  from assms(1,3,4) have "length C = ny" "length (C ! y) = nx" "length (C ! y ! x) = nz"
    by (simp_all add: has_shape_iff)
  with assms(3-) show ?thesis
    by (simp add: remplir_def np_index_nat)
qed

lemma remplissage_spec:
  assumes "has_shape C ny nx nz" and "has_shape M ny nx nz"
    and "\<forall>(y, x, z) \<in> set cs. y < ny \<and> x < nx \<and> z < nz"
    and "distinct cs"
    and "\<forall>(y, x, z) \<in> set cs. M ! y ! x ! z = 0"
  shows "\<exists>C' M'. remplissage (map (\<lambda>c. (coord_int c, f c)) cs) (C, M) = Inr (C', M')
           \<and> has_shape C' ny nx nz \<and> has_shape M' ny nx nz
           \<and> (\<forall>y<ny. \<forall>x<nx. \<forall>z<nz.
                 C' ! y ! x ! z = C ! y ! x ! z + (if (y, x, z) \<in> set cs then 1 else 0)
               \<and> M' ! y ! x ! z = (if (y, x, z) \<in> set cs then f (y, x, z) else M ! y ! x ! z))"
  using assms
proof (induction cs arbitrary: C M)
  case Nil
  then show ?case by simp
next
  case (Cons c cs)
  obtain y0 x0 z0 where c: "c = (y0, x0, z0)"
    by (cases c)
  from Cons.prems(3) c have r0: "y0 < ny" "x0 < nx" "z0 < nz"
    by simp_all
  from Cons.prems(5) c have m0: "M ! y0 ! x0 ! z0 = 0"
    by simp
  let ?C1 = "update3 C y0 x0 z0 (C ! y0 ! x0 ! z0 + 1)"
  let ?M1 = "update3 M y0 x0 z0 (f c)"
  have step: "remplir (coord_int c, f c) (C, M) = Inr (?C1, ?M1)"
    unfolding c coord_int_def prod.case
    using Cons.prems(1,2) r0 m0 by (rule remplir_in_range)
  have shC: "has_shape ?C1 ny nx nz"
    using Cons.prems(1) r0 by (rule has_shape_update3)
  have shM: "has_shape ?M1 ny nx nz"
    using Cons.prems(2) r0 by (rule has_shape_update3)
  have C1: "?C1 ! y ! x ! z = (if (y, x, z) = c then C ! y ! x ! z + 1 else C ! y ! x ! z)"
    if "y < ny" "x < nx" "z < nz" for y x z
    using nth_update3 [OF Cons.prems(1) r0 that] by (auto simp: c)
  have M1: "?M1 ! y ! x ! z = (if (y, x, z) = c then f c else M ! y ! x ! z)"
    if "y < ny" "x < nx" "z < nz" for y x z
    using nth_update3 [OF Cons.prems(2) r0 that] by (auto simp: c)
  have rng: "\<forall>(y, x, z) \<in> set cs. y < ny \<and> x < nx \<and> z < nz"
    using Cons.prems(3) by simp
  have dis: "distinct cs" and notin: "c \<notin> set cs"
    using Cons.prems(4) by simp_all
  have zero: "\<forall>(y, x, z) \<in> set cs. ?M1 ! y ! x ! z = 0"
  proof (intro ballI, clarify)
    fix y x z assume mem: "(y, x, z) \<in> set cs"
    with rng have r: "y < ny" "x < nx" "z < nz"
      by auto
    from mem notin have "(y, x, z) \<noteq> c"
      by auto
    moreover from mem Cons.prems(5) have "M ! y ! x ! z = 0"
      by auto
    ultimately show "?M1 ! y ! x ! z = 0"
      using M1 [OF r] by simp
  qed
  from Cons.IH [OF shC shM rng dis zero]
  obtain C' M' where rest: "remplissage (map (\<lambda>c. (coord_int c, f c)) cs) (?C1, ?M1) = Inr (C', M')"
    and sh': "has_shape C' ny nx nz" "has_shape M' ny nx nz"
    and val: "\<forall>y<ny. \<forall>x<nx. \<forall>z<nz.
                 C' ! y ! x ! z = ?C1 ! y ! x ! z + (if (y, x, z) \<in> set cs then 1 else 0)
               \<and> M' ! y ! x ! z = (if (y, x, z) \<in> set cs then f (y, x, z) else ?M1 ! y ! x ! z)"
    by blast
  have run: "remplissage (map (\<lambda>c. (coord_int c, f c)) (c # cs)) (C, M) = Inr (C', M')"
    by (simp add: step rest)
  have "C' ! y ! x ! z = C ! y ! x ! z + (if (y, x, z) \<in> set (c # cs) then 1 else 0)
      \<and> M' ! y ! x ! z = (if (y, x, z) \<in> set (c # cs) then f (y, x, z) else M ! y ! x ! z)"
    if r: "y < ny" "x < nx" "z < nz" for y x z
  proof (cases "(y, x, z) = c")
    case True
    with notin have "(y, x, z) \<notin> set cs"
      by simp
    with val r True C1 [OF r] M1 [OF r] show ?thesis
      by simp
  next
    case False
    with val r C1 [OF r] M1 [OF r] show ?thesis
      by simp
  qed
  with run sh' show ?case
    by blast
qed

lemma voxel_graphe_Inr:
  assumes sc: "has_shape counts ny nx nz" and sm: "has_shape class_maj ny nx nz"
  shows "\<exists>G. voxel_graphe counts class_maj = Inr G
           \<and> map (\<lambda>(n, d). node_coord d) (g_nodes G)
               = map (\<lambda>c. Inr (coord_int c)) (argwhere_plein counts)
           \<and> map (\<lambda>(n, d). node_class d) (g_nodes G)
               = map (\<lambda>(y, x, z). Inr (class_maj ! y ! x ! z)) (argwhere_plein counts)"
proof -
  let ?cs = "argwhere_plein counts"
  let ?f = "\<lambda>(y, x, z). class_maj ! y ! x ! z"
  have rng: "y < ny \<and> x < nx \<and> z < nz" if "(y, x, z) \<in> set ?cs" for y x z
    using that by (simp add: set_argwhere_plein [OF sc])
  have "at3 class_maj y x z = Inr (class_maj ! y ! x ! z)" if "(y, x, z) \<in> set ?cs" for y x z
  proof -
    from rng [OF that] sm have "in_bounds class_maj y x z"
      by (simp add: in_bounds_def has_shape_iff)
    then show ?thesis
      by (simp add: at3_def)
  qed
  then have "\<And>c. c \<in> set ?cs \<Longrightarrow> (case c of (y, x, z) \<Rightarrow> at3 class_maj y x z) = Inr (?f c)"
    by auto
  then have seq: "sequence (map (\<lambda>(y, x, z). at3 class_maj y x z) ?cs) = Inr (map ?f ?cs)"
    by (rule sequence_map_Inr)
  let ?G = "\<lparr>g_nodes =
                map (\<lambda>i. (i, \<lparr>coord_n = (case ?cs ! i of (y, x, z) \<Rightarrow> Some (int x, int y, int z)),
                              class_maj_n = Some (map ?f ?cs ! i)\<rparr>))
                    [0..<length ?cs],
              g_edges = map (\<lambda>(a, b).
                  (the (map_of (rev (zip (map coord_int ?cs) [0..<length (map coord_int ?cs)])) a),
                   the (map_of (rev (zip (map coord_int ?cs) [0..<length (map coord_int ?cs)])) b)))
                (voisin_pairs (map coord_int ?cs))\<rparr>"
  have G: "voxel_graphe counts class_maj = Inr ?G"
    by (simp add: voxel_graphe_def Let_def seq)
  have "map (\<lambda>(n, d). node_coord d) (g_nodes ?G)
        = map (\<lambda>i. Inr (coord_int (?cs ! i))) [0..<length ?cs]"
    by (auto simp: node_coord_def coord_int_def split: prod.splits)
  also have "\<dots> = map (\<lambda>c. Inr (coord_int c)) ?cs"
    by (rule map_nth_upt)
  finally have c: "map (\<lambda>(n, d). node_coord d) (g_nodes ?G) = map (\<lambda>c. Inr (coord_int c)) ?cs" .
  have "map (\<lambda>(n, d). node_class d) (g_nodes ?G)
        = map (\<lambda>i. Inr (?f (?cs ! i))) [0..<length ?cs]"
    by (auto simp: node_class_def)
  also have "\<dots> = map (\<lambda>c. Inr (?f c)) ?cs"
    by (rule map_nth_upt)
  also have "\<dots> = map (\<lambda>(y, x, z). Inr (class_maj ! y ! x ! z)) ?cs"
    by (auto split: prod.splits)
  finally have "map (\<lambda>(n, d). node_class d) (g_nodes ?G)
        = map (\<lambda>(y, x, z). Inr (class_maj ! y ! x ! z)) ?cs" .
  with G c show ?thesis
    by blast
qed

text \<open>
  C2, as the code has it.  \<open>graphe_voxel\<close> rebuilds the shape of the arrays from the
  largest coordinate of a node on each axis, and adds 1 to \<open>counts\<close> for each node.
  So the conversion of a grid to a graph and back, \<open>aller_retour\<close>, returns the grid
  it was given when every count is 0 or 1, \<open>class_maj\<close> is 0 on the empty voxels, and
  the last plane of each axis holds a full voxel.
\<close>

theorem round_trip:
  assumes sc: "has_shape counts ny nx nz" and sm: "has_shape class_maj ny nx nz"
    and bin: "\<forall>y<ny. \<forall>x<nx. \<forall>z<nz. counts ! y ! x ! z = 0 \<or> counts ! y ! x ! z = 1"
    and vide: "\<forall>y<ny. \<forall>x<nx. \<forall>z<nz. counts ! y ! x ! z = 0 \<longrightarrow> class_maj ! y ! x ! z = 0"
    and ly: "\<exists>x<nx. \<exists>z<nz. 0 < ny \<and> 0 < counts ! (ny - 1) ! x ! z"
    and lx: "\<exists>y<ny. \<exists>z<nz. 0 < nx \<and> 0 < counts ! y ! (nx - 1) ! z"
    and lz: "\<exists>y<ny. \<exists>x<nx. 0 < nz \<and> 0 < counts ! y ! x ! (nz - 1)"
  shows "aller_retour counts class_maj = Inr (counts, class_maj)"
proof -
  let ?cs = "argwhere_plein counts"
  let ?f = "\<lambda>(y, x, z). class_maj ! y ! x ! z"
  have set_cs: "set ?cs = {(y, x, z). y < ny \<and> x < nx \<and> z < nz \<and> counts ! y ! x ! z > 0}"
    using sc by (rule set_argwhere_plein)
  from voxel_graphe_Inr [OF sc sm] obtain G where
    G: "voxel_graphe counts class_maj = Inr G"
    and Gc: "map (\<lambda>(n, d). node_coord d) (g_nodes G) = map (\<lambda>c. Inr (coord_int c)) ?cs"
    and Gk: "map (\<lambda>(n, d). node_class d) (g_nodes G)
             = map (\<lambda>(y, x, z). Inr (class_maj ! y ! x ! z)) ?cs"
    by blast
  have seq_c: "sequence (map (\<lambda>(n, d). node_coord d) (g_nodes G)) = Inr (map coord_int ?cs)"
    unfolding Gc by (rule sequence_map_Inr) simp
  have seq_k: "sequence (map (\<lambda>(n, d). node_class d) (g_nodes G)) = Inr (map ?f ?cs)"
    unfolding Gk by (rule sequence_map_Inr) auto
  from ly obtain x1 z1 where "(ny - 1, x1, z1) \<in> set ?cs" and ny: "0 < ny"
    by (auto simp: set_cs)
  then have ne: "map coord_int ?cs \<noteq> []" and my: "int ny - 1 \<in> set (map fst (map coord_int ?cs))"
    by (auto simp: coord_int_def image_iff intro!: bexI [of _ "(ny - 1, x1, z1)"])
  from lx obtain y2 z2 where "(y2, nx - 1, z2) \<in> set ?cs" and nx: "0 < nx"
    by (auto simp: set_cs)
  then have mx: "int nx - 1 \<in> set (map (\<lambda>c. fst (snd c)) (map coord_int ?cs))"
    by (auto simp: coord_int_def image_iff intro!: bexI [of _ "(y2, nx - 1, z2)"])
  from lz obtain y3 x3 where "(y3, x3, nz - 1) \<in> set ?cs" and nz: "0 < nz"
    by (auto simp: set_cs)
  then have mz: "int nz - 1 \<in> set (map (\<lambda>c. snd (snd c)) (map coord_int ?cs))"
    by (auto simp: coord_int_def image_iff intro!: bexI [of _ "(y3, x3, nz - 1)"])
  have dy: "max_plus_1 (map fst (map coord_int ?cs)) = int ny"
    by (rule max_plus_1_eq [OF _ my]) (auto simp: set_cs coord_int_def)
  have dx: "max_plus_1 (map (\<lambda>c. fst (snd c)) (map coord_int ?cs)) = int nx"
    by (rule max_plus_1_eq [OF _ mx]) (auto simp: set_cs coord_int_def)
  have dz: "max_plus_1 (map (\<lambda>c. snd (snd c)) (map coord_int ?cs)) = int nz"
    by (rule max_plus_1_eq [OF _ mz]) (auto simp: set_cs coord_int_def)
  let ?Z = "tabulate3 ny nx nz (\<lambda>y x z. 0 :: int)"
  have zip: "zip (map coord_int ?cs) (map ?f ?cs) = map (\<lambda>c. (coord_int c, ?f c)) ?cs"
    by (simp add: zip_map_map zip_same_conv_map)
  have dy': "max_plus_1 (map (fst \<circ> coord_int) ?cs) = int ny"
    using dy by simp
  have dx': "max_plus_1 (map ((\<lambda>c. fst (snd c)) \<circ> coord_int) ?cs) = int nx"
    using dx by simp
  have dz': "max_plus_1 (map ((\<lambda>c. snd (snd c)) \<circ> coord_int) ?cs) = int nz"
    using dz by simp
  have gv: "graphe_voxel G = remplissage (map (\<lambda>c. (coord_int c, ?f c)) ?cs) (?Z, ?Z)"
    using ne by (simp add: graphe_voxel_def seq_c seq_k dy' dx' dz' zip Let_def)
  have shZ: "has_shape ?Z ny nx nz"
    by (rule has_shape_tabulate3)
  have rng: "\<forall>(y, x, z) \<in> set ?cs. y < ny \<and> x < nx \<and> z < nz"
    by (auto simp: set_cs)
  have zero: "\<forall>(y, x, z) \<in> set ?cs. ?Z ! y ! x ! z = 0"
    by (auto simp: set_cs nth_tabulate3)
  from remplissage_spec [OF shZ shZ rng distinct_argwhere_plein zero, of ?f]
  obtain C' M' where run: "remplissage (map (\<lambda>c. (coord_int c, ?f c)) ?cs) (?Z, ?Z) = Inr (C', M')"
    and sh': "has_shape C' ny nx nz" "has_shape M' ny nx nz"
    and val: "\<forall>y<ny. \<forall>x<nx. \<forall>z<nz.
                 C' ! y ! x ! z = ?Z ! y ! x ! z + (if (y, x, z) \<in> set ?cs then 1 else 0)
               \<and> M' ! y ! x ! z = (if (y, x, z) \<in> set ?cs then ?f (y, x, z) else ?Z ! y ! x ! z)"
    by blast
  have "C' = counts"
  proof (rule array3_eqI [OF sh'(1) sc])
    fix y x z assume r: "y < ny" "x < nx" "z < nz"
    with val have "C' ! y ! x ! z = (if (y, x, z) \<in> set ?cs then 1 else 0)"
      by (simp add: nth_tabulate3)
    moreover from bin r have "counts ! y ! x ! z = 0 \<or> counts ! y ! x ! z = 1"
      by blast
    ultimately show "C' ! y ! x ! z = counts ! y ! x ! z"
      using r by (auto simp: set_cs)
  qed
  moreover have "M' = class_maj"
  proof (rule array3_eqI [OF sh'(2) sm])
    fix y x z assume r: "y < ny" "x < nx" "z < nz"
    with val have "M' ! y ! x ! z = (if (y, x, z) \<in> set ?cs then class_maj ! y ! x ! z else 0)"
      by (simp add: nth_tabulate3)
    moreover from bin r have "counts ! y ! x ! z = 0 \<or> counts ! y ! x ! z = 1"
      by blast
    moreover from vide r have "counts ! y ! x ! z = 0 \<longrightarrow> class_maj ! y ! x ! z = 0"
      by blast
    ultimately show "M' ! y ! x ! z = class_maj ! y ! x ! z"
      using r by (auto simp: set_cs)
  qed
  ultimately show ?thesis
    by (simp add: aller_retour_def G gv run)
qed

theorem round_trip_witness:
  "has_shape counts_exemple 2 2 2 \<and> has_shape class_maj_exemple 2 2 2
   \<and> 0 < counts_exemple ! 1 ! 1 ! 1
   \<and> aller_retour counts_exemple class_maj_exemple = Inr (counts_exemple, class_maj_exemple)"
proof -
  have sc: "has_shape counts_exemple 2 2 2"
    by (simp add: counts_exemple_def has_shape_def)
  have sm: "has_shape class_maj_exemple 2 2 2"
    by (simp add: class_maj_exemple_def has_shape_def)
  have bin: "\<forall>y<2. \<forall>x<2. \<forall>z<2.
      counts_exemple ! y ! x ! z = 0 \<or> counts_exemple ! y ! x ! z = 1"
    by (auto simp: counts_exemple_def less_2_cases_iff)
  have vide: "\<forall>y<2. \<forall>x<2. \<forall>z<2.
      counts_exemple ! y ! x ! z = 0 \<longrightarrow> class_maj_exemple ! y ! x ! z = 0"
    by (auto simp: counts_exemple_def class_maj_exemple_def less_2_cases_iff)
  have plein: "0 < counts_exemple ! 1 ! 1 ! 1"
    by (simp add: counts_exemple_def)
  have ly: "\<exists>x<2. \<exists>z<2. (0 :: nat) < 2 \<and> 0 < counts_exemple ! (2 - 1) ! x ! z"
    using plein by (intro exI [of _ 1] conjI) simp_all
  have lx: "\<exists>y<2. \<exists>z<2. (0 :: nat) < 2 \<and> 0 < counts_exemple ! y ! (2 - 1) ! z"
    using plein by (intro exI [of _ 1] conjI) simp_all
  have lz: "\<exists>y<2. \<exists>x<2. (0 :: nat) < 2 \<and> 0 < counts_exemple ! y ! x ! (2 - 1)"
    using plein by (intro exI [of _ 1] conjI) simp_all
  from round_trip [OF sc sm bin vide ly lx lz] sc sm plein show ?thesis
    by simp
qed

text \<open>
  C2 as stated fails.  In the grid of shape (2, 1, 1) below no voxel holds two points
  and \<open>class_maj\<close> is 0 on the empty voxel, but the plane \<open>y = 1\<close> is empty: the
  grid that comes back has shape (1, 1, 1).  A grid with no full voxel gives a graph
  with no node, on which \<open>coords.max\<close> raises ValueError.
\<close>

theorem round_trip_counterexample:
  "aller_retour [[[1]], [[0]]] [[[2]], [[0]]] = Inr ([[[1]]], [[[2]]])
   \<and> aller_retour [[[1]], [[0]]] [[[2]], [[0]]] \<noteq> Inr ([[[1]], [[0]]], [[[2]], [[0]]])
   \<and> aller_retour [[[0]]] [[[0]]] = Inl ValueError"
  by code_simp

text \<open>
  A voxel that holds two points comes back with the count 1: the graph has one node
  for each full voxel, whatever its count.
\<close>

lemma aller_retour_counts_2:
  "aller_retour [[[2]]] [[[6]]] = Inr ([[[1]]], [[[6]]])"
  by code_simp

section \<open>Properties of the ground shell with pillars\<close>

lemma set_voxels_finaux:
  assumes "has_shape grid n1 n2 n3"
  shows "set (voxels_finaux grid)
         = {(x, y, z). x < n1 \<and> y < n2 \<and> z < n3 \<and> grid ! x ! y ! z \<noteq> 0}"
proof -
  from assms have a: "length grid = n1" "\<And>i. i < n1 \<Longrightarrow> length (grid ! i) = n2"
    "\<And>i j. i < n1 \<Longrightarrow> j < n2 \<Longrightarrow> length (grid ! i ! j) = n3"
    by (simp_all add: has_shape_iff)
  show ?thesis
  proof (intro set_eqI iffI)
    fix c assume "c \<in> set (voxels_finaux grid)"
    then show "c \<in> {(x, y, z). x < n1 \<and> y < n2 \<and> z < n3 \<and> grid ! x ! y ! z \<noteq> 0}"
      unfolding voxels_finaux_def by (auto simp: a)
  next
    fix c assume "c \<in> {(x, y, z). x < n1 \<and> y < n2 \<and> z < n3 \<and> grid ! x ! y ! z \<noteq> 0}"
    then obtain x y z where c: "c = (x, y, z)" "x < n1" "y < n2" "z < n3"
      "grid ! x ! y ! z \<noteq> 0"
      by auto
    have "(x, y, z) \<in> set (map (\<lambda>z. (x, y, z))
            (filter (\<lambda>z. grid ! x ! y ! z \<noteq> 0) [0..<length (grid ! x ! y)]))"
      using c by (simp add: a)
    with c(3) have "(x, y, z) \<in> set (concat (map (\<lambda>y. map (\<lambda>z. (x, y, z))
            (filter (\<lambda>z. grid ! x ! y ! z \<noteq> 0) [0..<length (grid ! x ! y)]))
            [0..<n2]))"
      by (rule in_concat_map_upt)
    then have "(x, y, z) \<in> set (concat (map (\<lambda>y. map (\<lambda>z. (x, y, z))
            (filter (\<lambda>z. grid ! x ! y ! z \<noteq> 0) [0..<length (grid ! x ! y)]))
            [0..<length (grid ! x)]))"
      using c(2) by (simp only: a)
    with c(2) have "(x, y, z) \<in> set (concat (map (\<lambda>x. concat (map (\<lambda>y. map (\<lambda>z. (x, y, z))
            (filter (\<lambda>z. grid ! x ! y ! z \<noteq> 0) [0..<length (grid ! x ! y)]))
            [0..<length (grid ! x)])) [0..<n1]))"
      by (rule in_concat_map_upt)
    then show "c \<in> set (voxels_finaux grid)"
      unfolding voxels_finaux_def c(1) by (simp only: a)
  qed
qed

lemma reconstruction_node:
  assumes "(x, y, z) \<in> set (voxels_finaux grid)"
  shows "\<exists>i. (i, \<lparr>coord_n = Some (int x + mx, int y + my, int z + mz),
                   class_maj_n = Some (sint (grid ! x ! y ! z))\<rparr>)
              \<in> set (g_nodes (reconstruction grid (mx, my, mz)))"
proof -
  from assms obtain i where i: "i < length (voxels_finaux grid)"
    and v: "voxels_finaux grid ! i = (x, y, z)"
    by (auto simp: in_set_conv_nth)
  let ?node = "\<lambda>i. case voxels_finaux grid ! i of (x, y, z) \<Rightarrow>
                  (i, \<lparr>coord_n = Some (int x + mx, int y + my, int z + mz),
                       class_maj_n = Some (sint (grid ! x ! y ! z))\<rparr>)"
  have "?node i \<in> ?node ` set [0..<length (voxels_finaux grid)]"
    using i by (intro imageI) simp
  then have "?node i \<in> set (g_nodes (reconstruction grid (mx, my, mz)))"
    by (simp add: reconstruction_def Let_def)
  then show ?thesis
    by (auto simp: v)
qed

lemma is_internal_pilier:
  assumes "0 < pillar_step" and "x < n1" and "y < n2" and "z < n3"
    and "pillar_mask_2d pillar_step pillar_width x y"
  shows "\<not> is_internal n1 n2 n3 grid class_sol pillar_step pillar_width ! x ! y ! z"
  using assms by (simp add: is_internal_def is_internal_piliers_def nth_tabulate3)

lemma coque_avec_piliers_pilier:
  assumes "0 < pillar_step" and "x < n1" and "y < n2" and "z < n3"
    and "pillar_mask_2d pillar_step pillar_width x y"
  shows "coque_avec_piliers n1 n2 n3 grid class_sol pillar_step pillar_width ! x ! y ! z
         = grid ! x ! y ! z"
  using assms is_internal_pilier [OF assms, of grid class_sol]
  by (simp add: coque_avec_piliers_def nth_tabulate3)

text \<open>
  C6, as the code has it.  The pillars stand on the columns of the dense grid, which are
  the columns of the voxels shifted by the minimum coordinates \<open>(mx, my, mz)\<close> of the
  graph.  With \<open>pillar_step = 4\<close> and \<open>pillar_width = 2\<close>, on a graph with at least
  one node whose nodes all have their two attributes, the function returns a graph; and
  every voxel \<open>(X, Y, Z)\<close> that is ground when the erosion starts, in a column with
  \<open>(X - mx) mod 4 < 2\<close> and \<open>(Y - my) mod 4 < 2\<close>, is a ground node of the graph
  returned, whatever its neighbours are.  The ground class is not 0, the value of an
  empty voxel.
\<close>

theorem pillar_preservation:
  assumes coords: "sequence (map (\<lambda>(n, d). attr_coord d) (g_nodes G)) = Inr coords"
    and classes: "sequence (map (\<lambda>(n, d). node_class d) (g_nodes G)) = Inr classes"
    and ne: "coords \<noteq> []"
    and mc: "min_coords coords = (mx, my, mz)"
    and sol: "class_sol \<noteq> 0"
    and X: "mx \<le> X" "X - mx < int (nx_max coords)"
    and Y: "my \<le> Y" "Y - my < int (ny_max coords)"
    and Z: "mz \<le> Z" "Z - mz < int (nz_max coords)"
    and ground: "grille_propagee coords classes class_sol class_bat n_min
                   ! nat (X - mx) ! nat (Y - my) ! nat (Z - mz) = class_sol"
    and lattice: "(X - mx) mod 4 < 2" "(Y - my) mod 4 < 2"
  shows "\<exists>G'. ajouter_sol_coque_pillier G class_sol class_bat n_min 4 2 = Inr G'
           \<and> (\<exists>i. (i, \<lparr>coord_n = Some (X, Y, Z), class_maj_n = Some (sint class_sol)\<rparr>)
                    \<in> set (g_nodes G'))"
proof -
  let ?n1 = "nx_max coords" and ?n2 = "ny_max coords" and ?n3 = "nz_max coords"
  let ?x = "nat (X - mx)" and ?y = "nat (Y - my)" and ?z = "nat (Z - mz)"
  let ?grid = "grille_propagee coords classes class_sol class_bat n_min"
  let ?coque = "coque_avec_piliers ?n1 ?n2 ?n3 ?grid class_sol 4 2"
  have r: "?x < ?n1" "?y < ?n2" "?z < ?n3"
    using X Y Z by simp_all
  have "pillar_mask_2d 4 2 ?x ?y"
    using X(1) Y(1) lattice by (simp add: pillar_mask_2d_def)
  then have "?coque ! ?x ! ?y ! ?z = ?grid ! ?x ! ?y ! ?z"
    using r by (intro coque_avec_piliers_pilier) simp_all
  with ground have val: "?coque ! ?x ! ?y ! ?z = class_sol"
    by simp
  have "has_shape ?coque ?n1 ?n2 ?n3"
    unfolding coque_avec_piliers_def by (rule has_shape_tabulate3)
  then have "(?x, ?y, ?z) \<in> set (voxels_finaux ?coque)"
    using r val sol by (simp add: set_voxels_finaux)
  then obtain i where "(i, \<lparr>coord_n = Some (int ?x + mx, int ?y + my, int ?z + mz),
        class_maj_n = Some (sint (?coque ! ?x ! ?y ! ?z))\<rparr>)
      \<in> set (g_nodes (reconstruction ?coque (mx, my, mz)))"
    using reconstruction_node by blast
  then have "(i, \<lparr>coord_n = Some (X, Y, Z), class_maj_n = Some (sint class_sol)\<rparr>)
      \<in> set (g_nodes (reconstruction ?coque (mx, my, mz)))"
    using X(1) Y(1) Z(1) by (simp add: val)
  moreover have "ajouter_sol_coque_pillier G class_sol class_bat n_min 4 2
      = Inr (reconstruction ?coque (mx, my, mz))"
    using ne by (simp add: ajouter_sol_coque_pillier_def coords classes mc)
  ultimately show ?thesis
    by blast
qed

text \<open>
  A solid block of ground on the columns 3 to 5: the minimum is 3 on both axes, the
  voxel \<open>(4, 4, 1)\<close> is interior (its six neighbours are ground and it is on no border
  of the grid) and stands in the column \<open>(1, 1)\<close> of the dense grid.  It survives with
  the pillars, and is removed when \<open>pillar_step = 0\<close> turns them off.
\<close>

theorem pillar_preservation_witness:
  "sequence (map (\<lambda>(n, d). attr_coord d) (g_nodes (graphe_bloc 3 3))) = Inr (coords_bloc 3 3)
   \<and> sequence (map (\<lambda>(n, d). node_class d) (g_nodes (graphe_bloc 3 3))) = Inr (replicate 27 2)
   \<and> min_coords (coords_bloc 3 3) = (3, 3, 0)
   \<and> grille_propagee (coords_bloc 3 3) (replicate 27 2) 2 3 2 ! 1 ! 1 ! 1 = 2
   \<and> is_internal_bords 3 3 3 (is_internal_voisins 3 3 3
        (sol_final_mask (grille_propagee (coords_bloc 3 3) (replicate 27 2) 2 3 2) 2)) ! 1 ! 1 ! 1
   \<and> (\<exists>G'. ajouter_sol_coque_pillier (graphe_bloc 3 3) 2 3 2 4 2 = Inr G'
         \<and> (\<exists>i. (i, \<lparr>coord_n = Some (4, 4, 1), class_maj_n = Some 2\<rparr>) \<in> set (g_nodes G')))
   \<and> (case ajouter_sol_coque_pillier (graphe_bloc 3 3) 2 3 2 0 2 of
         Inl e \<Rightarrow> False
       | Inr G' \<Rightarrow> Some (4, 4, 1) \<notin> set (coords_of G'))"
proof -
  have h1: "sequence (map (\<lambda>(n, d). attr_coord d) (g_nodes (graphe_bloc 3 3)))
            = Inr (coords_bloc 3 3)"
    by code_simp
  have h2: "sequence (map (\<lambda>(n, d). node_class d) (g_nodes (graphe_bloc 3 3)))
            = Inr (replicate 27 2)"
    by code_simp
  have h3: "coords_bloc 3 3 \<noteq> []"
    by code_simp
  have h4: "min_coords (coords_bloc 3 3) = (3, 3, 0)"
    by code_simp
  have h5: "(2 :: int8) \<noteq> 0"
    by simp
  have n: "nx_max (coords_bloc 3 3) = 3" "ny_max (coords_bloc 3 3) = 3"
    "nz_max (coords_bloc 3 3) = 3"
    by code_simp+
  have h6: "grille_propagee (coords_bloc 3 3) (replicate 27 2) 2 3 2
              ! nat (4 - 3) ! nat (4 - 3) ! nat (1 - 0) = 2"
    by code_simp
  have interior: "is_internal_bords 3 3 3 (is_internal_voisins 3 3 3
        (sol_final_mask (grille_propagee (coords_bloc 3 3) (replicate 27 2) 2 3 2) 2)) ! 1 ! 1 ! 1"
    by code_simp
  have sans: "(case ajouter_sol_coque_pillier (graphe_bloc 3 3) 2 3 2 0 2 of
         Inl e \<Rightarrow> False
       | Inr G' \<Rightarrow> Some (4, 4, 1) \<notin> set (coords_of G'))"
    by code_simp
  have "\<exists>G'. ajouter_sol_coque_pillier (graphe_bloc 3 3) 2 3 2 4 2 = Inr G'
         \<and> (\<exists>i. (i, \<lparr>coord_n = Some (4, 4, 1), class_maj_n = Some (sint (2 :: int8))\<rparr>)
                  \<in> set (g_nodes G'))"
    by (rule pillar_preservation [OF h1 h2 h3 h4 h5 _ _ _ _ _ _ h6]) (simp_all add: n)
  with h1 h2 h4 h6 interior sans show ?thesis
    by simp
qed

text \<open>
  C6 as stated fails, the columns being counted from the minimum coordinates and not
  from 0.  In the solid block of ground on the columns 3 to 6 the voxel \<open>(5, 5, 1)\<close>
  is ground, its six neighbours are ground, and \<open>5 mod 4 < 2\<close>; it is ground when the
  erosion starts, at \<open>(2, 2, 1)\<close> in the dense grid, and the erosion removes it, as it
  removes \<open>(4, 5, 1)\<close> and \<open>(5, 4, 1)\<close>.
\<close>

theorem pillar_preservation_counterexample:
  "set [(5, 5, 1), (4, 5, 1), (6, 5, 1), (5, 4, 1), (5, 6, 1), (5, 5, 0), (5, 5, 2)]
     \<subseteq> set (coords_bloc 3 4)
   \<and> sequence (map (\<lambda>(n, d). node_class d) (g_nodes (graphe_bloc 3 4))) = Inr (replicate 48 2)
   \<and> (5 :: int) mod 4 < 2
   \<and> min_coords (coords_bloc 3 4) = (3, 3, 0)
   \<and> grille_propagee (coords_bloc 3 4) (replicate 48 2) 2 3 2 ! 2 ! 2 ! 1 = 2
   \<and> (case ajouter_sol_coque_pillier (graphe_bloc 3 4) 2 3 2 4 2 of
         Inl e \<Rightarrow> False
       | Inr G' \<Rightarrow> Some (5, 5, 1) \<notin> set (coords_of G') \<and> Some (4, 5, 1) \<notin> set (coords_of G')
                   \<and> Some (5, 4, 1) \<notin> set (coords_of G') \<and> Some (4, 4, 1) \<in> set (coords_of G'))"
  by code_simp

end
